(* ===== verification/Prelude.thy ===== *)
theory Prelude
  imports Main "HOL-Library.Char_ord" "HOL-Library.List_Lexorder"
begin

text \<open>
  What every component shares: Go's byte strings and the functions of the packages
  \<open>strings\<close>, \<open>strconv\<close> and \<open>sort\<close> that the sources call, Go maps as association
  lists, and the collections of simplification facts the component proofs use.

  A Go string is a sequence of bytes, and so is an Isabelle \<open>string\<close> (a \<open>char\<close> is a
  byte): \<open>length\<close> is Go's \<open>len\<close> and \<open>s ! i\<close> is \<open>s[i]\<close>. The order on strings is the
  lexicographic order of the bytes, which is the order \<open>sort.Strings\<close> and
  \<open>slices.Sort\<close> use.

  A Go map is an association list: \<open>map_of m k\<close> is \<open>m[k]\<close>, and \<open>sortedKeys\<close> is the
  list of keys in order. A loop \<open>for k := range m\<close> visits the keys in an order the
  language leaves open; the model visits them in the order of the list, and a theorem
  over all lists covers every order.
\<close>

named_theorems step_defs "the defining equations of the steps a command is composed of"

subsection \<open>Prefixes, suffixes, searching\<close>

definition has_prefix :: "string \<Rightarrow> string \<Rightarrow> bool" where
  "has_prefix s p \<longleftrightarrow> take (length p) s = p"

definition has_suffix :: "string \<Rightarrow> string \<Rightarrow> bool" where
  "has_suffix s p \<longleftrightarrow> length p \<le> length s \<and> drop (length s - length p) s = p"

definition trim_prefix :: "string \<Rightarrow> string \<Rightarrow> string" where
  "trim_prefix s p = (if has_prefix s p then drop (length p) s else s)"

text \<open>\<open>strings.IndexByte\<close>, with \<open>None\<close> for \<open>-1\<close>.\<close>

fun index_byte :: "string \<Rightarrow> char \<Rightarrow> nat option" where
  "index_byte [] c = None"
| "index_byte (x # xs) c = (if x = c then Some 0 else map_option Suc (index_byte xs c))"

text \<open>\<open>strings.Cut\<close> with a one-byte separator: \<open>None\<close> when the separator is absent.\<close>

definition cut :: "string \<Rightarrow> char \<Rightarrow> (string \<times> string) option" where
  "cut s c = (case index_byte s c of None \<Rightarrow> None | Some i \<Rightarrow> Some (take i s, drop (Suc i) s))"

text \<open>\<open>strings.Split\<close> with a one-byte separator, and \<open>strings.Join\<close>.\<close>

fun split_on :: "char \<Rightarrow> string \<Rightarrow> string list" where
  "split_on c [] = [[]]"
| "split_on c (x # xs) =
     (if x = c then [] # split_on c xs
      else case split_on c xs of [] \<Rightarrow> [[x]] | y # ys \<Rightarrow> (x # y) # ys)"

fun join_with :: "string \<Rightarrow> string list \<Rightarrow> string" where
  "join_with sep [] = []"
| "join_with sep [x] = x"
| "join_with sep (x # y # ys) = x @ sep @ join_with sep (y # ys)"

text \<open>The line end, and the dash the messages use.\<close>

definition newline :: string where "newline = [CHR 0x0A]"
definition emdash :: string where "emdash = [CHR 0xE2, CHR 0x80, CHR 0x94]"

text \<open>The verb \<open>%-ns\<close> pads to \<open>n\<close> runes: in UTF-8, the bytes that do not continue one.\<close>

definition rune_count :: "string \<Rightarrow> nat" where
  "rune_count s = length (filter (\<lambda>c. \<not> (CHR 0x80 \<le> c \<and> c \<le> CHR 0xBF)) s)"

definition pad_right :: "nat \<Rightarrow> string \<Rightarrow> string" where
  "pad_right n s = s @ replicate (n - rune_count s) CHR '' ''"

lemma has_prefix_append: "has_prefix (p @ s) p"
  by (simp add: has_prefix_def)

lemma has_prefixE: "has_prefix s p \<Longrightarrow> s = p @ drop (length p) s"
  by (metis append_take_drop_id has_prefix_def)

lemma has_prefix_iff: "has_prefix s p \<longleftrightarrow> (\<exists>t. s = p @ t)"
  by (metis has_prefixE has_prefix_append)

lemma index_byte_None: "index_byte s c = None \<longleftrightarrow> c \<notin> set s"
  by (induction s) auto

lemma index_byte_SomeD:
  "index_byte s c = Some i \<Longrightarrow> i < length s \<and> s ! i = c \<and> c \<notin> set (take i s)"
  by (induction s arbitrary: i) (auto split: if_splits)

lemma index_byte_append: "c \<notin> set a \<Longrightarrow> index_byte (a @ c # b) c = Some (length a)"
  by (induction a) auto

lemma index_byte_split:
  assumes "index_byte s c = Some i"
  shows "s = take i s @ c # drop (Suc i) s"
  using index_byte_SomeD[OF assms] by (metis id_take_nth_drop)

lemma cut_None: "cut s c = None \<longleftrightarrow> c \<notin> set s"
  using index_byte_None[of s c] by (auto simp: cut_def split: option.splits)

lemma cut_Some_iff: "cut s c = Some (a, b) \<longleftrightarrow> s = a @ c # b \<and> c \<notin> set a"
proof
  assume "cut s c = Some (a, b)"
  then obtain i where i: "index_byte s c = Some i" and ab: "a = take i s" "b = drop (Suc i) s"
    by (auto simp: cut_def split: option.splits)
  show "s = a @ c # b \<and> c \<notin> set a"
    using index_byte_split[OF i] index_byte_SomeD[OF i] ab by simp
qed (auto simp: cut_def index_byte_append)

lemma split_on_not_Nil [simp]: "split_on c s \<noteq> []"
  by (induction s) (auto split: list.splits)

lemma join_split: "join_with [c] (split_on c s) = s"
proof (induction s)
  case (Cons x xs)
  then show ?case
    by (cases "split_on c xs"; cases "tl (split_on c xs)") auto
qed simp

lemma split_on_no_sep: "y \<in> set (split_on c s) \<Longrightarrow> c \<notin> set y"
  by (induction s arbitrary: y) (auto split: list.splits if_splits)

subsection \<open>Numbers\<close>

definition is_digit :: "char \<Rightarrow> bool" where
  "is_digit c \<longleftrightarrow> CHR ''0'' \<le> c \<and> c \<le> CHR ''9''"

definition digit_val :: "char \<Rightarrow> int" where
  "digit_val c = int (of_char c) - 48"

fun digits_val :: "int \<Rightarrow> string \<Rightarrow> int" where
  "digits_val acc [] = acc"
| "digits_val acc (c # cs) = digits_val (10 * acc + digit_val c) cs"

definition max_int64 :: int where "max_int64 = 9223372036854775807"
definition min_int64 :: int where "min_int64 = -9223372036854775808"

text \<open>
  \<open>strconv.Atoi\<close> on a 64-bit platform: an optional sign, at least one decimal digit and
  nothing else, and the value in the range of \<open>int\<close>; \<open>None\<close> is an error.
\<close>

definition atoi :: "string \<Rightarrow> int option" where
  "atoi s =
     (let neg = (s \<noteq> [] \<and> hd s = CHR ''-'');
          body = (if s \<noteq> [] \<and> (hd s = CHR ''-'' \<or> hd s = CHR ''+'') then tl s else s);
          v = (if neg then - digits_val 0 body else digits_val 0 body)
      in if body = [] \<or> \<not> list_all is_digit body then None
         else if min_int64 \<le> v \<and> v \<le> max_int64 then Some v else None)"

text \<open>\<open>strconv.Itoa\<close> and the verb \<open>%d\<close>.\<close>

fun nat_digits :: "nat \<Rightarrow> string" where
  "nat_digits n =
     (if n < 10 then [char_of (48 + n)] else nat_digits (n div 10) @ [char_of (48 + n mod 10)])"

declare nat_digits.simps [simp del]

definition itoa :: "int \<Rightarrow> string" where
  "itoa i = (if i < 0 then CHR ''-'' # nat_digits (nat (- i)) else nat_digits (nat i))"

lemma digit_char: "n < 10 \<Longrightarrow> is_digit (char_of (48 + n)) \<and> digit_val (char_of (48 + n)) = int n"
  by (simp add: is_digit_def digit_val_def less_eq_char_def take_bit_eq_mod)

lemma digits_val_append: "digits_val acc (xs @ ys) = digits_val (digits_val acc xs) ys"
  by (induction xs arbitrary: acc) auto

lemma nat_digits_props:
  "list_all is_digit (nat_digits n) \<and> nat_digits n \<noteq> [] \<and> digits_val 0 (nat_digits n) = int n"
proof (induction n rule: nat_digits.induct)
  case (1 n)
  show ?case
  proof (cases "n < 10")
    case True
    then show ?thesis
      using digit_char[OF True] by (subst (1 2 3) nat_digits.simps) simp
  next
    case False
    have d: "n mod 10 < 10" by simp
    have e: "nat_digits n = nat_digits (n div 10) @ [char_of (48 + n mod 10)]"
      using False by (subst nat_digits.simps) simp
    have "10 * int (n div 10) + int (n mod 10) = int n"
      by (metis mult_div_mod_eq of_nat_add of_nat_mult of_nat_numeral)
    then show ?thesis
      using "1.IH"[OF False] digit_char[OF d] by (simp add: e digits_val_append)
  qed
qed

lemma digit_not_sign: "is_digit c \<Longrightarrow> c \<noteq> CHR ''-'' \<and> c \<noteq> CHR ''+''"
  by (auto simp: is_digit_def less_eq_char_def)

lemma atoi_itoa:
  assumes "min_int64 \<le> i" "i \<le> max_int64"
  shows "atoi (itoa i) = Some i"
proof (cases "i < 0")
  case True
  then show ?thesis
    using nat_digits_props[of "nat (- i)"] assms by (auto simp: atoi_def itoa_def Let_def)
next
  case False
  have h: "hd (nat_digits (nat i)) \<noteq> CHR ''-'' \<and> hd (nat_digits (nat i)) \<noteq> CHR ''+''"
    using nat_digits_props[of "nat i"] digit_not_sign
    by (metis hd_in_set list_all_iff)
  then show ?thesis
    using nat_digits_props[of "nat i"] assms False by (auto simp: atoi_def itoa_def Let_def)
qed

subsection \<open>Trimming and case\<close>

text \<open>
  The length in bytes of the white-space rune a string starts with, 0 if none: the ASCII
  white space and the UTF-8 encodings of the other runes \<open>unicode.IsSpace\<close> accepts.
\<close>

definition ascii_space :: "char \<Rightarrow> bool" where
  "ascii_space c \<longleftrightarrow> c \<in> {CHR 0x09, CHR 0x0A, CHR 0x0B, CHR 0x0C, CHR 0x0D, CHR 0x20}"

definition wide_spaces :: "string list" where
  "wide_spaces =
     [[CHR 0xC2, CHR 0x85], [CHR 0xC2, CHR 0xA0], [CHR 0xE1, CHR 0x9A, CHR 0x80],
      [CHR 0xE2, CHR 0x80, CHR 0x80], [CHR 0xE2, CHR 0x80, CHR 0x81], [CHR 0xE2, CHR 0x80, CHR 0x82],
      [CHR 0xE2, CHR 0x80, CHR 0x83], [CHR 0xE2, CHR 0x80, CHR 0x84], [CHR 0xE2, CHR 0x80, CHR 0x85],
      [CHR 0xE2, CHR 0x80, CHR 0x86], [CHR 0xE2, CHR 0x80, CHR 0x87], [CHR 0xE2, CHR 0x80, CHR 0x88],
      [CHR 0xE2, CHR 0x80, CHR 0x89], [CHR 0xE2, CHR 0x80, CHR 0x8A], [CHR 0xE2, CHR 0x80, CHR 0xA8],
      [CHR 0xE2, CHR 0x80, CHR 0xA9], [CHR 0xE2, CHR 0x80, CHR 0xAF], [CHR 0xE2, CHR 0x81, CHR 0x9F],
      [CHR 0xE3, CHR 0x80, CHR 0x80]]"

definition space_width :: "string list \<Rightarrow> string \<Rightarrow> nat" where
  "space_width wide s =
     (if s \<noteq> [] \<and> ascii_space (hd s) then 1
      else case find (has_prefix s) wide of None \<Rightarrow> 0 | Some w \<Rightarrow> length w)"

lemma space_width_pos: "0 < space_width wide s \<Longrightarrow> [] \<notin> set wide \<Longrightarrow> s \<noteq> []"
  by (auto simp: space_width_def find_Some_iff has_prefix_def split: if_splits option.splits)

function trim_left :: "string list \<Rightarrow> string \<Rightarrow> string" where
  "trim_left wide s =
     (let n = space_width wide s in if n = 0 \<or> s = [] then s else trim_left wide (drop n s))"
  by pat_completeness auto
termination by (relation "measure (\<lambda>(wide, s). length s)") auto

declare trim_left.simps [simp del]

text \<open>
  \<open>strings.TrimSpace\<close>. The right end is trimmed on the reversed bytes, so it looks for
  the reversed encodings.
\<close>

definition trim_space :: "string \<Rightarrow> string" where
  "trim_space s = rev (trim_left (map rev wide_spaces) (rev (trim_left wide_spaces s)))"

text \<open>\<open>strings.Fields\<close>; the first argument is the field read so far, reversed.\<close>

function fields_from :: "string \<Rightarrow> string \<Rightarrow> string list" where
  "fields_from w [] = (if w = [] then [] else [rev w])"
| "fields_from w (c # s) =
     (let n = space_width wide_spaces (c # s) in
      if n = 0 then fields_from (c # w) s
      else (if w = [] then [] else [rev w]) @ fields_from [] (drop n (c # s)))"
  by pat_completeness auto
termination by (relation "measure (length o snd)") (auto simp: Let_def)

definition Fields :: "string \<Rightarrow> string list" where
  "Fields s = fields_from [] s"

definition ascii_lower :: "char \<Rightarrow> char" where
  "ascii_lower c = (if CHR ''A'' \<le> c \<and> c \<le> CHR ''Z'' then char_of (of_char c + 32 :: nat) else c)"

text \<open>
  \<open>strings.ToLower\<close>, where its result is compared with ASCII text: ASCII letters, and the
  two runes outside ASCII whose lower case is an ASCII letter (U+0130 and U+212A). Every
  other rune outside ASCII has a lower case outside ASCII and keeps its bytes here.
\<close>

fun to_lower :: "string \<Rightarrow> string" where
  "to_lower (a # b # c # s) =
     (if a = CHR 0xC4 \<and> b = CHR 0xB0 then CHR ''i'' # to_lower (c # s)
      else if a = CHR 0xE2 \<and> b = CHR 0x84 \<and> c = CHR 0xAA then CHR ''k'' # to_lower s
      else ascii_lower a # to_lower (b # c # s))"
| "to_lower [a, b] =
     (if a = CHR 0xC4 \<and> b = CHR 0xB0 then [CHR ''i''] else [ascii_lower a, ascii_lower b])"
| "to_lower [a] = [ascii_lower a]"
| "to_lower [] = []"

subsection \<open>Go maps and slices\<close>

text \<open>\<open>sortedKeys\<close> (declared in the packages \<open>policy\<close> and \<open>consumer\<close>).\<close>

definition sortedKeys :: "(string \<times> 'v) list \<Rightarrow> string list" where
  "sortedKeys m = sort (remdups (map fst m))"

lemma set_sortedKeys [simp]: "set (sortedKeys m) = fst ` set m"
  by (simp add: sortedKeys_def)

lemma sorted_sortedKeys: "sorted (sortedKeys m)"
  by (simp add: sortedKeys_def)

lemma distinct_sortedKeys: "distinct (sortedKeys m)"
  by (simp add: sortedKeys_def)

lemma map_of_sortedKeys: "k \<in> set (sortedKeys m) \<Longrightarrow> \<exists>v. map_of m k = Some v"
  by (metis map_of_eq_None_iff not_None_eq set_sortedKeys)

text \<open>
  The index of the first element with a property, as \<open>slices.IndexFunc\<close> and the loops
  that return at the first match compute it.
\<close>

fun first_index :: "('a \<Rightarrow> bool) \<Rightarrow> 'a list \<Rightarrow> nat option" where
  "first_index P [] = None"
| "first_index P (x # xs) = (if P x then Some 0 else map_option Suc (first_index P xs))"

lemma first_index_None: "first_index P xs = None \<longleftrightarrow> (\<forall>x\<in>set xs. \<not> P x)"
  by (induction xs) auto

lemma first_index_Some_iff:
  "first_index P xs = Some i \<longleftrightarrow> i < length xs \<and> P (xs ! i) \<and> (\<forall>j<i. \<not> P (xs ! j))"
proof (induction xs arbitrary: i)
  case (Cons x xs)
  show ?case
    by (cases i) (auto simp: Cons.IH less_Suc_eq_0_disj)
qed simp

lemma set_enumerate_iff: "(i, x) \<in> set (enumerate 0 xs) \<longleftrightarrow> i < length xs \<and> xs ! i = x"
  by (auto simp: in_set_enumerate_eq)

lemma set_map_filter: "set (List.map_filter f xs) = {y. \<exists>x\<in>set xs. f x = Some y}"
  by (force simp: List.map_filter_def)

text \<open>A loop over a slice with its index that appends at most one element per turn.\<close>

lemma set_map_filter_enumerate:
  "set (List.map_filter (\<lambda>(i, x). f i x) (enumerate 0 xs)) = {y. \<exists>i<length xs. f i (xs ! i) = Some y}"
proof (intro set_eqI iffI)
  fix y assume "y \<in> set (List.map_filter (\<lambda>(i, x). f i x) (enumerate 0 xs))"
  then show "y \<in> {y. \<exists>i<length xs. f i (xs ! i) = Some y}"
    by (auto simp: set_map_filter set_enumerate_iff)
next
  fix y assume "y \<in> {y. \<exists>i<length xs. f i (xs ! i) = Some y}"
  then obtain i where i: "i < length xs" "f i (xs ! i) = Some y" by auto
  then have "(i, xs ! i) \<in> set (enumerate 0 xs)" by (simp add: set_enumerate_iff)
  then show "y \<in> set (List.map_filter (\<lambda>(i, x). f i x) (enumerate 0 xs))"
    using i(2) by (auto simp: set_map_filter intro!: bexI[of _ "(i, xs ! i)"])
qed

lemma ball_take: "i \<le> length xs \<Longrightarrow> (\<forall>x\<in>set (take i xs). P x) \<longleftrightarrow> (\<forall>j<i. P (xs ! j))"
  by (auto simp: nth_image[symmetric])

text \<open>Two slices of one length compared element by element.\<close>

lemma same_elements:
  "(if length a \<noteq> length b then False else list_all (\<lambda>i. a ! i = b ! i) [0..<length a]) \<longleftrightarrow> a = b"
  unfolding list_all_iff set_upt by (metis atLeastLessThan_iff list_eq_iff_nth_eq zero_le)

text \<open>Checks run in order: the first failing one is the result.\<close>

fun first_error :: "('a \<Rightarrow> 'e option) \<Rightarrow> 'a list \<Rightarrow> 'e option" where
  "first_error f [] = None"
| "first_error f (x # xs) = (case f x of None \<Rightarrow> first_error f xs | Some e \<Rightarrow> Some e)"

lemma concat_enumerate_Nil:
  "concat (map (\<lambda>(i, x). f i x) (enumerate 0 xs)) = [] \<longleftrightarrow> (\<forall>i<length xs. f i (xs ! i) = [])"
proof -
  have "concat (map (\<lambda>(i, x). f i x) (enumerate 0 xs)) = []
      \<longleftrightarrow> (\<forall>z\<in>set (enumerate 0 xs). f (fst z) (snd z) = [])"
    by (simp add: split_beta)
  also have "\<dots> \<longleftrightarrow> (\<forall>i<length xs. f i (xs ! i) = [])"
    by (metis prod.collapse set_enumerate_iff fst_conv snd_conv)
  finally show ?thesis .
qed

lemma first_error_None: "first_error f xs = None \<longleftrightarrow> (\<forall>x\<in>set xs. f x = None)"
  by (induction xs) (auto split: option.splits)

lemma first_error_Some: "first_error f xs = Some e \<Longrightarrow> \<exists>x\<in>set xs. f x = Some e"
  by (induction xs) (auto split: option.splits)

lemma orelse_None: "(case x of None \<Rightarrow> y | Some e \<Rightarrow> Some e) = None \<longleftrightarrow> x = None \<and> y = None"
  by (cases x) auto

lemma ball_enumerate: "(\<forall>x\<in>set (enumerate n xs). P (snd x)) \<longleftrightarrow> (\<forall>r\<in>set xs. P r)"
  by (metis (no_types, lifting) image_iff list.set_map map_snd_enumerate)

end
