(* ===== verification/Wildcard.thy ===== *)
theory Wildcard
  imports Prelude
begin

text \<open>
  The pattern matcher of \<open>internal/policy/policy.go\<close>: \<open>wildcardMatch\<close>, its loop with the
  two cursors and the remembered star, and \<open>anyWildcard\<close>. The reference semantics of a
  pattern is \<open>glob\<close>, where \<open>*\<close> stands for any run of characters and \<open>?\<close> for any single
  character; the two are related in both directions. The locale \<open>glob_matcher\<close> states what
  the rule matching and the coverage analysis rely on.
\<close>

subsection \<open>The code\<close>

text \<open>
  One turn of the first loop per call, over the source's variables. \<open>star\<close> is \<open>None\<close> where
  the source has \<open>-1\<close>. \<open>None\<close> is the \<open>return false\<close> inside the loop; \<open>Some px\<close> is the
  pattern cursor when the loop ends.
\<close>

function wm_loop :: "string \<Rightarrow> string \<Rightarrow> nat \<Rightarrow> nat \<Rightarrow> nat option \<Rightarrow> nat \<Rightarrow> nat option" where
  "wm_loop pattern s px sx star mark =
     (if sx < length s then
        if px < length pattern \<and> (pattern ! px = CHR ''?'' \<or> pattern ! px = s ! sx)
        then wm_loop pattern s (px + 1) (sx + 1) star mark
        else if px < length pattern \<and> pattern ! px = CHR ''*''
        then wm_loop pattern s (px + 1) sx (Some px) sx
        else (case star of
                Some st \<Rightarrow> wm_loop pattern s (st + 1) (mark + 1) star (mark + 1)
              | None \<Rightarrow> None)
      else Some px)"
  by pat_completeness auto
termination
  by (relation "measures [\<lambda>(p, s, px, sx, star, mark). if mark \<le> sx then 0 else 1,
                          \<lambda>(p, s, px, sx, star, mark). length s - mark,
                          \<lambda>(p, s, px, sx, star, mark). length p - px]") auto

declare wm_loop.simps [simp del]

text \<open>The second loop: the pattern cursor skips the remaining stars.\<close>

function skip_stars :: "string \<Rightarrow> nat \<Rightarrow> nat" where
  "skip_stars pattern px =
     (if px < length pattern \<and> pattern ! px = CHR ''*'' then skip_stars pattern (px + 1) else px)"
  by pat_completeness auto
termination by (relation "measure (\<lambda>(p, px). length p - px)") auto

declare skip_stars.simps [simp del]

definition wildcardMatch :: "string \<Rightarrow> string \<Rightarrow> bool" where
  "wildcardMatch pattern s =
     (case wm_loop pattern s 0 0 None 0 of
        None \<Rightarrow> False
      | Some px \<Rightarrow> skip_stars pattern px = length pattern)"

fun anyWildcard :: "string list \<Rightarrow> string \<Rightarrow> bool" where
  "anyWildcard [] s = False"
| "anyWildcard (p # ps) s = (wildcardMatch p s \<or> anyWildcard ps s)"

lemma anyWildcard_iff: "anyWildcard ps s \<longleftrightarrow> (\<exists>p\<in>set ps. wildcardMatch p s)"
  by (induction ps) auto

subsection \<open>The reference semantics\<close>

fun glob :: "string \<Rightarrow> string \<Rightarrow> bool" where
  "glob [] s = (s = [])"
| "glob (c # p) s =
     (if c = CHR ''*'' then \<exists>k\<le>length s. glob p (drop k s)
      else case s of [] \<Rightarrow> False | d # t \<Rightarrow> (c = CHR ''?'' \<or> c = d) \<and> glob p t)"

lemma glob_star: "glob (CHR ''*'' # p) s \<longleftrightarrow> (\<exists>a b. s = a @ b \<and> glob p b)"
proof
  assume "glob (CHR ''*'' # p) s"
  then show "\<exists>a b. s = a @ b \<and> glob p b" by (metis append_take_drop_id glob.simps(2))
next
  assume "\<exists>a b. s = a @ b \<and> glob p b"
  then obtain a b where "s = a @ b" "glob p b" by blast
  then show "glob (CHR ''*'' # p) s" by (auto intro!: exI[of _ "length a"])
qed

lemma glob_lit:
  "c \<noteq> CHR ''*'' \<Longrightarrow>
   glob (c # p) s \<longleftrightarrow> (\<exists>d t. s = d # t \<and> (c = CHR ''?'' \<or> c = d) \<and> glob p t)"
  by (cases s) auto

lemma glob_star_append: "glob (CHR ''*'' # p) s \<Longrightarrow> glob (CHR ''*'' # p) (a @ s)"
  unfolding glob_star by (metis append.assoc)

lemma glob_starI: "glob p s \<Longrightarrow> glob (CHR ''*'' # p) s"
  unfolding glob_star by (metis append_Nil)

lemma glob_Nil_right: "glob p [] \<longleftrightarrow> set p \<subseteq> {CHR ''*''}"
  by (induction p) auto

lemma glob_refl: "glob p p"
proof (induction p)
  case (Cons c p)
  then show ?case by (cases "c = CHR ''*''") (auto intro!: exI[of _ 1])
qed simp

lemma glob_append: "glob (p @ q) s \<longleftrightarrow> (\<exists>a b. s = a @ b \<and> glob p a \<and> glob q b)"
proof (induction p arbitrary: s)
  case (Cons c p)
  show ?case
  proof (cases "c = CHR ''*''")
    case True
    have "glob ((c # p) @ q) s \<longleftrightarrow> (\<exists>x a b. s = x @ a @ b \<and> glob p a \<and> glob q b)"
      unfolding True append_Cons glob_star Cons.IH by blast
    also have "\<dots> \<longleftrightarrow> (\<exists>a b. s = a @ b \<and> glob (c # p) a \<and> glob q b)"
      unfolding True glob_star by (metis append.assoc)
    finally show ?thesis .
  next
    case False
    have "glob ((c # p) @ q) s \<longleftrightarrow>
        (\<exists>d a b. s = d # a @ b \<and> (c = CHR ''?'' \<or> c = d) \<and> glob p a \<and> glob q b)"
      unfolding append_Cons glob_lit[OF False] Cons.IH by blast
    also have "\<dots> \<longleftrightarrow> (\<exists>a b. s = a @ b \<and> glob (c # p) a \<and> glob q b)"
      unfolding glob_lit[OF False] by (metis append_Cons)
    finally show ?thesis .
  qed
qed simp

text \<open>
  A pattern read as text: if \<open>p\<close>, with no \<open>?\<close>, accepts the text of the pattern \<open>q\<close>,
  then \<open>p\<close> accepts everything \<open>q\<close> accepts.
\<close>

lemma glob_trans:
  "glob p q \<Longrightarrow> CHR ''?'' \<notin> set p \<Longrightarrow> glob q s \<Longrightarrow> glob p s"
proof (induction p arbitrary: q s)
  case (Cons c p)
  show ?case
  proof (cases "c = CHR ''*''")
    case True
    then obtain a b where q: "q = a @ b" and p: "glob p b"
      using Cons.prems(1) by (auto simp only: glob_star)
    from Cons.prems(3) q obtain x y where s: "s = x @ y" and "glob b y"
      by (auto simp: glob_append)
    with Cons.IH[OF p] Cons.prems(2) have "glob p y" by simp
    then show ?thesis using True s by (auto simp only: glob_star)
  next
    case False
    with Cons.prems(1,2) obtain t where q: "q = c # t" and t: "glob p t"
      by (auto split: list.splits)
    with Cons.prems(2,3) False obtain u where "s = c # u" "glob t u"
      by (auto split: list.splits)
    with Cons.IH[OF t] Cons.prems(2) False show ?thesis by simp
  qed
qed simp

subsection \<open>The matcher accepts only what the pattern means\<close>

lemma skip_stars_full: "skip_stars p px = length p \<Longrightarrow> glob (drop px p) []"
proof (induction p px rule: skip_stars.induct)
  case (1 p px)
  show ?case
  proof (cases "px < length p \<and> p ! px = CHR ''*''")
    case True
    with 1 show ?thesis
      by (subst Cons_nth_drop_Suc[symmetric]) (auto simp: skip_stars.simps[of p px])
  next
    case False
    with 1(2) show ?thesis by (auto simp: skip_stars.simps[of p px] split: if_splits)
  qed
qed

lemma skip_stars_all:
  "px \<le> length p \<Longrightarrow> glob (drop px p) [] \<Longrightarrow> skip_stars p px = length p"
proof (induction p px rule: skip_stars.induct)
  case (1 p px)
  show ?case
  proof (cases "px < length p")
    case True
    then have d: "drop px p = p ! px # drop (px + 1) p" by (simp add: Cons_nth_drop_Suc)
    with 1(3) have "p ! px = CHR ''*''" "glob (drop (px + 1) p) []"
      by (auto simp: glob_Nil_right)
    with 1(1) True show ?thesis by (simp add: skip_stars.simps[of p px])
  next
    case False
    with 1(2) show ?thesis by (auto simp: skip_stars.simps[of p px] skip_stars.simps[of p "length p"])
  qed
qed

text \<open>What the loop can still match from a state: the two suffixes, or an earlier star.\<close>

definition wm_goal :: "string \<Rightarrow> string \<Rightarrow> nat \<Rightarrow> nat \<Rightarrow> nat option \<Rightarrow> nat \<Rightarrow> bool" where
  "wm_goal p s px sx star mark \<longleftrightarrow>
     glob (drop px p) (drop sx s) \<or>
     (\<exists>st. star = Some st \<and> (\<exists>j>mark. j \<le> length s \<and> glob (drop (st + 1) p) (drop j s)))"

lemma drop_step: "n < length xs \<Longrightarrow> drop n xs = xs ! n # drop (n + 1) xs"
  by (simp add: Cons_nth_drop_Suc)

lemma wm_loop_sound:
  "wm_loop p s px sx star mark = Some e \<Longrightarrow> skip_stars p e = length p \<Longrightarrow>
   sx \<le> length s \<Longrightarrow> mark \<le> sx \<Longrightarrow> wm_goal p s px sx star mark"
proof (induction p s px sx star mark rule: wm_loop.induct)
  case (1 p s px sx star mark)
  note eq = wm_loop.simps[of p s px sx star mark]
  show ?case
  proof (cases "sx < length s")
    case False
    with 1 eq show ?thesis by (auto simp: wm_goal_def dest: skip_stars_full)
  next
    case sx: True
    let ?lit = "px < length p \<and> (p ! px = CHR ''?'' \<or> p ! px = s ! sx)"
    show ?thesis
    proof (cases ?lit)
      case True
      with 1 eq sx have g: "wm_goal p s (px + 1) (sx + 1) star mark" by auto
      from True sx have d: "drop px p = p ! px # drop (px + 1) p"
        "drop sx s = s ! sx # drop (sx + 1) s" by (auto simp: Cons_nth_drop_Suc)
      have "glob (drop px p) (drop sx s)" if "glob (drop (px + 1) p) (drop (sx + 1) s)"
      proof (cases "p ! px = CHR ''*''")
        case star: True
        have "glob (CHR ''*'' # drop (px + 1) p) ([s ! sx] @ drop (sx + 1) s)"
          by (intro glob_star_append glob_starI that)
        then show ?thesis by (simp only: d star append_Cons append_Nil)
      next
        case False
        with True that show ?thesis by (auto simp: d)
      qed
      with g show ?thesis by (auto simp: wm_goal_def)
    next
      case nolit: False
      show ?thesis
      proof (cases "px < length p \<and> p ! px = CHR ''*''")
        case True
        with 1 eq sx nolit have g: "wm_goal p s (px + 1) sx (Some px) sx" by auto
        then obtain j where "j \<ge> sx" "j \<le> length s" "glob (drop (px + 1) p) (drop j s)"
          unfolding wm_goal_def by (metis "1.prems"(3) le_refl less_imp_le option.inject)
        then have "glob (CHR ''*'' # drop (px + 1) p) (drop sx s)"
          unfolding glob_star by (metis append_take_drop_id drop_drop le_add_diff_inverse2)
        with True show ?thesis by (simp add: wm_goal_def drop_step)
      next
        case False
        with 1(4) eq sx nolit obtain st where st: "star = Some st"
          by (auto split: option.splits)
        with 1 eq sx nolit False
        have "wm_goal p s (st + 1) (mark + 1) star (mark + 1)" by auto
        then have "\<exists>j>mark. j \<le> length s \<and> glob (drop (st + 1) p) (drop j s)"
          using st sx "1.prems"(4) unfolding wm_goal_def
          by (metis Suc_eq_plus1 Suc_leI le_less_trans lessI less_trans option.inject)
        with st show ?thesis by (auto simp: wm_goal_def)
      qed
    qed
  qed
qed

lemma wildcardMatch_sound: "wildcardMatch p s \<Longrightarrow> glob p s"
  unfolding wildcardMatch_def
  using wm_loop_sound[of p s 0 0 None 0] by (auto simp: wm_goal_def split: option.splits)

subsection \<open>The matcher finds every match of a string without a star\<close>

lemma glob_no_star_length: "glob p a \<Longrightarrow> CHR ''*'' \<notin> set p \<Longrightarrow> length a = length p"
  by (induction p arbitrary: a) (auto split: list.splits)

text \<open>
  What the loop knows about its remembered star: since then the cursors moved together,
  over pattern characters that are not stars.
\<close>

definition wm_inv :: "string \<Rightarrow> string \<Rightarrow> nat \<Rightarrow> nat \<Rightarrow> nat option \<Rightarrow> nat \<Rightarrow> bool" where
  "wm_inv p s px sx star mark \<longleftrightarrow>
     px \<le> length p \<and> sx \<le> length s \<and> mark \<le> sx \<and>
     (\<forall>st. star = Some st \<longrightarrow>
        st < px \<and> px - (st + 1) = sx - mark \<and> (\<forall>i. st < i \<and> i < px \<longrightarrow> p ! i \<noteq> CHR ''*''))"

text \<open>An alternative left by an earlier star lets the rest of the pattern match further right.\<close>

lemma earlier_star:
  assumes inv: "wm_inv p s px sx (Some st) mark"
    and j: "mark < j" "j \<le> length s" and g: "glob (drop (st + 1) p) (drop j s)"
  shows "\<exists>k. sx < k \<and> k \<le> length s \<and> glob (drop px p) (drop k s)"
proof -
  let ?n = "px - (st + 1)"
  let ?seg = "take ?n (drop (st + 1) p)"
  have n: "?n = sx - mark" "st < px" "px \<le> length p" "mark \<le> sx"
    and ns: "\<And>i. st < i \<Longrightarrow> i < px \<Longrightarrow> p ! i \<noteq> CHR ''*''"
    using inv by (auto simp: wm_inv_def)
  have len: "length ?seg = ?n" using n by simp
  have "CHR ''*'' \<notin> set ?seg"
  proof
    assume "CHR ''*'' \<in> set ?seg"
    then obtain i where "i < ?n" "?seg ! i = CHR ''*''" using len by (auto simp: in_set_conv_nth)
    then have "p ! (st + 1 + i) = CHR ''*''" using n by simp
    with ns[of "st + 1 + i"] \<open>i < ?n\<close> show False by simp
  qed
  moreover have "drop (st + 1) p = ?seg @ drop px p"
    using n(2) by (metis Suc_eq_plus1 Suc_leI append_take_drop_id drop_drop le_add_diff_inverse2)
  ultimately obtain a b where ab: "drop j s = a @ b" "glob (drop px p) b" "length a = ?n"
    using g len by (metis glob_append glob_no_star_length)
  then have "b = drop (?n + j) s" by (metis append_eq_conv_conj drop_drop add.commute)
  moreover have "?n + j \<le> length s" using ab j by (metis length_append length_drop le_add1 le_diff_conv2)
  moreover have "sx < ?n + j" using n j by simp
  ultimately show ?thesis using ab by blast
qed

lemma wm_loop_complete:
  "CHR ''*'' \<notin> set s \<Longrightarrow> wm_inv p s px sx star mark \<Longrightarrow> wm_goal p s px sx star mark \<Longrightarrow>
   \<exists>e. wm_loop p s px sx star mark = Some e \<and> skip_stars p e = length p"
proof (induction p s px sx star mark rule: wm_loop.induct)
  case (1 p s px sx star mark)
  note eq = wm_loop.simps[of p s px sx star mark]
  note inv = "1.prems"(2) and goal = "1.prems"(3)
  show ?case
  proof (cases "sx < length s")
    case False
    then have end_s: "sx = length s" using inv by (simp add: wm_inv_def)
    have "glob (drop px p) []"
      using goal earlier_star inv end_s unfolding wm_goal_def by fastforce
    then show ?thesis using eq False inv skip_stars_all by (auto simp: wm_inv_def)
  next
    case sx: True
    then have ds: "drop sx s = s ! sx # drop (sx + 1) s" by (rule drop_step)
    have nostar: "s ! sx \<noteq> CHR ''*''" using "1.prems"(1) sx by (metis nth_mem)
    let ?lit = "px < length p \<and> (p ! px = CHR ''?'' \<or> p ! px = s ! sx)"
    show ?thesis
    proof (cases ?lit)
      case True
      then have dp: "drop px p = p ! px # drop (px + 1) p" by (simp add: drop_step)
      have inv': "wm_inv p s (px + 1) (sx + 1) star mark"
        using True sx inv nostar by (auto simp: wm_inv_def less_Suc_eq)
      have "wm_goal p s (px + 1) (sx + 1) star mark"
        using goal True nostar unfolding wm_goal_def dp ds by (auto split: if_splits)
      with "1.IH"(1)[OF sx True "1.prems"(1) inv'] show ?thesis using eq sx True by simp
    next
      case nolit: False
      show ?thesis
      proof (cases "px < length p \<and> p ! px = CHR ''*''")
        case True
        then have dp: "drop px p = CHR ''*'' # drop (px + 1) p" by (simp add: drop_step)
        have inv': "wm_inv p s (px + 1) sx (Some px) sx"
          using True sx inv by (auto simp: wm_inv_def)
        have "\<exists>k\<ge>sx. k \<le> length s \<and> glob (drop px p) (drop k s)"
          using goal earlier_star inv sx unfolding wm_goal_def
          by (metis less_imp_le order_refl)
        then have "glob (CHR ''*'' # drop (px + 1) p) (drop sx s)"
          unfolding dp using glob_star_append
          by (metis append_take_drop_id drop_drop le_add_diff_inverse2)
        then obtain k where k: "k \<le> length s - sx" "glob (drop (px + 1) p) (drop k (drop sx s))"
          by auto
        have "wm_goal p s (px + 1) sx (Some px) sx"
        proof (cases k)
          case 0
          then show ?thesis using k by (simp add: wm_goal_def)
        next
          case (Suc m)
          then show ?thesis using k sx unfolding wm_goal_def
            by (auto simp: add.commute intro!: exI[of _ "sx + k"])
        qed
        with "1.IH"(2)[OF sx nolit True "1.prems"(1) inv'] show ?thesis
          using eq sx nolit True by simp
      next
        case nopat: False
        have "\<not> glob (drop px p) (drop sx s)"
          using nolit nopat by (cases "px < length p") (auto simp: ds drop_step)
        then obtain st j where st: "star = Some st" and
          j: "mark < j" "j \<le> length s" "glob (drop (st + 1) p) (drop j s)"
          using goal unfolding wm_goal_def by blast
        have inv': "wm_inv p s (st + 1) (mark + 1) star (mark + 1)"
          using st inv sx by (auto simp: wm_inv_def)
        have "wm_goal p s (st + 1) (mark + 1) star (mark + 1)"
        proof (cases "j = mark + 1")
          case True
          then show ?thesis using j st by (simp add: wm_goal_def)
        next
          case False
          then show ?thesis using j st unfolding wm_goal_def
            by (metis Suc_eq_plus1 Suc_lessI)
        qed
        with "1.IH"(3)[OF sx nolit nopat st "1.prems"(1)] inv' st show ?thesis
          using eq sx nolit nopat by simp
      qed
    qed
  qed
qed

lemma wildcardMatch_complete:
  assumes "glob p s" "CHR ''*'' \<notin> set s"
  shows "wildcardMatch p s"
proof -
  have "wm_inv p s 0 0 None 0" and "wm_goal p s 0 0 None 0"
    using assms by (auto simp: wm_inv_def wm_goal_def)
  from wm_loop_complete[OF assms(2) this] show ?thesis by (auto simp: wildcardMatch_def)
qed

text \<open>Two equal strings are walked in step, whatever characters they hold.\<close>

lemma wm_loop_self: "i \<le> length p \<Longrightarrow> wm_loop p p i i None 0 = Some (length p)"
proof (induction "length p - i" arbitrary: i)
  case 0
  then show ?case by (simp add: wm_loop.simps[of p p i])
next
  case (Suc n)
  then show ?case by (simp add: wm_loop.simps[of p p i])
qed

lemma wildcardMatch_refl: "wildcardMatch p p"
  using wm_loop_self[of 0 p] by (simp add: wildcardMatch_def skip_stars.simps[of p "length p"])

subsection \<open>The interface the policy analysis uses\<close>

text \<open>
  What a client of the matcher may rely on. \<open>complete\<close> is limited to strings without a
  star: this is a real limit of the code, see \<open>wildcard_star_gap\<close> below.
\<close>

locale glob_matcher =
  fixes accepts :: "string \<Rightarrow> string \<Rightarrow> bool"
  assumes sound: "accepts p s \<Longrightarrow> glob p s"
    and complete: "glob p s \<Longrightarrow> CHR ''*'' \<notin> set s \<Longrightarrow> accepts p s"
    and refl: "accepts p p"
begin

text \<open>
  A pattern without \<open>?\<close> that accepts the text of another pattern accepts everything the
  other one does: the step the coverage analysis of a policy takes.
\<close>

lemma text_covers:
  assumes "accepts p q" "CHR ''?'' \<notin> set p" "accepts q s" "CHR ''*'' \<notin> set s"
  shows "accepts p s"
  using assms glob_trans sound complete by blast

lemma star_accepts: "CHR ''*'' \<notin> set s \<Longrightarrow> accepts ''*'' s"
  by (rule complete) (simp_all add: exI[of _ "length s"])

lemma literal_accepts:
  assumes "CHR ''*'' \<notin> set p" "CHR ''?'' \<notin> set p" "CHR ''*'' \<notin> set s"
  shows "accepts p s \<longleftrightarrow> s = p"
proof
  have eq: "glob q t \<Longrightarrow> CHR ''*'' \<notin> set q \<Longrightarrow> CHR ''?'' \<notin> set q \<Longrightarrow> t = q" for q t
    by (induction q arbitrary: t) (auto split: list.splits)
  assume "accepts p s"
  then show "s = p" using eq sound assms by blast
qed (simp add: refl)

end

interpretation wm: glob_matcher wildcardMatch
  by unfold_locales (auto intro: wildcardMatch_sound wildcardMatch_complete wildcardMatch_refl)

subsection \<open>Properties\<close>

text \<open>
  (C18) \<open>wildcardMatch\<close> accepts only what its pattern means (\<open>*\<close> any run of characters,
  \<open>?\<close> any single one), and on a string without a literal star it accepts exactly that: the
  two-cursor loop with one remembered star never backtracks too little.
\<close>

theorem wildcardMatch_equiv_glob:
  "(wildcardMatch pattern s \<longrightarrow> glob pattern s) \<and>
   (CHR ''*'' \<notin> set s \<longrightarrow> wildcardMatch pattern s = glob pattern s)"
  using wm.sound wm.complete by blast

theorem wildcardMatch_equiv_glob_witness:
  "wildcardMatch ''bao:app/*#t?ken'' ''bao:app/gitea#token''"
proof -
  have "glob ''bao:app/*#t?ken'' ''bao:app/gitea#token''"
    by (simp add: glob_append exI[of _ "5::nat"])
  then show ?thesis
    using wildcardMatch_equiv_glob[of "''bao:app/*#t?ken''" "''bao:app/gitea#token''"] by simp
qed

text \<open>
  The literal test comes before the star test, so a star in the string uses up a star of
  the pattern: the pattern \<open>*\<close>, which means any string, refuses every string that begins with
  a star and goes on.
\<close>

theorem wildcard_star_gap: "wildcardMatch ''*'' (CHR ''*'' # x) \<longleftrightarrow> x = []"
  by (cases x)
    (simp_all add: wildcardMatch_def wm_loop.simps[of _ _ 0] wm_loop.simps[of _ _ "Suc 0"]
      skip_stars.simps[of _ "Suc 0"])

end
