(* ===== verification/Policy_Time.thy ===== *)
theory Policy_Time
  imports Prelude
begin

text \<open>
  The time conditions of a rule (\<open>internal/policy/policy.go\<close>): weekday names, month days and
  the \<open>HH:MM-HH:MM\<close> window, which may wrap past midnight. An evaluation instant is a record
  of what the code reads off \<open>time.Time\<close>: the local weekday, day of the month, hour and
  minute, and the instant's RFC 3339 text for the audit log.
\<close>

record gotime =
  t_Weekday :: nat
  t_Day :: int
  t_Hour :: int
  t_Minute :: int
  t_RFC3339 :: string

text \<open>The values \<open>time.Time\<close> can report.\<close>

definition time_ok :: "gotime \<Rightarrow> bool" where
  "time_ok t \<longleftrightarrow> t_Weekday t < 7 \<and> 1 \<le> t_Day t \<and> t_Day t \<le> 31 \<and>
     0 \<le> t_Hour t \<and> t_Hour t \<le> 23 \<and> 0 \<le> t_Minute t \<and> t_Minute t \<le> 59"

subsection \<open>Weekdays and month days\<close>

text \<open>\<open>weekdayNum\<close>: \<open>None\<close> for \<open>false\<close>; Sunday is 0.\<close>

definition weekdayNum :: "string \<Rightarrow> nat option" where
  "weekdayNum name =
     (let n = to_lower (trim_space name) in
      if n \<in> {''sun'', ''sunday''} then Some 0
      else if n \<in> {''mon'', ''monday''} then Some 1
      else if n \<in> {''tue'', ''tues'', ''tuesday''} then Some 2
      else if n \<in> {''wed'', ''weds'', ''wednesday''} then Some 3
      else if n \<in> {''thu'', ''thur'', ''thurs'', ''thursday''} then Some 4
      else if n \<in> {''fri'', ''friday''} then Some 5
      else if n \<in> {''sat'', ''saturday''} then Some 6
      else None)"

fun weekdayMatches :: "string list \<Rightarrow> gotime \<Rightarrow> bool" where
  "weekdayMatches [] t = False"
| "weekdayMatches (n # ns) t = (weekdayNum n = Some (t_Weekday t) \<or> weekdayMatches ns t)"

fun intIn :: "int list \<Rightarrow> int \<Rightarrow> bool" where
  "intIn [] v = False"
| "intIn (x # xs) v = (x = v \<or> intIn xs v)"

lemma weekdayMatches_iff: "weekdayMatches ns t \<longleftrightarrow> (\<exists>n\<in>set ns. weekdayNum n = Some (t_Weekday t))"
  by (induction ns) auto

lemma intIn_iff [simp]: "intIn xs v \<longleftrightarrow> v \<in> set xs"
  by (induction xs) auto

lemma weekdayNum_less: "weekdayNum n = Some w \<Longrightarrow> w < 7"
  by (auto simp: weekdayNum_def Let_def split: if_splits)

subsection \<open>Hour windows\<close>

datatype hours_error = WantWindow | WantHM string | BadHour string | BadMinute string

definition parseHM :: "string \<Rightarrow> hours_error + int" where
  "parseHM s =
     (case cut (trim_space s) CHR '':'' of
        None \<Rightarrow> Inl (WantHM s)
      | Some (h, m) \<Rightarrow>
          (case atoi h of
             None \<Rightarrow> Inl (BadHour s)
           | Some hh \<Rightarrow>
               if hh < 0 \<or> hh > 23 then Inl (BadHour s)
               else (case atoi m of
                       None \<Rightarrow> Inl (BadMinute s)
                     | Some mm \<Rightarrow>
                         if mm < 0 \<or> mm > 59 then Inl (BadMinute s) else Inr (hh * 60 + mm))))"

definition parseHours :: "string \<Rightarrow> hours_error + int \<times> int" where
  "parseHours spec =
     (case cut spec CHR ''-'' of
        None \<Rightarrow> Inl WantWindow
      | Some (lo, hi) \<Rightarrow>
          (case parseHM lo of
             Inl e \<Rightarrow> Inl e
           | Inr start \<Rightarrow>
               (case parseHM hi of Inl e \<Rightarrow> Inl e | Inr end' \<Rightarrow> Inr (start, end'))))"

definition hoursMatch :: "string \<Rightarrow> gotime \<Rightarrow> bool" where
  "hoursMatch spec t =
     (case parseHours spec of
        Inl _ \<Rightarrow> False
      | Inr (start, end') \<Rightarrow>
          let now = t_Hour t * 60 + t_Minute t in
          if start \<le> end' then now \<ge> start \<and> now \<le> end' else now \<ge> start \<or> now \<le> end')"

lemma parseHM_bounds: "parseHM s = Inr v \<Longrightarrow> 0 \<le> v \<and> v \<le> 1439"
  by (auto simp: parseHM_def split: option.splits if_splits prod.splits)

lemma parseHours_bounds:
  "parseHours s = Inr (a, b) \<Longrightarrow> 0 \<le> a \<and> a \<le> 1439 \<and> 0 \<le> b \<and> b \<le> 1439"
  by (auto simp: parseHours_def split: option.splits sum.splits prod.splits dest!: parseHM_bounds)

text \<open>\<open>t.Format("15:04")\<close>: two digits each.\<close>

definition pad2 :: "int \<Rightarrow> string" where
  "pad2 n = [char_of (48 + nat n div 10), char_of (48 + nat n mod 10)]"

definition format_hm :: "int \<Rightarrow> int \<Rightarrow> string" where
  "format_hm h m = pad2 h @ CHR '':'' # pad2 m"

lemma pad2_chars:
  assumes "0 \<le> n" "n < 100" "c \<in> set (pad2 n)"
  shows "is_digit c"
proof -
  have "nat n div 10 < 10" "nat n mod 10 < 10" using assms by auto
  then show ?thesis using assms digit_char by (auto simp: pad2_def)
qed

lemma atoi_pad2:
  assumes "0 \<le> n" "n < 100"
  shows "atoi (pad2 n) = Some n"
proof -
  have d: "nat n div 10 < 10" "nat n mod 10 < 10" using assms by auto
  have "int (nat n div 10) * 10 + int (nat n mod 10) = n"
    using assms by (simp add: zdiv_int zmod_int)
  then show ?thesis
    using digit_char[OF d(1)] digit_char[OF d(2)] assms digit_not_sign
    by (auto simp: atoi_def pad2_def Let_def min_int64_def max_int64_def algebra_simps)
qed

lemma not_space_digit: "is_digit c \<Longrightarrow> \<not> ascii_space c"
  by (auto simp: is_digit_def ascii_space_def less_eq_char_def)

lemma trim_left_digit:
  assumes "is_digit c" "\<forall>w\<in>set wide. w \<noteq> [] \<and> \<not> is_digit (hd w)"
  shows "trim_left wide (c # s) = c # s"
proof -
  have "find (has_prefix (c # s)) wide = None"
    using assms by (auto simp: find_None_iff has_prefix_def) (metis list.sel(1) take_Cons' length_0_conv)
  then show ?thesis
    using assms by (simp add: trim_left.simps space_width_def not_space_digit)
qed

lemma wide_not_digit:
  "\<forall>w\<in>set wide_spaces. w \<noteq> [] \<and> \<not> is_digit (hd w)"
  "\<forall>w\<in>set (map rev wide_spaces). w \<noteq> [] \<and> \<not> is_digit (hd w)"
  by (auto simp: wide_spaces_def is_digit_def less_eq_char_def)

lemma trim_space_digits:
  assumes "s \<noteq> []" "is_digit (hd s)" "is_digit (last s)"
  shows "trim_space s = s"
proof -
  from assms(1,2) obtain c t where s: "s = c # t" "is_digit c" by (cases s) auto
  have l: "trim_left wide_spaces s = s"
    unfolding s(1) by (rule trim_left_digit[OF s(2) wide_not_digit(1)])
  from assms(1,3) obtain d u where r: "rev s = d # u" "is_digit d"
    by (metis hd_rev list.collapse rev_is_Nil_conv)
  have "trim_left (map rev wide_spaces) (rev s) = rev s"
    unfolding r(1) by (rule trim_left_digit[OF r(2) wide_not_digit(2)])
  with l show ?thesis by (simp add: trim_space_def)
qed

lemma parseHM_format:
  assumes "0 \<le> h" "h \<le> 23" "0 \<le> m" "m \<le> 59"
  shows "parseHM (format_hm h m) = Inr (h * 60 + m)"
proof -
  have "is_digit (hd (format_hm h m))" "is_digit (last (format_hm h m))"
    using pad2_chars[of h] pad2_chars[of m] assms by (auto simp: format_hm_def pad2_def)
  then have t: "trim_space (format_hm h m) = format_hm h m"
    by (intro trim_space_digits) (simp_all add: format_hm_def)
  have "CHR '':'' \<notin> set (pad2 h)"
    using pad2_chars[of h "CHR '':''"] assms by (auto simp: is_digit_def less_eq_char_def)
  then have "cut (format_hm h m) CHR '':'' = Some (pad2 h, pad2 m)"
    by (simp add: cut_Some_iff format_hm_def)
  then show ?thesis
    using assms atoi_pad2[of h] atoi_pad2[of m] by (simp add: parseHM_def t)
qed

lemma parseHours_format:
  assumes "0 \<le> h1" "h1 \<le> 23" "0 \<le> m1" "m1 \<le> 59" "0 \<le> h2" "h2 \<le> 23" "0 \<le> m2" "m2 \<le> 59"
  shows "parseHours (format_hm h1 m1 @ CHR ''-'' # format_hm h2 m2) =
    Inr (h1 * 60 + m1, h2 * 60 + m2)"
proof -
  have "CHR ''-'' \<notin> set (format_hm h1 m1)"
    using pad2_chars[of h1 "CHR ''-''"] pad2_chars[of m1 "CHR ''-''"] assms
    by (auto simp: format_hm_def is_digit_def less_eq_char_def)
  then have "cut (format_hm h1 m1 @ CHR ''-'' # format_hm h2 m2) CHR ''-'' =
      Some (format_hm h1 m1, format_hm h2 m2)"
    by (simp add: cut_Some_iff)
  then show ?thesis using assms by (simp add: parseHours_def parseHM_format)
qed

subsection \<open>Properties\<close>

lemma cyclic_window:
  fixes now a b :: int
  assumes "0 \<le> now" "now < 1440" "0 \<le> a" "a < 1440" "0 \<le> b" "b < 1440"
  shows "(now - a) mod 1440 \<le> (b - a) mod 1440 \<longleftrightarrow>
    (if a \<le> b then a \<le> now \<and> now \<le> b else a \<le> now \<or> now \<le> b)"
proof -
  have m: "x mod 1440 = (if 0 \<le> x then x else x + 1440)" if "- 1440 < x" "x < 1440" for x :: int
  proof (cases "0 \<le> x")
    case False
    have "x mod 1440 = (x + 1440) mod 1440" by simp
    also have "\<dots> = x + 1440" using that False by (intro mod_pos_pos_trivial) auto
    finally show ?thesis using False by simp
  qed (use that in simp)
  show ?thesis using assms by (simp add: m)
qed

text \<open>
  (C40) An hours window printed as \<open>HH:MM-HH:MM\<close> is read back exactly, and it holds at an
  instant just when the clock, run forward from the window's start, meets the instant no later
  than the window's end; windows that wrap past midnight included.
\<close>

theorem hoursMatch_window:
  assumes "0 \<le> h1" "h1 \<le> 23" "0 \<le> m1" "m1 \<le> 59" "0 \<le> h2" "h2 \<le> 23" "0 \<le> m2" "m2 \<le> 59"
    and "time_ok t"
  shows "hoursMatch (format_hm h1 m1 @ CHR ''-'' # format_hm h2 m2) t \<longleftrightarrow>
    (t_Hour t * 60 + t_Minute t - (h1 * 60 + m1)) mod 1440
      \<le> (h2 * 60 + m2 - (h1 * 60 + m1)) mod 1440"
  using assms
  by (simp add: hoursMatch_def parseHours_format time_ok_def cyclic_window Let_def)

definition example_night :: gotime where
  "example_night = \<lparr>t_Weekday = 2, t_Day = 14, t_Hour = 1, t_Minute = 30, t_RFC3339 = ''2026-09-15T01:30:00Z''\<rparr>"

theorem hoursMatch_window_witness: "hoursMatch ''22:00-06:00'' example_night"
proof -
  have ok: "time_ok example_night" by (simp add: time_ok_def example_night_def)
  have "format_hm 22 0 @ CHR ''-'' # format_hm 6 0 = ''22:00-06:00''"
    by code_simp
  then show ?thesis
    using hoursMatch_window[of 22 0 6 0, OF _ _ _ _ _ _ _ _ ok] by (simp add: example_night_def)
qed

end
