(* ===== verification/First_Match.thy ===== *)
theory First_Match
  imports Prelude
begin

text \<open>
  Lists of rules in which the first matching one decides and no match means denial. The
  approval policy of the command line tools and the peer authorization file of the broker
  are both of this kind; the locale \<open>ordered_rules\<close> states the contract once, and
  \<open>indexed_rules\<close> adds the index of the deciding rule, which the policy tools report.
\<close>

lemma first_index_append:
  "first_index P (xs @ ys) =
    (case first_index P xs of Some i \<Rightarrow> Some i | None \<Rightarrow> map_option ((+) (length xs)) (first_index P ys))"
proof (induction xs)
  case Nil
  then show ?case by (cases "first_index P ys") auto
next
  case (Cons x xs)
  show ?case
    by (cases "first_index P xs"; cases "first_index P ys")
      (use Cons.IH in \<open>auto\<close>)
qed

locale ordered_rules =
  fixes matches :: "'r \<Rightarrow> 'q \<Rightarrow> bool"
    and outcome :: "'r \<Rightarrow> 'q \<Rightarrow> bool"
    and allows :: "'r list \<Rightarrow> 'q \<Rightarrow> bool"
  assumes allows_first:
    "allows rs q \<longleftrightarrow>
      (case first_index (\<lambda>r. matches r q) rs of None \<Rightarrow> False | Some i \<Rightarrow> outcome (rs ! i) q)"
begin

lemma allows_iff:
  "allows rs q \<longleftrightarrow>
    (\<exists>i<length rs. matches (rs ! i) q \<and> (\<forall>j<i. \<not> matches (rs ! j) q) \<and> outcome (rs ! i) q)"
proof (cases "first_index (\<lambda>r. matches r q) rs")
  case None
  then have "\<forall>r\<in>set rs. \<not> matches r q" by (simp add: first_index_None)
  with None show ?thesis by (auto simp: allows_first dest: nth_mem)
next
  case (Some i)
  then have i: "i < length rs" "matches (rs ! i) q" "\<forall>j<i. \<not> matches (rs ! j) q"
    by (auto simp: first_index_Some_iff)
  have "i' = i" if "matches (rs ! i') q" "\<forall>j<i'. \<not> matches (rs ! j) q" for i'
    using i that by (metis linorder_neqE_nat)
  then have "(\<exists>i<length rs. matches (rs ! i) q \<and> (\<forall>j<i. \<not> matches (rs ! j) q) \<and> outcome (rs ! i) q)
      \<longleftrightarrow> outcome (rs ! i) q"
    using i by blast
  with Some show ?thesis by (simp add: allows_first)
qed

lemma default_deny: "\<forall>r\<in>set rs. \<not> matches r q \<Longrightarrow> \<not> allows rs q"
  by (auto simp: allows_iff)

lemma no_grant: "\<forall>r\<in>set rs. matches r q \<longrightarrow> \<not> outcome r q \<Longrightarrow> \<not> allows rs q"
  by (auto simp: allows_iff)

lemma allows_grants: "allows rs q \<Longrightarrow> \<exists>r\<in>set rs. matches r q \<and> outcome r q"
  by (auto simp: allows_iff)

lemma allows_append:
  "allows (xs @ ys) q = (if \<exists>r\<in>set xs. matches r q then allows xs q else allows ys q)"
proof (cases "first_index (\<lambda>r. matches r q) xs")
  case None
  then have "\<not> (\<exists>r\<in>set xs. matches r q)" by (simp add: first_index_None)
  with None show ?thesis
    by (simp add: allows_first first_index_append nth_append split: option.splits)
next
  case (Some i)
  then have "i < length xs" "matches (xs ! i) q" by (auto simp: first_index_Some_iff)
  then have "\<exists>r\<in>set xs. matches r q" using nth_mem by blast
  then show ?thesis
    using Some \<open>i < length xs\<close> by (simp add: allows_first first_index_append nth_append)
qed

lemma allows_single: "allows [r] q \<longleftrightarrow> matches r q \<and> outcome r q"
  by (simp add: allows_first)

lemma insert_decides:
  assumes "\<forall>r'\<in>set xs. \<not> matches r' q" "matches r q"
  shows "allows (xs @ r # ys) q = outcome r q"
  using assms allows_append[of "xs" "[r] @ ys"] allows_append[of "[r]" ys] allows_single[of r]
  by simp

lemma insert_irrelevant:
  assumes "\<not> matches r q"
  shows "allows (xs @ r # ys) q = allows (xs @ ys) q"
  using assms allows_append[of xs "[r] @ ys"] allows_append[of "[r]" ys] allows_append[of xs ys]
  by simp

text \<open>A rule below one that matches everything it matches has no effect.\<close>

lemma covered_dead:
  assumes "r' \<in> set xs" "matches r q \<Longrightarrow> matches r' q"
  shows "allows (xs @ r # ys) q = allows (xs @ ys) q"
proof (cases "matches r q")
  case True
  with assms have "\<exists>r\<in>set xs. matches r q" by blast
  then show ?thesis by (simp add: allows_append[of xs])
qed (rule insert_irrelevant)

end

locale indexed_rules = ordered_rules +
  fixes decider :: "'r list \<Rightarrow> 'q \<Rightarrow> nat option"
  assumes decider_first: "decider rs q = first_index (\<lambda>r. matches r q) rs"
begin

lemma decider_SomeD:
  "decider rs q = Some i \<Longrightarrow> i < length rs \<and> matches (rs ! i) q \<and> (\<forall>j<i. \<not> matches (rs ! j) q)"
  by (simp add: decider_first first_index_Some_iff)

lemma decider_outcome: "decider rs q = Some i \<Longrightarrow> allows rs q = outcome (rs ! i) q"
  by (simp add: decider_first allows_first)

lemma decider_None: "decider rs q = None \<Longrightarrow> \<not> allows rs q"
  by (simp add: decider_first allows_first)

lemma never_decides:
  assumes "j < i" "matches (rs ! i) q \<Longrightarrow> matches (rs ! j) q"
  shows "decider rs q \<noteq> Some i"
  using assms decider_SomeD by blast

end

end
