(* ===== verification/Policy.thy ===== *)
theory Policy
  imports Wildcard Policy_Time First_Match
begin

text \<open>
  The approval policy (\<open>internal/policy/policy.go\<close>): requests, rules, the first-match
  evaluation, the validation of a loaded policy, the audit line and \<open>Authorize\<close>. Reading
  and decoding \<open>policy.json\<close> is the argument of \<open>Authorize\<close>; everything decided from the
  decoded policy is here.
\<close>

subsection \<open>Data\<close>

definition ModeGet :: string where "ModeGet = ''get''"
definition ModeExec :: string where "ModeExec = ''exec''"
definition ModeMount :: string where "ModeMount = ''mount''"

definition knownMode :: "string \<Rightarrow> bool" where
  "knownMode m \<longleftrightarrow> m = ModeGet \<or> m = ModeExec \<or> m = ModeMount"

record request =
  q_Ref :: string
  q_Identity :: string
  q_Mode :: string
  q_Time :: gotime
  q_Caller :: string
  q_Agent :: string

record rule =
  r_Allow :: bool
  r_Description :: string
  r_Secrets :: "string list"
  r_Identities :: "string list"
  r_Modes :: "string list"
  r_Weekdays :: "string list"
  r_Monthdays :: "int list"
  r_Hours :: string
  r_DenyAgents :: bool

text \<open>What a matching rule decides, for a request with or without a detected agent.\<close>

definition rule_outcome :: "rule \<Rightarrow> bool \<Rightarrow> bool" where
  "rule_outcome rule agent \<longleftrightarrow> r_Allow rule \<and> \<not> (agent \<and> r_DenyAgents rule)"

definition SchemaVersion :: int where "SchemaVersion = 1"

record policy =
  p_Schema :: int
  p_Rules :: "rule list"

record decision =
  d_Allow :: bool
  d_Reason :: string
  d_AgentDenied :: bool

record denied_error =
  e_Req :: request
  e_Reason :: string
  e_AgentDenied :: bool

subsection \<open>Evaluation\<close>

definition rule_matches :: "rule \<Rightarrow> request \<Rightarrow> bool" where
  "rule_matches rule r =
     (if r_Secrets rule \<noteq> [] \<and> \<not> anyWildcard (r_Secrets rule) (q_Ref r) then False
      else if r_Identities rule \<noteq> [] \<and> \<not> anyWildcard (r_Identities rule) (q_Identity r) then False
      else if r_Modes rule \<noteq> [] \<and> \<not> anyWildcard (r_Modes rule) (q_Mode r) then False
      else if r_Weekdays rule \<noteq> [] \<and> \<not> weekdayMatches (r_Weekdays rule) (q_Time r) then False
      else if r_Monthdays rule \<noteq> [] \<and> \<not> intIn (r_Monthdays rule) (t_Day (q_Time r)) then False
      else if r_Hours rule \<noteq> [] \<and> \<not> hoursMatch (r_Hours rule) (q_Time r) then False
      else True)"

text \<open>The loop of \<open>Evaluate\<close>; \<open>i\<close> is the index of the first rule of the list.\<close>

fun evaluate_from :: "nat \<Rightarrow> rule list \<Rightarrow> request \<Rightarrow> decision" where
  "evaluate_from i [] r =
     \<lparr>d_Allow = False, d_Reason = ''no matching rule (default deny)'', d_AgentDenied = False\<rparr>"
| "evaluate_from i (rule # rules) r =
     (if \<not> rule_matches rule r then evaluate_from (Suc i) rules r
      else if r_Allow rule \<and> \<not> rule_outcome rule (q_Agent r \<noteq> [])
      then \<lparr>d_Allow = False,
            d_Reason = ''rule '' @ itoa (int i) @ '' denies agent contexts (deny_agents; detected $''
              @ q_Agent r @ '')'',
            d_AgentDenied = True\<rparr>
      else \<lparr>d_Allow = r_Allow rule, d_Reason = ''rule '' @ itoa (int i), d_AgentDenied = False\<rparr>)"

definition Evaluate :: "policy \<Rightarrow> request \<Rightarrow> decision" where
  "Evaluate p r = evaluate_from 0 (p_Rules p) r"

text \<open>
  \<open>decide\<close> and \<open>Explain\<close> of \<open>delta.go\<close>: the same loop with the rule's index as a number,
  \<open>-1\<close> for the default deny. A nil policy allows nothing.
\<close>

fun decide_from :: "nat \<Rightarrow> rule list \<Rightarrow> request \<Rightarrow> bool \<times> int" where
  "decide_from i [] r = (False, -1)"
| "decide_from i (candidate # rules) r =
     (if rule_matches candidate r then (rule_outcome candidate (q_Agent r \<noteq> []), int i)
      else decide_from (Suc i) rules r)"

definition decide :: "policy option \<Rightarrow> request \<Rightarrow> bool \<times> int" where
  "decide po r = (case po of None \<Rightarrow> (False, -1) | Some p \<Rightarrow> decide_from 0 (p_Rules p) r)"

definition Explain :: "policy \<Rightarrow> request \<Rightarrow> bool \<times> int" where
  "Explain p r = decide (Some p) r"

lemma rule_matches_iff:
  "rule_matches rule r \<longleftrightarrow>
     (r_Secrets rule = [] \<or> anyWildcard (r_Secrets rule) (q_Ref r)) \<and>
     (r_Identities rule = [] \<or> anyWildcard (r_Identities rule) (q_Identity r)) \<and>
     (r_Modes rule = [] \<or> anyWildcard (r_Modes rule) (q_Mode r)) \<and>
     (r_Weekdays rule = [] \<or> weekdayMatches (r_Weekdays rule) (q_Time r)) \<and>
     (r_Monthdays rule = [] \<or> t_Day (q_Time r) \<in> set (r_Monthdays rule)) \<and>
     (r_Hours rule = [] \<or> hoursMatch (r_Hours rule) (q_Time r))"
  by (simp add: rule_matches_def)

lemma rule_matches_agent [simp]: "rule_matches rule (r\<lparr>q_Agent := a\<rparr>) = rule_matches rule r"
  by (simp add: rule_matches_def)

lemma rule_matches_caller [simp]: "rule_matches rule (r\<lparr>q_Caller := c\<rparr>) = rule_matches rule r"
  by (simp add: rule_matches_def)

lemma rule_outcome_mono: "rule_outcome rule a \<Longrightarrow> rule_outcome rule False"
  by (simp add: rule_outcome_def)

subsection \<open>The policy is a first-match rule list\<close>

definition rule_decision :: "rule \<Rightarrow> request \<Rightarrow> bool" where
  "rule_decision rule r = rule_outcome rule (q_Agent r \<noteq> [])"

definition policy_allows :: "rule list \<Rightarrow> request \<Rightarrow> bool" where
  "policy_allows rules r = d_Allow (Evaluate \<lparr>p_Schema = SchemaVersion, p_Rules = rules\<rparr> r)"

definition policy_decider :: "rule list \<Rightarrow> request \<Rightarrow> nat option" where
  "policy_decider rules r =
     (let i = snd (decide (Some \<lparr>p_Schema = SchemaVersion, p_Rules = rules\<rparr>) r)
      in if i < 0 then None else Some (nat i))"

lemma evaluate_from_first:
  "d_Allow (evaluate_from n rules r) =
    (case first_index (\<lambda>rule. rule_matches rule r) rules of
       None \<Rightarrow> False | Some i \<Rightarrow> rule_decision (rules ! i) r)"
  by (induction rules arbitrary: n)
    (auto simp: rule_decision_def rule_outcome_def split: option.splits)

lemma decide_from_first:
  "decide_from n rules r =
    (case first_index (\<lambda>rule. rule_matches rule r) rules of
       None \<Rightarrow> (False, -1) | Some i \<Rightarrow> (rule_decision (rules ! i) r, int (n + i)))"
  by (induction rules arbitrary: n) (auto simp: rule_decision_def split: option.splits)

interpretation pol: indexed_rules rule_matches rule_decision policy_allows policy_decider
proof unfold_locales
  show "policy_allows rs q \<longleftrightarrow>
    (case first_index (\<lambda>r. rule_matches r q) rs of None \<Rightarrow> False | Some i \<Rightarrow> rule_decision (rs ! i) q)"
    for rs q
    by (simp add: policy_allows_def Evaluate_def evaluate_from_first)
  show "policy_decider rs q = first_index (\<lambda>r. rule_matches r q) rs" for rs q
    by (auto simp: policy_decider_def decide_def decide_from_first split: option.splits)
qed

lemma Evaluate_allows: "d_Allow (Evaluate p r) = policy_allows (p_Rules p) r"
  by (simp add: policy_allows_def Evaluate_def)

lemma decide_allows: "fst (decide (Some p) r) = policy_allows (p_Rules p) r"
  by (simp add: decide_def decide_from_first pol.allows_first split: option.splits)

lemma decide_rule:
  "snd (decide (Some p) r) = (case policy_decider (p_Rules p) r of None \<Rightarrow> -1 | Some i \<Rightarrow> int i)"
  by (simp add: decide_def decide_from_first pol.decider_first split: option.splits)

subsection \<open>Validation of a decoded policy\<close>

datatype policy_error =
    SchemaTooNew int
  | SchemaNegative int
  | RuleBadHours nat string hours_error
  | RuleUnknownWeekday nat string
  | RuleBadMonthday nat int
  | RuleUnknownMode nat string

definition validate_weekday :: "nat \<Rightarrow> string \<Rightarrow> policy_error option" where
  "validate_weekday i wd = (if weekdayNum wd = None then Some (RuleUnknownWeekday i wd) else None)"

definition validate_monthday :: "nat \<Rightarrow> int \<Rightarrow> policy_error option" where
  "validate_monthday i md = (if md < 1 \<or> md > 31 then Some (RuleBadMonthday i md) else None)"

text \<open>The body of the loop over the rules, with its checks in order.\<close>

definition validate_rule :: "nat \<times> rule \<Rightarrow> policy_error option" where
  "validate_rule = (\<lambda>(i, r).
     case (if r_Hours r \<noteq> [] then
             (case parseHours (r_Hours r) of Inl e \<Rightarrow> Some (RuleBadHours i (r_Hours r) e) | Inr _ \<Rightarrow> None)
           else None) of
       Some e \<Rightarrow> Some e
     | None \<Rightarrow>
         (case first_error (validate_weekday i) (r_Weekdays r) of
            Some e \<Rightarrow> Some e
          | None \<Rightarrow>
              (case first_error (validate_monthday i) (r_Monthdays r) of
                 Some e \<Rightarrow> Some e
               | None \<Rightarrow>
                   (case first_index (\<lambda>m. \<not> knownMode m) (r_Modes r) of
                      Some bad \<Rightarrow> Some (RuleUnknownMode i (r_Modes r ! bad))
                    | None \<Rightarrow> None))))"

definition validate :: "policy \<Rightarrow> policy_error option" where
  "validate p =
     (if p_Schema p > SchemaVersion then Some (SchemaTooNew (p_Schema p))
      else if p_Schema p < 0 then Some (SchemaNegative (p_Schema p))
      else first_error validate_rule (enumerate 0 (p_Rules p)))"

text \<open>What a rule that passed validation satisfies.\<close>

definition rule_ok :: "rule \<Rightarrow> bool" where
  "rule_ok r \<longleftrightarrow>
     (r_Hours r \<noteq> [] \<longrightarrow> (\<exists>w. parseHours (r_Hours r) = Inr w)) \<and>
     (\<forall>wd\<in>set (r_Weekdays r). weekdayNum wd \<noteq> None) \<and>
     (\<forall>md\<in>set (r_Monthdays r). 1 \<le> md \<and> md \<le> 31) \<and>
     (\<forall>m\<in>set (r_Modes r). knownMode m)"

lemma validate_rule_None: "validate_rule (i, r) = None \<longleftrightarrow> rule_ok r"
proof -
  have m: "(case first_index (\<lambda>m. \<not> knownMode m) ms of None \<Rightarrow> None | Some b \<Rightarrow> Some (g b)) = None
      \<longleftrightarrow> (\<forall>m\<in>set ms. knownMode m)" for ms and g :: "nat \<Rightarrow> policy_error"
    using first_index_None[of "\<lambda>m. \<not> knownMode m" ms] by (auto split: option.splits)
  show ?thesis
    unfolding validate_rule_def split_conv orelse_None m
    by (auto simp: rule_ok_def first_error_None validate_weekday_def validate_monthday_def
        split: if_splits sum.splits)
qed

lemma validate_None:
  "validate p = None \<longleftrightarrow> 0 \<le> p_Schema p \<and> p_Schema p \<le> SchemaVersion \<and> (\<forall>r\<in>set (p_Rules p). rule_ok r)"
proof -
  have "(\<forall>x\<in>set (enumerate 0 (p_Rules p)). validate_rule x = None) \<longleftrightarrow> (\<forall>r\<in>set (p_Rules p). rule_ok r)"
    using ball_enumerate[of 0 "p_Rules p" rule_ok] validate_rule_None by (metis prod.collapse)
  then show ?thesis by (auto simp: validate_def first_error_None SchemaVersion_def)
qed

text \<open>A known mode holds no wildcard, so as a pattern it accepts itself only.\<close>

lemma glob_literal: "glob q t \<Longrightarrow> CHR ''*'' \<notin> set q \<Longrightarrow> CHR ''?'' \<notin> set q \<Longrightarrow> t = q"
  by (induction q arbitrary: t) (auto split: list.splits)

lemma knownMode_literal: "knownMode m \<Longrightarrow> CHR ''*'' \<notin> set m \<and> CHR ''?'' \<notin> set m"
  by (auto simp: knownMode_def ModeGet_def ModeExec_def ModeMount_def)

lemma knownMode_match: "knownMode m \<Longrightarrow> wildcardMatch m x \<longleftrightarrow> x = m"
  using knownMode_literal glob_literal wm.sound wm.refl by blast

lemma known_modes_match: "\<forall>m\<in>set ms. knownMode m \<Longrightarrow> anyWildcard ms x \<longleftrightarrow> x \<in> set ms"
  by (auto simp: anyWildcard_iff knownMode_match)

subsection \<open>The audit log and \<open>Authorize\<close>\<close>

definition tab :: string where "tab = [CHR 0x09]"
definition audit_line :: "request \<Rightarrow> string \<Rightarrow> string \<Rightarrow> string" where
  "audit_line r dec reason =
     (let id = (if q_Identity r = [] then ''-'' else q_Identity r);
          mode = (if q_Mode r = [] then ''-'' else q_Mode r)
      in t_RFC3339 (q_Time r) @ tab @ dec @ tab @ ''identity='' @ id @ tab @ ''mode='' @ mode @ tab @
         ''ref='' @ q_Ref r @ tab @ ''reason='' @ reason @
         (if q_Caller r \<noteq> [] then tab @ ''caller='' @ q_Caller r else []) @
         (if q_Agent r \<noteq> [] then tab @ ''agent='' @ q_Agent r else []))"

text \<open>
  \<open>writeAudit\<close> appends one line. The log is \<open>None\<close> when its directory cannot be made or the
  file cannot be opened: the write is then skipped without an error.
\<close>

definition writeAudit :: "string option \<Rightarrow> request \<Rightarrow> string \<Rightarrow> string \<Rightarrow> string option" where
  "writeAudit log r dec reason = map_option (\<lambda>l. l @ audit_line r dec reason @ newline) log"

datatype auth_error = PolicyLoadError string | Denied denied_error

text \<open>
  \<open>Authorize\<close>. \<open>load\<close> is what \<open>Load\<close> returned: the text of its error, or the policy with
  \<open>None\<close> for a missing file. The result is the log afterwards and the error, if any.
\<close>

definition Authorize ::
  "string + policy option \<Rightarrow> string option \<Rightarrow> request \<Rightarrow> string option \<times> auth_error option" where
  "Authorize load log r =
     (case load of
        Inl err \<Rightarrow> (writeAudit log r ''ERROR'' err, Some (PolicyLoadError err))
      | Inr po \<Rightarrow>
          let d = (case po of
                     None \<Rightarrow> \<lparr>d_Allow = False, d_Reason = ''no policy file (strict deny-by-default)'',
                              d_AgentDenied = False\<rparr>
                   | Some p \<Rightarrow> Evaluate p r)
          in if d_Allow d then (writeAudit log r ''ALLOW'' (d_Reason d), None)
             else (writeAudit log r ''DENY'' (d_Reason d),
                   Some (Denied \<lparr>e_Req = r, e_Reason = d_Reason d, e_AgentDenied = d_AgentDenied d\<rparr>)))"

lemma Authorize_ok_iff:
  "snd (Authorize load log r) = None \<longleftrightarrow> (\<exists>p. load = Inr (Some p) \<and> policy_allows (p_Rules p) r)"
  by (auto simp: Authorize_def Let_def Evaluate_allows split: sum.splits option.splits)

text \<open>The decision word of the one line a call appends.\<close>

definition audit_word :: "auth_error option \<Rightarrow> string" where
  "audit_word e = (case e of None \<Rightarrow> ''ALLOW'' | Some (Denied _) \<Rightarrow> ''DENY'' | Some (PolicyLoadError _) \<Rightarrow> ''ERROR'')"

subsection \<open>Example inputs\<close>

definition example_day :: gotime where
  "example_day = \<lparr>t_Weekday = 3, t_Day = 16, t_Hour = 10, t_Minute = 15, t_RFC3339 = ''2026-09-16T10:15:00Z''\<rparr>"

definition allow_rule :: "string list \<Rightarrow> string list \<Rightarrow> string list \<Rightarrow> rule" where
  "allow_rule secrets identities modes =
     \<lparr>r_Allow = True, r_Description = [], r_Secrets = secrets, r_Identities = identities, r_Modes = modes,
      r_Weekdays = [], r_Monthdays = [], r_Hours = [], r_DenyAgents = False\<rparr>"

definition plain_request :: "string \<Rightarrow> string \<Rightarrow> string \<Rightarrow> request" where
  "plain_request ref identity mode =
     \<lparr>q_Ref = ref, q_Identity = identity, q_Mode = mode, q_Time = example_day, q_Caller = [], q_Agent = []\<rparr>"

subsection \<open>Properties\<close>

text \<open>
  (C4) Deny by default, first match decides: a request is allowed exactly when some rule
  matches it, no earlier rule does, that rule allows, and it does not deny a detected agent.
\<close>

theorem Evaluate_first_match:
  "d_Allow (Evaluate p r) \<longleftrightarrow>
     (\<exists>i<length (p_Rules p).
        rule_matches (p_Rules p ! i) r \<and> (\<forall>j<i. \<not> rule_matches (p_Rules p ! j) r) \<and>
        r_Allow (p_Rules p ! i) \<and> \<not> (q_Agent r \<noteq> [] \<and> r_DenyAgents (p_Rules p ! i)))"
  by (simp add: Evaluate_allows pol.allows_iff rule_decision_def rule_outcome_def)

theorem Evaluate_first_match_witness:
  "\<not> d_Allow (Evaluate \<lparr>p_Schema = 1, p_Rules = [(allow_rule [''bao:a*''] [] [])\<lparr>r_Allow := False\<rparr>,
      allow_rule [] [] []]\<rparr> (plain_request ''bao:a/b#c'' ''ci'' ''get''))"
proof -
  let ?deny = "(allow_rule [''bao:a*''] [] [])\<lparr>r_Allow := False\<rparr>"
  let ?r = "plain_request ''bao:a/b#c'' ''ci'' ''get''"
  have m: "rule_matches ?deny ?r" by code_simp
  show ?thesis
    using m by (subst Evaluate_first_match) (auto simp: less_Suc_eq nth_Cons' allow_rule_def)
qed

text \<open>
  A rule that sets \<open>deny_agents\<close> ends the evaluation of an agent's request it is the
  first to match: the request is denied whatever rules follow, the decision says so, and the
  same request without a detected agent gets the rule's own outcome.
\<close>

theorem deny_agents_is_final:
  assumes "p_Rules p = before @ rule # after" "\<forall>r'\<in>set before. \<not> rule_matches r' r"
    and "rule_matches rule r" "r_DenyAgents rule" "q_Agent r \<noteq> []"
  shows "\<not> d_Allow (Evaluate p r) \<and> d_AgentDenied (Evaluate p r) = r_Allow rule \<and>
    d_Allow (Evaluate p (r\<lparr>q_Agent := []\<rparr>)) = r_Allow rule"
proof -
  have "evaluate_from n (before @ rule # after) r = evaluate_from (n + length before) (rule # after) r"
    if "\<forall>r'\<in>set before. \<not> rule_matches r' r" for n r and before :: "rule list"
    using that by (induction before arbitrary: n) auto
  from this[OF assms(2)] this[of before "r\<lparr>q_Agent := []\<rparr>"] show ?thesis
    using assms by (simp add: Evaluate_def rule_outcome_def)
qed

text \<open>A rule that keeps agents away from one secret, above a broad grant.\<close>

definition guarded_policy :: "string list \<Rightarrow> policy" where
  "guarded_policy ids =
     \<lparr>p_Schema = 1,
      p_Rules = [(allow_rule [''bao:app/db#pw''] ids [])\<lparr>r_DenyAgents := True\<rparr>, allow_rule [] [] []]\<rparr>"

definition agent_request :: "string \<Rightarrow> request" where
  "agent_request identity = (plain_request ''bao:app/db#pw'' identity ''exec'')\<lparr>q_Agent := ''CLAUDECODE''\<rparr>"

theorem deny_agents_is_final_witness:
  "\<not> d_Allow (Evaluate (guarded_policy [''*'']) (agent_request ''ci''))"
proof -
  let ?rule = "(allow_rule [''bao:app/db#pw''] [''*''] [])\<lparr>r_DenyAgents := True\<rparr>"
  have m: "rule_matches ?rule (agent_request ''ci'')" by code_simp
  show ?thesis
    using deny_agents_is_final[of "guarded_policy [''*'']" "[]" ?rule "[allow_rule [] [] []]", OF _ _ m]
    by (simp add: guarded_policy_def agent_request_def)
qed

text \<open>
  The star gap of the matcher defeats such a rule: with \<open>identities\<close> set to \<open>["*"]\<close>,
  which is documented to mean every identity, an agent whose label begins with a star and goes
  on is not matched by it and gets the broad grant below. With no \<open>identities\<close> condition the
  same rule denies every label.
\<close>

theorem star_label_bypasses_deny_agents:
  "d_Allow (Evaluate (guarded_policy [''*'']) (agent_request ''*x'')) \<and>
   \<not> d_Allow (Evaluate (guarded_policy [''*'']) (agent_request ''x'')) \<and>
   \<not> d_Allow (Evaluate (guarded_policy []) (agent_request label))"
proof -
  have "rule_matches ((allow_rule [''bao:app/db#pw''] [] [])\<lparr>r_DenyAgents := True\<rparr>) (agent_request label)"
    by (simp add: rule_matches_def allow_rule_def agent_request_def plain_request_def wm.refl)
  then have "\<not> d_Allow (Evaluate (guarded_policy []) (agent_request label))"
    by (simp add: Evaluate_def guarded_policy_def rule_outcome_def agent_request_def)
  moreover have "d_Allow (Evaluate (guarded_policy [''*'']) (agent_request ''*x''))" by code_simp
  moreover have "\<not> d_Allow (Evaluate (guarded_policy [''*'']) (agent_request ''x''))" by code_simp
  ultimately show ?thesis by blast
qed

text \<open>
  The two evaluators agree: \<open>decide\<close>, which the delta, what-if and the placement tools
  use, gives the decision of \<open>Evaluate\<close>; and the index it returns is that of the first
  matching rule, \<open>-1\<close> exactly when no rule matches.
\<close>

theorem decide_agrees_with_Evaluate:
  "fst (decide (Some p) r) = d_Allow (Evaluate p r) \<and>
   (snd (decide (Some p) r) = -1 \<longleftrightarrow> (\<forall>rule\<in>set (p_Rules p). \<not> rule_matches rule r)) \<and>
   (\<forall>i. snd (decide (Some p) r) = int i \<longleftrightarrow>
      i < length (p_Rules p) \<and> rule_matches (p_Rules p ! i) r \<and>
      (\<forall>j<i. \<not> rule_matches (p_Rules p ! j) r))"
  by (auto simp: Evaluate_allows decide_allows decide_rule pol.decider_first first_index_None
      first_index_Some_iff split: option.splits elim: linorder_neqE_nat)

theorem decide_agrees_with_Evaluate_witness:
  "snd (decide (Some \<lparr>p_Schema = 1, p_Rules = [allow_rule [''bao:b*''] [] []]\<rparr>)
     (plain_request ''bao:a/b#c'' ''ci'' ''get'')) = -1"
proof -
  have "\<not> rule_matches (allow_rule [''bao:b*''] [] []) (plain_request ''bao:a/b#c'' ''ci'' ''get'')"
    by code_simp
  then show ?thesis
    using decide_agrees_with_Evaluate[of "\<lparr>p_Schema = 1, p_Rules = [allow_rule [''bao:b*''] [] []]\<rparr>"
        "plain_request ''bao:a/b#c'' ''ci'' ''get''"] by simp
qed

text \<open>
  Detecting an agent never opens access: a request allowed with a marker set is allowed
  without it, in every policy, and the two differ only where a matching rule sets
  \<open>deny_agents\<close>.
\<close>

theorem agent_never_gains:
  "(d_Allow (Evaluate p (r\<lparr>q_Agent := marker\<rparr>)) \<longrightarrow> d_Allow (Evaluate p (r\<lparr>q_Agent := []\<rparr>))) \<and>
   (d_Allow (Evaluate p (r\<lparr>q_Agent := marker\<rparr>)) \<noteq> d_Allow (Evaluate p (r\<lparr>q_Agent := []\<rparr>)) \<longrightarrow>
      (\<exists>rule\<in>set (p_Rules p). r_DenyAgents rule \<and> rule_matches rule r))"
  by (auto simp: Evaluate_allows pol.allows_iff rule_decision_def rule_outcome_def)

theorem agent_never_gains_witness:
  "d_Allow (Evaluate (guarded_policy [''x'']) ((agent_request ''ci'')\<lparr>q_Agent := []\<rparr>))"
proof -
  have "d_Allow (Evaluate (guarded_policy [''x'']) ((agent_request ''ci'')\<lparr>q_Agent := ''CLAUDECODE''\<rparr>))"
    by code_simp
  then show ?thesis using agent_never_gains by blast
qed

text \<open>
  A policy that passes validation has only well-formed conditions, and its \<open>modes\<close> lists
  are exact allowlists: a rule with modes matches no request whose mode it does not name.
\<close>

theorem validated_policy:
  assumes "validate p = None" "rule \<in> set (p_Rules p)"
  shows "rule_ok rule \<and>
    (r_Modes rule \<noteq> [] \<and> rule_matches rule r \<longrightarrow> q_Mode r \<in> set (r_Modes rule) \<and> knownMode (q_Mode r))"
  using assms known_modes_match[of "r_Modes rule" "q_Mode r"]
  by (auto simp: validate_None rule_ok_def rule_matches_iff)

theorem validated_policy_witness:
  "\<not> rule_matches (allow_rule [''bao:*''] [] [''exec'', ''mount'']) (plain_request ''bao:a/b#c'' ''ci'' ''get'')"
proof -
  let ?r = "allow_rule [''bao:*''] [] [''exec'', ''mount'']"
  have v: "validate \<lparr>p_Schema = 1, p_Rules = [?r]\<rparr> = None" by code_simp
  show ?thesis
    using validated_policy[OF v, of ?r "plain_request ''bao:a/b#c'' ''ci'' ''get''"]
    by (auto simp: allow_rule_def plain_request_def)
qed

text \<open>
  \<open>Authorize\<close> audits every decision, and the log agrees with what the caller is told:
  one line is appended whatever the outcome, its decision word is the outcome, and it is
  \<open>ALLOW\<close> exactly when a loaded policy allows the request.
\<close>

theorem Authorize_audits:
  "(\<exists>reason. fst (Authorize load (Some log) r) =
      Some (log @ audit_line r (audit_word (snd (Authorize load (Some log) r))) reason @ newline)) \<and>
   (audit_word (snd (Authorize load (Some log) r)) = ''ALLOW'' \<longleftrightarrow>
      (\<exists>p. load = Inr (Some p) \<and> d_Allow (Evaluate p r)))"
  by (auto simp: Authorize_def writeAudit_def audit_word_def Let_def split: sum.splits option.splits)

end
