(* ===== verification/Policy_Check.thy ===== *)
theory Policy_Check
  imports Policy
begin

text \<open>
  The leak-containment check of a policy (\<open>internal/policy/check.go\<close>) and the explanation of
  a rule that nearly matched (\<open>internal/policy/nearmiss.go\<close>).
\<close>

subsection \<open>The check\<close>

record get_open =
  g_Rule :: nat
  g_Secrets :: "string list"
  g_Identities :: "string list"
  g_Conditional :: bool

record weakened =
  w_RestrictedRule :: nat
  w_RestrictedIDs :: "string list"
  w_Secrets :: "string list"
  w_OpenRule :: nat
  w_OpenIDs :: "string list"

record report =
  rep_GetOpen :: "get_open list"
  rep_Weakened :: "weakened list"

definition report_OK :: "report \<Rightarrow> bool" where
  "report_OK r \<longleftrightarrow> rep_Weakened r = []"

definition permitsGet :: "rule \<Rightarrow> bool" where
  "permitsGet r \<longleftrightarrow> (if r_Modes r = [] then True else anyWildcard (r_Modes r) ModeGet)"

definition secretsOverlap :: "string list \<Rightarrow> string list \<Rightarrow> bool" where
  "secretsOverlap a b \<longleftrightarrow>
     (if a = [] \<or> b = [] then True
      else list_ex (\<lambda>x. list_ex (\<lambda>y. wildcardMatch x y \<or> wildcardMatch y x) b) a)"

definition identitiesSubsumed :: "string list \<Rightarrow> string list \<Rightarrow> bool" where
  "identitiesSubsumed open' restricted \<longleftrightarrow>
     (if open' = [] then False
      else if restricted = [] then False
      else list_all (anyWildcard restricted) open')"

text \<open>The first loop of \<open>Check\<close>.\<close>

definition get_opens :: "rule list \<Rightarrow> get_open list" where
  "get_opens rules =
     List.map_filter (\<lambda>(i, r).
        if r_Allow r \<and> permitsGet r
        then Some \<lparr>g_Rule = i, g_Secrets = r_Secrets r, g_Identities = r_Identities r,
                   g_Conditional = (r_Weekdays r \<noteq> [] \<or> r_Monthdays r \<noteq> [] \<or> r_Hours r \<noteq> [])\<rparr>
        else None) (enumerate 0 rules)"

text \<open>The inner and the outer loop of the second part.\<close>

definition weakened_by :: "nat \<Rightarrow> rule \<Rightarrow> get_open list \<Rightarrow> weakened list" where
  "weakened_by i restricted opens =
     List.map_filter (\<lambda>open'.
        if g_Rule open' = i \<or> \<not> secretsOverlap (r_Secrets restricted) (g_Secrets open') then None
        else if identitiesSubsumed (g_Identities open') (r_Identities restricted) then None
        else Some \<lparr>w_RestrictedRule = i, w_RestrictedIDs = r_Identities restricted,
                   w_Secrets = r_Secrets restricted, w_OpenRule = g_Rule open',
                   w_OpenIDs = g_Identities open'\<rparr>) opens"

definition Check :: "policy \<Rightarrow> report" where
  "Check p =
     (let opens = get_opens (p_Rules p) in
      \<lparr>rep_GetOpen = opens,
       rep_Weakened =
         concat (map (\<lambda>(i, restricted).
            if \<not> r_Allow restricted \<or> r_Modes restricted = [] \<or> permitsGet restricted then []
            else weakened_by i restricted opens) (enumerate 0 (p_Rules p)))\<rparr>)"

lemma get_opens_set:
  "g \<in> set (get_opens rules) \<longleftrightarrow>
     (\<exists>i<length rules. r_Allow (rules ! i) \<and> permitsGet (rules ! i) \<and>
        g = \<lparr>g_Rule = i, g_Secrets = r_Secrets (rules ! i), g_Identities = r_Identities (rules ! i),
             g_Conditional = (r_Weekdays (rules ! i) \<noteq> [] \<or> r_Monthdays (rules ! i) \<noteq> []
               \<or> r_Hours (rules ! i) \<noteq> [])\<rparr>)"
  unfolding get_opens_def set_map_filter_enumerate by (auto split: if_splits)

lemma matches_get_permits: "rule_matches rule r \<Longrightarrow> q_Mode r = ModeGet \<Longrightarrow> permitsGet rule"
  by (auto simp: rule_matches_iff permitsGet_def)

text \<open>What an entry of \<open>Weakened\<close> is made from, and when there is none.\<close>

definition restricts :: "rule \<Rightarrow> bool" where
  "restricts rule \<longleftrightarrow> r_Allow rule \<and> r_Modes rule \<noteq> [] \<and> \<not> permitsGet rule"

lemma report_OK_iff:
  "report_OK (Check p) \<longleftrightarrow>
     (\<forall>i<length (p_Rules p). \<forall>g\<in>set (rep_GetOpen (Check p)).
        restricts (p_Rules p ! i) \<and> g_Rule g \<noteq> i \<and>
        secretsOverlap (r_Secrets (p_Rules p ! i)) (g_Secrets g) \<longrightarrow>
        identitiesSubsumed (g_Identities g) (r_Identities (p_Rules p ! i)))"
proof -
  have w: "weakened_by i rule opens = [] \<longleftrightarrow>
      (\<forall>g\<in>set opens. g_Rule g \<noteq> i \<and> secretsOverlap (r_Secrets rule) (g_Secrets g) \<longrightarrow>
        identitiesSubsumed (g_Identities g) (r_Identities rule))" for i rule opens
    unfolding set_empty[symmetric] weakened_by_def set_map_filter by auto
  have c: "rep_Weakened (Check p) = concat (map (\<lambda>(i, restricted).
      if \<not> r_Allow restricted \<or> r_Modes restricted = [] \<or> permitsGet restricted then []
      else weakened_by i restricted (get_opens (p_Rules p))) (enumerate 0 (p_Rules p)))"
    by (simp add: Check_def Let_def)
  have o: "rep_GetOpen (Check p) = get_opens (p_Rules p)"
    by (simp add: Check_def Let_def)
  show ?thesis
    unfolding report_OK_def c o concat_enumerate_Nil restricts_def
    by (auto simp: w)
qed

lemma get_listed:
  assumes "d_Allow (Evaluate p r)" "q_Mode r = ModeGet"
  shows "\<exists>g\<in>set (rep_GetOpen (Check p)).
     snd (decide (Some p) r) = int (g_Rule g) \<and>
     (g_Secrets g = [] \<or> anyWildcard (g_Secrets g) (q_Ref r)) \<and>
     (g_Identities g = [] \<or> anyWildcard (g_Identities g) (q_Identity r)) \<and>
     (\<not> g_Conditional g \<longrightarrow> \<not> (\<exists>t. \<not> rule_matches (p_Rules p ! g_Rule g) (r\<lparr>q_Time := t\<rparr>)))"
proof -
  obtain i where i: "policy_decider (p_Rules p) r = Some i"
    using assms(1) pol.decider_None by (cases "policy_decider (p_Rules p) r") (auto simp: Evaluate_allows)
  let ?rule = "p_Rules p ! i"
  have m: "i < length (p_Rules p)" "rule_matches ?rule r"
    using pol.decider_SomeD[OF i] by auto
  have "rule_decision ?rule r" using assms(1) pol.decider_outcome[OF i] by (simp add: Evaluate_allows)
  then have "r_Allow ?rule" by (simp add: rule_decision_def rule_outcome_def)
  then show ?thesis
    using m matches_get_permits[OF m(2) assms(2)] i
    by (intro bexI[of _ "\<lparr>g_Rule = i, g_Secrets = r_Secrets ?rule, g_Identities = r_Identities ?rule,
        g_Conditional = (r_Weekdays ?rule \<noteq> [] \<or> r_Monthdays ?rule \<noteq> [] \<or> r_Hours ?rule \<noteq> [])\<rparr>"])
      (auto simp: decide_rule Check_def Let_def get_opens_set rule_matches_iff)
qed

subsection \<open>Near misses\<close>

record mismatch =
  mm_Rule :: nat
  mm_Reasons :: "string list"

definition failed_conditions :: "rule \<Rightarrow> request \<Rightarrow> string list" where
  "failed_conditions rule r =
     (if r_Identities rule \<noteq> [] \<and> \<not> anyWildcard (r_Identities rule) (q_Identity r) then [''identity''] else []) @
     (if r_Modes rule \<noteq> [] \<and> \<not> anyWildcard (r_Modes rule) (q_Mode r) then [''mode''] else []) @
     (if r_Weekdays rule \<noteq> [] \<and> \<not> weekdayMatches (r_Weekdays rule) (q_Time r) then [''weekday''] else []) @
     (if r_Monthdays rule \<noteq> [] \<and> \<not> intIn (r_Monthdays rule) (t_Day (q_Time r)) then [''monthday''] else []) @
     (if r_Hours rule \<noteq> [] \<and> \<not> hoursMatch (r_Hours rule) (q_Time r) then [''hours''] else [])"

definition NearMisses :: "policy \<Rightarrow> request \<Rightarrow> mismatch list" where
  "NearMisses p r =
     List.map_filter (\<lambda>(i, rule).
        if r_Secrets rule \<noteq> [] \<and> \<not> anyWildcard (r_Secrets rule) (q_Ref r) then None
        else if rule_matches rule r then None
        else Some \<lparr>mm_Rule = i, mm_Reasons = failed_conditions rule r\<rparr>) (enumerate 0 (p_Rules p))"

text \<open>\<open>t.Format("Mon")\<close>.\<close>

definition day_name :: "nat \<Rightarrow> string" where
  "day_name w =
     (if w = 0 then ''Sun'' else if w = 1 then ''Mon'' else if w = 2 then ''Tue''
      else if w = 3 then ''Wed'' else if w = 4 then ''Thu'' else if w = 5 then ''Fri'' else ''Sat'')"

definition patternList :: "string list \<Rightarrow> string" where
  "patternList ps = (if ps = [] then ''<any>'' else ''['' @ join_with '' '' ps @ '']'')"

definition explain_reason :: "rule \<Rightarrow> request \<Rightarrow> string \<Rightarrow> string option" where
  "explain_reason rule r why =
     (if why = ''identity'' then
        Some (''identity '' @ (if q_Identity r = [] then ''(no --as given)'' else q_Identity r) @
              '' is not matched by '' @ patternList (r_Identities rule))
      else if why = ''mode'' then
        Some (''mode '' @ q_Mode r @ '' is not in '' @ patternList (r_Modes rule))
      else if why = ''weekday'' then
        Some (''the request is on '' @ day_name (t_Weekday (q_Time r)) @
              '', and the rule is limited to '' @ patternList (r_Weekdays rule))
      else if why = ''monthday'' then
        Some (''the request is on day '' @ itoa (t_Day (q_Time r)) @
              '' of the month, and the rule is limited to specific month days'')
      else if why = ''hours'' then
        Some (''the request is at '' @ format_hm (t_Hour (q_Time r)) (t_Minute (q_Time r)) @
              '', outside the rule's '' @ r_Hours rule @ '' window'')
      else None)"

definition explain_mismatch :: "mismatch \<Rightarrow> rule \<Rightarrow> request \<Rightarrow> string list" where
  "explain_mismatch m rule r = List.map_filter (explain_reason rule r) (mm_Reasons m)"

lemma failed_conditions_Nil:
  "r_Secrets rule = [] \<or> anyWildcard (r_Secrets rule) (q_Ref r) \<Longrightarrow>
   failed_conditions rule r = [] \<longleftrightarrow> rule_matches rule r"
  by (auto simp: failed_conditions_def rule_matches_iff)

lemma failed_conditions_known:
  "set (failed_conditions rule r) \<subseteq> {''identity'', ''mode'', ''weekday'', ''monthday'', ''hours''}"
  by (auto simp: failed_conditions_def)

lemma explain_all:
  "set whys \<subseteq> {''identity'', ''mode'', ''weekday'', ''monthday'', ''hours''} \<Longrightarrow>
   length (List.map_filter (explain_reason rule r) whys) = length whys"
  by (induction whys) (auto simp: List.map_filter_simps explain_reason_def)

lemma NearMisses_set:
  "m \<in> set (NearMisses p r) \<longleftrightarrow>
     (\<exists>i<length (p_Rules p). let rule = p_Rules p ! i in
        (r_Secrets rule = [] \<or> anyWildcard (r_Secrets rule) (q_Ref r)) \<and> \<not> rule_matches rule r \<and>
        m = \<lparr>mm_Rule = i, mm_Reasons = failed_conditions rule r\<rparr>)"
  unfolding NearMisses_def set_map_filter_enumerate by (auto simp: Let_def split: if_splits)

subsection \<open>Properties\<close>

text \<open>
  \<open>Check\<close> lists every way to a raw value: when a \<open>get\<close> is allowed, the rule that decides
  it is listed in \<open>GetOpen\<close>, with the secrets and identities it accepts and a flag saying
  whether it is limited in time. So a policy with no such entry never gives out a raw value.
\<close>

theorem Check_lists_every_get:
  assumes "d_Allow (Evaluate p r)" "q_Mode r = ModeGet"
  shows "\<exists>g\<in>set (rep_GetOpen (Check p)).
     snd (decide (Some p) r) = int (g_Rule g) \<and>
     (g_Secrets g = [] \<or> anyWildcard (g_Secrets g) (q_Ref r)) \<and>
     (g_Identities g = [] \<or> anyWildcard (g_Identities g) (q_Identity r)) \<and>
     (\<not> g_Conditional g \<longrightarrow> \<not> (\<exists>t. \<not> rule_matches (p_Rules p ! g_Rule g) (r\<lparr>q_Time := t\<rparr>)))"
  using get_listed[OF assms] .

theorem Check_lists_every_get_witness:
  "\<exists>g\<in>set (rep_GetOpen (Check \<lparr>p_Schema = 1, p_Rules = [allow_rule [''bao:*''] [] []]\<rparr>)). g_Rule g = 0"
proof -
  let ?p = "\<lparr>p_Schema = 1, p_Rules = [allow_rule [''bao:*''] [] []]\<rparr>"
  have "d_Allow (Evaluate ?p (plain_request ''bao:a/b#c'' ''me'' ''get''))"
    and "snd (decide (Some ?p) (plain_request ''bao:a/b#c'' ''me'' ''get'')) = 0" by code_simp+
  then show ?thesis
    using Check_lists_every_get[of ?p "plain_request ''bao:a/b#c'' ''me'' ''get''"]
    by (force simp: plain_request_def ModeGet_def)
qed


text \<open>Brokered delivery for the group \<open>agent-*\<close>, the raw value for one member of it.\<close>

definition contained_policy :: policy where
  "contained_policy =
     \<lparr>p_Schema = 1,
      p_Rules = [allow_rule [''bao:app/db#pw''] [''agent-*''] [''exec''],
                 allow_rule [''bao:app/*''] [''agent-root''] []]\<rparr>"


definition missed_bypass :: policy where
  "missed_bypass =
     \<lparr>p_Schema = 1,
      p_Rules = [allow_rule [''bao:app/*#token''] [''agent''] [''exec''],
                 allow_rule [''bao:app/*''] [''human''] []]\<rparr>"

text \<open>
  The check can miss a bypass it is documented to catch. The pattern of the second rule
  contains that of the first (\<open>bao:app/*\<close> and \<open>bao:app/*#token\<close>), but the two texts do not
  match each other in either direction, because a star in the text uses up the pattern's star;
  so no finding is reported, and another label reads the raw value of a restricted ref.
\<close>

theorem Check_misses_bypass:
  "report_OK (Check missed_bypass) \<and>
   rule_matches (p_Rules missed_bypass ! 0) (plain_request ''bao:app/x#token'' ''agent'' ''exec'') \<and>
   \<not> d_Allow (Evaluate missed_bypass (plain_request ''bao:app/x#token'' ''agent'' ''get'')) \<and>
   d_Allow (Evaluate missed_bypass (plain_request ''bao:app/x#token'' ''human'' ''get''))"
  by (intro conjI; code_simp)

text \<open>
  Near misses are exactly the rules about the requested ref that did not match, and each
  names at least one failed condition and gets one line of explanation per failed condition;
  the conditions named are the ones that would have to hold for the rule to match.
\<close>

theorem NearMisses_explain:
  "((\<exists>m\<in>set (NearMisses p r). mm_Rule m = i) \<longleftrightarrow>
     i < length (p_Rules p) \<and> \<not> rule_matches (p_Rules p ! i) r \<and>
     (r_Secrets (p_Rules p ! i) = [] \<or> anyWildcard (r_Secrets (p_Rules p ! i)) (q_Ref r))) \<and>
   (\<forall>m\<in>set (NearMisses p r). mm_Reasons m \<noteq> [] \<and>
     length (explain_mismatch m (p_Rules p ! mm_Rule m) r) = length (mm_Reasons m))"
  using explain_all[OF failed_conditions_known]
  by (auto simp: NearMisses_set Let_def failed_conditions_Nil explain_mismatch_def Bex_def)

theorem NearMisses_explain_witness:
  "\<exists>m\<in>set (NearMisses contained_policy (plain_request ''bao:app/x'' ''human'' ''get'')). mm_Rule m = 1"
proof -
  have "\<not> rule_matches (p_Rules contained_policy ! 1) (plain_request ''bao:app/x'' ''human'' ''get'')"
    "anyWildcard (r_Secrets (p_Rules contained_policy ! 1)) (q_Ref (plain_request ''bao:app/x'' ''human'' ''get''))"
    "1 < length (p_Rules contained_policy)" by code_simp+
  then show ?thesis
    using NearMisses_explain[of contained_policy "plain_request ''bao:app/x'' ''human'' ''get''" 1] by blast
qed

end
