(* ===== verification/Policy_Analyze.thy ===== *)
theory Policy_Analyze
  imports Policy_Check
begin

text \<open>
  The structural analysis of a rule list (\<open>internal/policy/analyze.go\<close>): coverage and overlap
  of rules, the findings of \<open>Analyze\<close> with their messages, and the split into findings that
  block an automatic edit and findings that do not.
\<close>

subsection \<open>Severities and findings\<close>

datatype Severity = SeverityWarning | SeverityError

text \<open>The order of the constants (\<open>iota\<close>).\<close>

instantiation Severity :: linorder
begin

definition less_eq_Severity :: "Severity \<Rightarrow> Severity \<Rightarrow> bool" where
  "less_eq_Severity a b \<longleftrightarrow> a = SeverityWarning \<or> b = SeverityError"

definition less_Severity :: "Severity \<Rightarrow> Severity \<Rightarrow> bool" where
  "less_Severity a b \<longleftrightarrow> a = SeverityWarning \<and> b = SeverityError"

instance
  by standard (auto simp: less_eq_Severity_def less_Severity_def intro: Severity.exhaust)

end

definition severity_String :: "Severity \<Rightarrow> string" where
  "severity_String s = (if s = SeverityError then ''error'' else ''warning'')"

definition FindingUnreachable :: string where "FindingUnreachable = ''unreachable''"
definition FindingShadows :: string where "FindingShadows = ''shadows''"
definition FindingRedundant :: string where "FindingRedundant = ''redundant''"
definition FindingGetGranted :: string where "FindingGetGranted = ''get-granted''"
definition FindingBypassableModes :: string where "FindingBypassableModes = ''bypassable-modes''"
definition FindingAgentAssertableGet :: string where "FindingAgentAssertableGet = ''agent-assertable-get''"
definition FindingDenyAgentsNoop :: string where "FindingDenyAgentsNoop = ''deny-agents-noop''"
definition FindingDenyAgentsIdentityScoped :: string where
  "FindingDenyAgentsIdentityScoped = ''deny-agents-identity-scoped''"

lemmas finding_kinds =
  FindingUnreachable_def FindingShadows_def FindingRedundant_def FindingGetGranted_def
  FindingBypassableModes_def FindingAgentAssertableGet_def FindingDenyAgentsNoop_def
  FindingDenyAgentsIdentityScoped_def

record finding =
  f_Kind :: string
  f_Severity :: Severity
  f_Rule :: int
  f_Other :: int
  f_Message :: string

record analysis =
  a_Findings :: "finding list"

definition Errors :: "analysis \<Rightarrow> finding list" where
  "Errors a = filter (\<lambda>f. f_Severity f = SeverityError) (a_Findings a)"

definition Warnings :: "analysis \<Rightarrow> finding list" where
  "Warnings a = filter (\<lambda>f. f_Severity f = SeverityWarning) (a_Findings a)"

definition analysis_OK :: "analysis \<Rightarrow> bool" where
  "analysis_OK a \<longleftrightarrow> length (Errors a) = 0"

record contextDiff =
  nonAgent :: bool
  agent :: bool

definition contextDiff_any :: "contextDiff \<Rightarrow> bool" where
  "contextDiff_any d \<longleftrightarrow> nonAgent d \<or> agent d"

definition compareOutcomes :: "rule \<Rightarrow> rule \<Rightarrow> contextDiff" where
  "compareOutcomes a b =
     \<lparr>nonAgent = (rule_outcome a False \<noteq> rule_outcome b False),
      agent = (rule_outcome a True \<noteq> rule_outcome b True)\<rparr>"

definition contextLabel :: "contextDiff \<Rightarrow> string \<times> bool" where
  "contextLabel d = (if nonAgent d then ('''', False) else ('' for agent contexts'', True))"

definition allowVerb :: "bool \<Rightarrow> string" where
  "allowVerb allow = (if allow then ''allows'' else ''denies'')"

definition allowWord :: "bool \<Rightarrow> string" where
  "allowWord allow = (if allow then ''allow'' else ''deny'')"

definition outcomeWord :: "rule \<Rightarrow> bool \<Rightarrow> string" where
  "outcomeWord r ag =
     (if r_Allow r \<and> \<not> rule_outcome r ag then ''deny (deny_agents)'' else allowWord (rule_outcome r ag))"

subsection \<open>Coverage\<close>

definition ruleIsScheduled :: "rule \<Rightarrow> bool" where
  "ruleIsScheduled r \<longleftrightarrow> r_Weekdays r \<noteq> [] \<or> r_Monthdays r \<noteq> [] \<or> r_Hours r \<noteq> []"

definition patternsCover :: "string list \<Rightarrow> string list \<Rightarrow> bool" where
  "patternsCover outer inner \<longleftrightarrow>
     (if outer = [] then True
      else if inner = [] then False
      else list_all (anyWildcard outer) inner)"

definition sameStrings :: "string list \<Rightarrow> string list \<Rightarrow> bool" where
  "sameStrings a b \<longleftrightarrow> (if length a \<noteq> length b then False else list_all (\<lambda>i. a ! i = b ! i) [0..<length a])"

definition sameInts :: "int list \<Rightarrow> int list \<Rightarrow> bool" where
  "sameInts a b \<longleftrightarrow> (if length a \<noteq> length b then False else list_all (\<lambda>i. a ! i = b ! i) [0..<length a])"

definition timeCovers :: "rule \<Rightarrow> rule \<Rightarrow> bool" where
  "timeCovers outer inner \<longleftrightarrow>
     (if \<not> ruleIsScheduled outer then True
      else sameStrings (r_Weekdays outer) (r_Weekdays inner) \<and>
           sameInts (r_Monthdays outer) (r_Monthdays inner) \<and> r_Hours outer = r_Hours inner)"

definition ruleCovers :: "rule \<Rightarrow> rule \<Rightarrow> bool" where
  "ruleCovers outer inner \<longleftrightarrow>
     patternsCover (r_Secrets outer) (r_Secrets inner) \<and>
     patternsCover (r_Identities outer) (r_Identities inner) \<and>
     patternsCover (r_Modes outer) (r_Modes inner) \<and> timeCovers outer inner"

text \<open>\<open>coveredBefore\<close>: the first earlier rule that covers rule \<open>i\<close>.\<close>

definition coveredBefore :: "rule list \<Rightarrow> nat \<Rightarrow> nat option" where
  "coveredBefore rules i = first_index (\<lambda>outer. ruleCovers outer (rules ! i)) (take i rules)"

fun weekdaySetsOverlap :: "string list \<Rightarrow> string list \<Rightarrow> bool" where
  "weekdaySetsOverlap [] b = False"
| "weekdaySetsOverlap (x # a) b =
     (case weekdayNum x of
        None \<Rightarrow> weekdaySetsOverlap a b
      | Some wx \<Rightarrow> list_ex (\<lambda>y. weekdayNum y = Some wx) b \<or> weekdaySetsOverlap a b)"

definition intSetsOverlap :: "int list \<Rightarrow> int list \<Rightarrow> bool" where
  "intSetsOverlap a b \<longleftrightarrow> list_ex (intIn b) a"

definition schedulesMayOverlap :: "rule \<Rightarrow> rule \<Rightarrow> bool" where
  "schedulesMayOverlap a b \<longleftrightarrow>
     (if r_Weekdays a \<noteq> [] \<and> r_Weekdays b \<noteq> [] \<and> \<not> weekdaySetsOverlap (r_Weekdays a) (r_Weekdays b) then False
      else if r_Monthdays a \<noteq> [] \<and> r_Monthdays b \<noteq> [] \<and> \<not> intSetsOverlap (r_Monthdays a) (r_Monthdays b) then False
      else True)"

definition rulesIntersect :: "rule \<Rightarrow> rule \<Rightarrow> bool" where
  "rulesIntersect a b \<longleftrightarrow>
     secretsOverlap (r_Secrets a) (r_Secrets b) \<and>
     secretsOverlap (r_Identities a) (r_Identities b) \<and>
     secretsOverlap (r_Modes a) (r_Modes b) \<and> schedulesMayOverlap a b"

lemma sameStrings_iff [simp]: "sameStrings a b \<longleftrightarrow> a = b"
  unfolding sameStrings_def by (rule same_elements)

lemma sameInts_iff [simp]: "sameInts a b \<longleftrightarrow> a = b"
  unfolding sameInts_def by (rule same_elements)

lemma weekdaySetsOverlap_iff:
  "weekdaySetsOverlap a b \<longleftrightarrow> (\<exists>x\<in>set a. \<exists>y\<in>set b. \<exists>w. weekdayNum x = Some w \<and> weekdayNum y = Some w)"
  by (induction a) (auto simp: list_ex_iff split: option.splits)

lemma intSetsOverlap_iff: "intSetsOverlap a b \<longleftrightarrow> set a \<inter> set b \<noteq> {}"
  by (auto simp: intSetsOverlap_def list_ex_iff)

subsection \<open>The analysis\<close>

text \<open>The first loop of \<open>Analyze\<close>: what the rules before rule \<open>i\<close> already do.\<close>

definition ordering_finding :: "rule list \<Rightarrow> nat \<Rightarrow> rule \<Rightarrow> finding option" where
  "ordering_finding rules i r =
     (case coveredBefore rules i of
        None \<Rightarrow> None
      | Some by \<Rightarrow>
          let diff = compareOutcomes (rules ! by) r in
          if \<not> contextDiff_any diff then
            Some \<lparr>f_Kind = FindingRedundant, f_Severity = SeverityWarning, f_Rule = int i, f_Other = int by,
                  f_Message = ''rule '' @ itoa (int i) @ '' is redundant: rule '' @ itoa (int by) @
                    '' already matches everything it matches, with the same '' @ allowWord (r_Allow r) @
                    '' outcome''\<rparr>
          else
            let (suffix, agentCtx) = contextLabel diff in
            Some \<lparr>f_Kind = FindingUnreachable, f_Severity = SeverityError, f_Rule = int i, f_Other = int by,
                  f_Message = ''rule '' @ itoa (int i) @ '' is unreachable'' @ suffix @ '': rule '' @
                    itoa (int by) @ '' matches everything it matches first and '' @
                    allowVerb (rule_outcome (rules ! by) agentCtx) @ '', so this rule's '' @
                    outcomeWord r agentCtx @ '' never takes effect''\<rparr>)"

definition ordering_findings :: "rule list \<Rightarrow> finding list" where
  "ordering_findings rules = List.map_filter (\<lambda>(i, r). ordering_finding rules i r) (enumerate 0 rules)"

text \<open>The second loop: partial overlaps with a different outcome.\<close>

definition shadow_finding :: "rule list \<Rightarrow> nat \<Rightarrow> nat \<Rightarrow> finding option" where
  "shadow_finding rules i j =
     (let a = rules ! i; b = rules ! j; diff = compareOutcomes a b in
      if \<not> contextDiff_any diff then None
      else if ruleCovers a b then None
      else if \<not> rulesIntersect a b then None
      else
        let (suffix, agentCtx) = contextLabel diff in
        Some \<lparr>f_Kind = FindingShadows, f_Severity = SeverityWarning, f_Rule = int i, f_Other = int j,
              f_Message = ''rule '' @ itoa (int i) @ '' shadows part of rule '' @ itoa (int j) @ suffix @
                '': requests matching both are decided by rule '' @ itoa (int i) @ '' ('' @
                outcomeWord a agentCtx @ ''), not rule '' @ itoa (int j) @ '' ('' @ outcomeWord b agentCtx @
                '') '' @ emdash @ '' deliberate if rule '' @ itoa (int i) @ '' is an exception to rule '' @
                itoa (int j) @ '', a mistake if not''\<rparr>)"

definition shadow_findings :: "rule list \<Rightarrow> finding list" where
  "shadow_findings rules =
     concat (map (\<lambda>i. List.map_filter (shadow_finding rules i) [i + 1..<length rules]) [0..<length rules])"

text \<open>The third loop: where \<open>deny_agents\<close> stands.\<close>

definition deny_agents_finding :: "nat \<Rightarrow> rule \<Rightarrow> finding option" where
  "deny_agents_finding i r =
     (if \<not> r_DenyAgents r then None
      else if \<not> r_Allow r then
        Some \<lparr>f_Kind = FindingDenyAgentsNoop, f_Severity = SeverityWarning, f_Rule = int i, f_Other = -1,
              f_Message = ''rule '' @ itoa (int i) @ '' sets deny_agents on a deny-rule, which already '' @
                ''refuses every request it matches '' @ emdash @ '' the field has no effect here''\<rparr>
      else if r_Identities r \<noteq> [] \<and> ''*'' \<notin> set (r_Identities r) then
        Some \<lparr>f_Kind = FindingDenyAgentsIdentityScoped, f_Severity = SeverityWarning, f_Rule = int i, f_Other = -1,
              f_Message = ''rule '' @ itoa (int i) @ '' denies agent contexts only for identities='' @
                patternList (r_Identities r) @ '' '' @ emdash @ '' identity labels are self-asserted, so an '' @
                ''agent passing another --as label is not stopped by this rule; to deny agents on secrets='' @
                patternList (r_Secrets r) @ '' whatever label they assert, drop the identities condition '' @
                ''and place the rule above every broader grant''\<rparr>
      else None)"

definition deny_agents_findings :: "rule list \<Rightarrow> finding list" where
  "deny_agents_findings rules = List.map_filter (\<lambda>(i, r). deny_agents_finding i r) (enumerate 0 rules)"

definition agentAssertableGetLabels :: "report \<Rightarrow> string list" where
  "agentAssertableGetLabels rep =
     sort (remdups (concat (map (\<lambda>g. if g_Identities g = [] then [''*''] else g_Identities g) (rep_GetOpen rep))))"

text \<open>The rest of \<open>Analyze\<close>: the findings of \<open>Check\<close>, and the labels that reach a raw value.\<close>

definition get_granted_finding :: "get_open \<Rightarrow> finding" where
  "get_granted_finding g =
     (let cond = (if g_Conditional g then '', within its time window'' else '''') in
      \<lparr>f_Kind = FindingGetGranted, f_Severity = SeverityWarning, f_Rule = int (g_Rule g), f_Other = -1,
       f_Message = ''rule '' @ itoa (int (g_Rule g)) @ '' permits raw `get` on secrets='' @
         patternList (g_Secrets g) @ '' for identities='' @ patternList (g_Identities g) @ cond @ '' '' @
         emdash @ '' the caller receives the value itself, not brokered use of it''\<rparr>)"

definition bypassable_finding :: "weakened \<Rightarrow> finding" where
  "bypassable_finding w =
     \<lparr>f_Kind = FindingBypassableModes, f_Severity = SeverityError, f_Rule = int (w_RestrictedRule w),
      f_Other = int (w_OpenRule w),
      f_Message = ''rule '' @ itoa (int (w_RestrictedRule w)) @ '' restricts identities='' @
        patternList (w_RestrictedIDs w) @ '' to brokered delivery on '' @ patternList (w_Secrets w) @
        '', but rule '' @ itoa (int (w_OpenRule w)) @ '' permits `get` on an overlapping ref for identities='' @
        patternList (w_OpenIDs w) @ '' '' @ emdash @
        '' identity labels are self-asserted, so the restriction does not hold''\<rparr>"

definition assertable_findings :: "report \<Rightarrow> finding list" where
  "assertable_findings rep =
     (let labels = agentAssertableGetLabels rep in
      if length labels > 0 then
        [\<lparr>f_Kind = FindingAgentAssertableGet, f_Severity = SeverityWarning, f_Rule = -1, f_Other = -1,
          f_Message = itoa (int (length labels)) @ '' identity label(s) reach raw `get` somewhere in '' @
            ''this policy: '' @ join_with '' '' labels @ '' '' @ emdash @ '' each is a string an AI agent's '' @
            ''tool shell can assert, whatever a rule's description says the caller is. A `get` from an '' @
            ''agent shell is refused at runtime (see internal/agent), but nothing stops a human, a script, '' @
            ''or an unrecognised harness from asserting these''\<rparr>]
      else [])"

definition Analyze :: "policy \<Rightarrow> analysis" where
  "Analyze p =
     (let rep = Check p in
      \<lparr>a_Findings =
         ordering_findings (p_Rules p) @ shadow_findings (p_Rules p) @ deny_agents_findings (p_Rules p) @
         map get_granted_finding (rep_GetOpen rep) @ map bypassable_finding (rep_Weakened rep) @
         assertable_findings rep\<rparr>)"

subsection \<open>What coverage and overlap mean\<close>

text \<open>
  The patterns of a rule, and the strings of a request they are matched against. The two side
  conditions of the coverage facts: no \<open>?\<close> in the covering patterns (a \<open>?\<close> matches the text
  \<open>*\<close> of a pattern, but not all it stands for), and no star in the request (the gap of the
  matcher).
\<close>

definition rule_patterns :: "rule \<Rightarrow> string list" where
  "rule_patterns r = r_Secrets r @ r_Identities r @ r_Modes r"

definition rule_question_free :: "rule \<Rightarrow> bool" where
  "rule_question_free r \<longleftrightarrow> list_all (\<lambda>p. CHR ''?'' \<notin> set p) (rule_patterns r)"

definition rule_literal :: "rule \<Rightarrow> bool" where
  "rule_literal r \<longleftrightarrow> list_all (\<lambda>p. CHR ''?'' \<notin> set p \<and> CHR ''*'' \<notin> set p) (rule_patterns r)"

definition request_star_free :: "request \<Rightarrow> bool" where
  "request_star_free r \<longleftrightarrow> CHR ''*'' \<notin> set (q_Ref r) \<and> CHR ''*'' \<notin> set (q_Identity r) \<and> CHR ''*'' \<notin> set (q_Mode r)"

lemma rule_patterns_all:
  "list_all P (rule_patterns r) \<longleftrightarrow>
     list_all P (r_Secrets r) \<and> list_all P (r_Identities r) \<and> list_all P (r_Modes r)"
  by (auto simp: rule_patterns_def list_all_iff)

lemma patternsCover_sound:
  assumes "patternsCover outer inner" "list_all (\<lambda>p. CHR ''?'' \<notin> set p) outer" "CHR ''*'' \<notin> set s"
    and "inner = [] \<or> anyWildcard inner s"
  shows "outer = [] \<or> anyWildcard outer s"
proof (cases "outer = []")
  case False
  with assms(1) have inner: "inner \<noteq> []" "\<forall>i\<in>set inner. anyWildcard outer i"
    by (auto simp: patternsCover_def list_all_iff split: if_splits)
  with assms(4) obtain i where i: "i \<in> set inner" "wildcardMatch i s" by (auto simp: anyWildcard_iff)
  with inner(2) obtain q where q: "q \<in> set outer" "wildcardMatch q i" by (auto simp: anyWildcard_iff)
  then have "wildcardMatch q s"
    using wm.text_covers[OF q(2) _ i(2) assms(3)] assms(2) by (auto simp: list_all_iff)
  with q(1) show ?thesis by (auto simp: anyWildcard_iff)
qed simp

lemma timeCovers_sound:
  "timeCovers outer inner \<Longrightarrow> rule_matches inner r \<Longrightarrow>
   (r_Weekdays outer = [] \<or> weekdayMatches (r_Weekdays outer) (q_Time r)) \<and>
   (r_Monthdays outer = [] \<or> t_Day (q_Time r) \<in> set (r_Monthdays outer)) \<and>
   (r_Hours outer = [] \<or> hoursMatch (r_Hours outer) (q_Time r))"
  by (auto simp: timeCovers_def ruleIsScheduled_def rule_matches_iff split: if_splits)

lemma ruleCovers_matches:
  assumes "ruleCovers outer inner" "rule_question_free outer" "request_star_free r" "rule_matches inner r"
  shows "rule_matches outer r"
  using assms patternsCover_sound[of "r_Secrets outer" "r_Secrets inner" "q_Ref r"]
    patternsCover_sound[of "r_Identities outer" "r_Identities inner" "q_Identity r"]
    patternsCover_sound[of "r_Modes outer" "r_Modes inner" "q_Mode r"]
    timeCovers_sound[of outer inner r]
  by (simp add: ruleCovers_def rule_question_free_def request_star_free_def rule_patterns_all
      rule_matches_iff)

lemma coveredBefore_Some:
  "i < length rules \<Longrightarrow> coveredBefore rules i = Some j \<Longrightarrow> j < i \<and> ruleCovers (rules ! j) (rules ! i)"
  by (auto simp: coveredBefore_def first_index_Some_iff)

lemma coveredBefore_None:
  assumes "i < length rules"
  shows "coveredBefore rules i = None \<longleftrightarrow> (\<forall>j<i. \<not> ruleCovers (rules ! j) (rules ! i))"
  using assms unfolding coveredBefore_def first_index_None
  by (simp add: ball_take)

lemma compareOutcomes_none: "\<not> contextDiff_any (compareOutcomes a b) \<longleftrightarrow> rule_outcome a = rule_outcome b"
proof -
  have "f = g \<longleftrightarrow> f False = g False \<and> f True = g True" for f g :: "bool \<Rightarrow> bool"
    by (metis (full_types) ext)
  then show ?thesis by (simp add: contextDiff_any_def compareOutcomes_def)
qed

lemma schedulesMayOverlap_complete:
  "rule_matches a r \<Longrightarrow> rule_matches b r \<Longrightarrow> schedulesMayOverlap a b"
proof -
  assume a: "rule_matches a r" and b: "rule_matches b r"
  have "weekdaySetsOverlap (r_Weekdays a) (r_Weekdays b)" if "r_Weekdays a \<noteq> []" "r_Weekdays b \<noteq> []"
  proof -
    have "\<exists>n\<in>set (r_Weekdays rule). weekdayNum n = Some (t_Weekday (q_Time r))"
      if "rule_matches rule r" "r_Weekdays rule \<noteq> []" for rule
      using that by (simp add: rule_matches_iff weekdayMatches_iff)
    then show ?thesis unfolding weekdaySetsOverlap_iff using a b that by blast
  qed
  moreover have "intSetsOverlap (r_Monthdays a) (r_Monthdays b)" if "r_Monthdays a \<noteq> []" "r_Monthdays b \<noteq> []"
    using a b that unfolding intSetsOverlap_iff rule_matches_iff by blast
  ultimately show ?thesis unfolding schedulesMayOverlap_def by presburger
qed

lemma literal_overlap:
  assumes "list_all (\<lambda>p. CHR ''?'' \<notin> set p \<and> CHR ''*'' \<notin> set p) b" "CHR ''*'' \<notin> set s"
    and "a = [] \<or> anyWildcard a s" "b = [] \<or> anyWildcard b s"
  shows "secretsOverlap a b"
proof (cases "a = [] \<or> b = []")
  case False
  with assms obtain p q where "p \<in> set a" "wildcardMatch p s" "q \<in> set b" "wildcardMatch q s"
    by (auto simp: anyWildcard_iff)
  moreover have "s = q"
    using calculation assms wm.literal_accepts[of q s] by (auto simp: list_all_iff)
  ultimately show ?thesis by (auto simp: secretsOverlap_def list_ex_iff)
qed (auto simp: secretsOverlap_def)

text \<open>Which findings carry which severity, and where the ordering findings come from.\<close>

lemma ordering_findings_set:
  "f \<in> set (ordering_findings rules) \<longleftrightarrow>
     (\<exists>i<length rules. ordering_finding rules i (rules ! i) = Some f)"
  unfolding ordering_findings_def set_map_filter_enumerate by simp

lemma ordering_finding_Some:
  assumes "ordering_finding rules i r = Some f"
  shows "\<exists>by. coveredBefore rules i = Some by \<and> f_Rule f = int i \<and> f_Other f = int by \<and>
    (f_Kind f = FindingRedundant \<and> f_Severity f = SeverityWarning \<and> rule_outcome (rules ! by) = rule_outcome r \<or>
     f_Kind f = FindingUnreachable \<and> f_Severity f = SeverityError \<and> rule_outcome (rules ! by) \<noteq> rule_outcome r)"
  using assms compareOutcomes_none
  by (auto simp: ordering_finding_def Let_def split: option.splits if_splits prod.splits)

lemma ordering_finding_None: "ordering_finding rules i r = None \<longleftrightarrow> coveredBefore rules i = None"
  by (auto simp: ordering_finding_def Let_def split: option.splits prod.splits)

lemma shadow_finding_Some:
  "shadow_finding rules i j = Some f \<Longrightarrow> f_Kind f = FindingShadows \<and> f_Severity f = SeverityWarning"
  by (auto simp: shadow_finding_def Let_def contextLabel_def split: if_splits)

lemma shadow_findings_kind:
  assumes "f \<in> set (shadow_findings rules)"
  shows "f_Kind f = FindingShadows \<and> f_Severity f = SeverityWarning"
proof -
  obtain i j where "shadow_finding rules i j = Some f"
    using assms unfolding shadow_findings_def by (auto simp: set_map_filter)
  then show ?thesis by (rule shadow_finding_Some)
qed

lemma deny_agents_findings_kind:
  assumes "f \<in> set (deny_agents_findings rules)"
  shows "f_Kind f \<in> {FindingDenyAgentsNoop, FindingDenyAgentsIdentityScoped} \<and> f_Severity f = SeverityWarning"
  using assms unfolding deny_agents_findings_def set_map_filter_enumerate
  by (auto simp: deny_agents_finding_def split: if_splits)

lemma get_granted_kind:
  "f_Kind (get_granted_finding g) = FindingGetGranted \<and> f_Severity (get_granted_finding g) = SeverityWarning"
  by (simp add: get_granted_finding_def)

lemma bypassable_kind:
  "f_Kind (bypassable_finding w) = FindingBypassableModes \<and> f_Severity (bypassable_finding w) = SeverityError"
  by (simp add: bypassable_finding_def)

lemma assertable_kind:
  "f \<in> set (assertable_findings rep) \<Longrightarrow>
   f_Kind f = FindingAgentAssertableGet \<and> f_Severity f = SeverityWarning"
  by (auto simp: assertable_findings_def Let_def split: if_splits)

lemma Analyze_set:
  "f \<in> set (a_Findings (Analyze p)) \<longleftrightarrow>
     f \<in> set (ordering_findings (p_Rules p)) \<or> f \<in> set (shadow_findings (p_Rules p)) \<or>
     f \<in> set (deny_agents_findings (p_Rules p)) \<or>
     (\<exists>g\<in>set (rep_GetOpen (Check p)). f = get_granted_finding g) \<or>
     (\<exists>w\<in>set (rep_Weakened (Check p)). f = bypassable_finding w) \<or>
     f \<in> set (assertable_findings (Check p))"
  by (auto simp: Analyze_def Let_def)

lemma other_findings:
  assumes "f \<in> set (a_Findings (Analyze p))" "f \<notin> set (ordering_findings (p_Rules p))"
  shows "f_Kind f \<noteq> FindingUnreachable \<and> f_Kind f \<noteq> FindingRedundant \<and>
    (f_Severity f = SeverityWarning \<or> (\<exists>w\<in>set (rep_Weakened (Check p)). f = bypassable_finding w))"
proof -
  have k: "FindingShadows \<notin> {FindingUnreachable, FindingRedundant}"
    "FindingDenyAgentsNoop \<notin> {FindingUnreachable, FindingRedundant}"
    "FindingDenyAgentsIdentityScoped \<notin> {FindingUnreachable, FindingRedundant}"
    "FindingGetGranted \<notin> {FindingUnreachable, FindingRedundant}"
    "FindingBypassableModes \<notin> {FindingUnreachable, FindingRedundant}"
    "FindingAgentAssertableGet \<notin> {FindingUnreachable, FindingRedundant}"
    by (simp_all add: finding_kinds)
  from assms consider "f \<in> set (shadow_findings (p_Rules p))" | "f \<in> set (deny_agents_findings (p_Rules p))"
    | g where "f = get_granted_finding g" | w where "w \<in> set (rep_Weakened (Check p))" "f = bypassable_finding w"
    | "f \<in> set (assertable_findings (Check p))"
    unfolding Analyze_set by blast
  then show ?thesis
  proof cases
    case 1
    then show ?thesis using shadow_findings_kind[OF 1] k by simp
  next
    case 2
    then show ?thesis using deny_agents_findings_kind[OF 2] k by auto
  next
    case 3
    then show ?thesis using get_granted_kind[of g] k by simp
  next
    case 4
    then show ?thesis using bypassable_kind[of w] k by auto
  next
    case 5
    then show ?thesis using assertable_kind[OF 5] k by simp
  qed
qed

lemma ordering_warning_iff:
  "(\<forall>f\<in>set (ordering_findings rules). f_Severity f = SeverityWarning) \<longleftrightarrow>
     (\<forall>i<length rules. \<forall>j. coveredBefore rules i = Some j \<longrightarrow>
        rule_outcome (rules ! j) = rule_outcome (rules ! i))"
  (is "?l \<longleftrightarrow> ?r")
proof
  assume l: ?l
  show ?r
  proof (intro allI impI)
    fix i j assume i: "i < length rules" and c: "coveredBefore rules i = Some j"
    then obtain f where f: "ordering_finding rules i (rules ! i) = Some f"
      using ordering_finding_None[of "rules" i "rules ! i"]
      by (cases "ordering_finding rules i (rules ! i)") auto
    then have "f_Severity f = SeverityWarning" using l i ordering_findings_set[of f rules] by blast
    then show "rule_outcome (rules ! j) = rule_outcome (rules ! i)"
      using ordering_finding_Some[OF f] c by auto
  qed
next
  assume r: ?r
  show ?l
  proof
    fix f assume "f \<in> set (ordering_findings rules)"
    then obtain i where "i < length rules" and f: "ordering_finding rules i (rules ! i) = Some f"
      unfolding ordering_findings_set by blast
    then show "f_Severity f = SeverityWarning" using ordering_finding_Some[OF f] r by auto
  qed
qed

text \<open>Removing rule \<open>i\<close> from a list.\<close>

definition without_rule :: "nat \<Rightarrow> rule list \<Rightarrow> rule list" where
  "without_rule i rules = take i rules @ drop (Suc i) rules"

lemma covered_rule_dead:
  assumes "i < length rules" "j < i" "rule_matches (rules ! i) r \<Longrightarrow> rule_matches (rules ! j) r"
  shows "policy_decider rules r \<noteq> Some i"
    and "policy_allows (without_rule i rules) r = policy_allows rules r"
proof -
  show "policy_decider rules r \<noteq> Some i" using assms pol.never_decides by blast
  have "rules ! j \<in> set (take i rules)"
    using assms(1,2) by (metis in_set_conv_nth length_take min.absorb4 nth_take)
  then have "policy_allows (take i rules @ rules ! i # drop (Suc i) rules) r =
      policy_allows (take i rules @ drop (Suc i) rules) r"
    using assms(3) by (rule pol.covered_dead)
  then show "policy_allows (without_rule i rules) r = policy_allows rules r"
    by (simp add: without_rule_def id_take_nth_drop[OF assms(1), symmetric])
qed

subsection \<open>Properties\<close>


text \<open>A deny that an earlier, broader allow makes unreachable.\<close>

definition buried_deny :: policy where
  "buried_deny =
     \<lparr>p_Schema = 1,
      p_Rules = [allow_rule [''bao:app/*''] [] [],
                 (allow_rule [''bao:app/db#pw''] [''agent-*''] [])\<lparr>r_Allow := False\<rparr>]\<rparr>"


text \<open>
  What a policy with no blocking finding is free of: \<open>OK\<close> holds exactly when the
  leak-containment check passes and no rule is covered by an earlier one with a different
  outcome in some context; so the analysis accepts no policy the check rejects.
\<close>

theorem Analyze_OK_iff:
  "analysis_OK (Analyze p) \<longleftrightarrow>
     report_OK (Check p) \<and>
     (\<forall>i<length (p_Rules p). \<forall>j. coveredBefore (p_Rules p) i = Some j \<longrightarrow>
        rule_outcome (p_Rules p ! j) = rule_outcome (p_Rules p ! i))"
proof -
  have "analysis_OK (Analyze p) \<longleftrightarrow> (\<forall>f\<in>set (a_Findings (Analyze p)). f_Severity f = SeverityWarning)"
    by (auto simp: analysis_OK_def Errors_def filter_empty_conv) (metis Severity.exhaust)
  also have "\<dots> \<longleftrightarrow> (\<forall>f\<in>set (ordering_findings (p_Rules p)). f_Severity f = SeverityWarning) \<and>
      rep_Weakened (Check p) = []"
  proof
    assume w: "\<forall>f\<in>set (a_Findings (Analyze p)). f_Severity f = SeverityWarning"
    have "f_Severity (bypassable_finding x) = SeverityWarning" if "x \<in> set (rep_Weakened (Check p))" for x
    proof -
      have "bypassable_finding x \<in> set (a_Findings (Analyze p))"
        using that unfolding Analyze_set by blast
      with w show ?thesis by blast
    qed
    then have "set (rep_Weakened (Check p)) = {}"
      by (intro equals0I) (use bypassable_kind in fastforce)
    then show "(\<forall>f\<in>set (ordering_findings (p_Rules p)). f_Severity f = SeverityWarning) \<and>
        rep_Weakened (Check p) = []"
      using w by (simp add: Analyze_set)
  next
    assume "(\<forall>f\<in>set (ordering_findings (p_Rules p)). f_Severity f = SeverityWarning) \<and> rep_Weakened (Check p) = []"
    then show "\<forall>f\<in>set (a_Findings (Analyze p)). f_Severity f = SeverityWarning"
      using other_findings by (metis empty_iff set_empty)
  qed
  finally show ?thesis unfolding report_OK_def ordering_warning_iff by blast
qed

theorem Analyze_OK_iff_witness: "\<not> report_OK (Check (buried_deny\<lparr>p_Rules := rev (p_Rules contained_policy) @ [allow_rule [''bao:app/*''] [''human''] []]\<rparr>)) \<and> \<not> analysis_OK (Analyze buried_deny)"
proof -
  have "coveredBefore (p_Rules buried_deny) 1 = Some 0" by code_simp
  moreover have "\<not> (rule_outcome (p_Rules buried_deny ! 0) False = rule_outcome (p_Rules buried_deny ! 1) False)"
    by code_simp
  moreover have "1 < length (p_Rules buried_deny)" by code_simp
  ultimately have "\<not> analysis_OK (Analyze buried_deny)"
    using Analyze_OK_iff[of buried_deny] by metis
  moreover have "\<not> report_OK (Check (buried_deny\<lparr>p_Rules := rev (p_Rules contained_policy) @ [allow_rule [''bao:app/*''] [''human''] []]\<rparr>))"
    by code_simp
  ultimately show ?thesis by blast
qed

text \<open>
  The labels reported as able to reach a raw value are all of them: whoever is allowed a
  \<open>get\<close> carries a label one of the reported patterns accepts, or \<open>*\<close> is reported. With an empty
  list no policy decision ever allows a \<open>get\<close>.
\<close>

theorem agentAssertable_complete:
  assumes "d_Allow (Evaluate p r)" "q_Mode r = ModeGet"
  shows "\<exists>label\<in>set (agentAssertableGetLabels (Check p)).
    label = ''*'' \<or> wildcardMatch label (q_Identity r)"
proof -
  obtain g where g: "g \<in> set (rep_GetOpen (Check p))"
    "g_Identities g = [] \<or> anyWildcard (g_Identities g) (q_Identity r)"
    using get_listed[OF assms] by blast
  have sub: "set (if g_Identities g = [] then [''*''] else g_Identities g)
      \<subseteq> set (agentAssertableGetLabels (Check p))"
    using g(1) by (auto simp: agentAssertableGetLabels_def)
  show ?thesis
  proof (cases "g_Identities g = []")
    case True
    then show ?thesis using sub by auto
  next
    case False
    then show ?thesis using g(2) sub by (auto simp: anyWildcard_iff)
  qed
qed

theorem agentAssertable_complete_witness:
  "\<exists>label\<in>set (agentAssertableGetLabels (Check contained_policy)).
     label = ''*'' \<or> wildcardMatch label ''agent-root''"
proof -
  let ?r = "plain_request ''bao:app/db#pw'' ''agent-root'' ''get''"
  have "d_Allow (Evaluate contained_policy ?r)" by code_simp
  then show ?thesis
    using agentAssertable_complete[of contained_policy ?r] by (simp add: plain_request_def ModeGet_def)
qed

definition crossing_globs :: policy where
  "crossing_globs =
     \<lparr>p_Schema = 1,
      p_Rules = [(allow_rule [''bao:app/*''] [''human''] [''exec''])\<lparr>r_Allow := False\<rparr>,
                 allow_rule [''*#token''] [''human''] [''exec'']]\<rparr>"

text \<open>
  The overlap test behind the shadow findings misses nothing when one of the two rules
  names its refs, identities and modes literally: two rules that match a common request are
  then reported to intersect, whatever their schedules. Between two globs it does miss
  overlaps, so it is not the over-approximation its comment calls it: the two rules of the
  second part both match one request, decide it differently, and get no finding at all.
\<close>

theorem rulesIntersect_misses_only_globs:
  "(rule_literal b \<and> request_star_free r \<and> rule_matches a r \<and> rule_matches b r \<longrightarrow> rulesIntersect a b) \<and>
   (a_Findings (Analyze crossing_globs) = [] \<and>
    (\<forall>rule\<in>set (p_Rules crossing_globs).
       rule_matches rule (plain_request ''bao:app/x#token'' ''human'' ''exec'')))"
proof
  show "rule_literal b \<and> request_star_free r \<and> rule_matches a r \<and> rule_matches b r \<longrightarrow> rulesIntersect a b"
    using literal_overlap[of "r_Secrets b" "q_Ref r" "r_Secrets a"]
      literal_overlap[of "r_Identities b" "q_Identity r" "r_Identities a"]
      literal_overlap[of "r_Modes b" "q_Mode r" "r_Modes a"] schedulesMayOverlap_complete[of a r b]
    by (simp add: rulesIntersect_def rule_literal_def rule_patterns_all request_star_free_def
        rule_matches_iff[of a] rule_matches_iff[of b])
  have "a_Findings (Analyze crossing_globs) = []" by code_simp
  moreover have "list_all (\<lambda>rule. rule_matches rule (plain_request ''bao:app/x#token'' ''human'' ''exec''))
      (p_Rules crossing_globs)" by code_simp
  ultimately show "a_Findings (Analyze crossing_globs) = [] \<and>
    (\<forall>rule\<in>set (p_Rules crossing_globs).
       rule_matches rule (plain_request ''bao:app/x#token'' ''human'' ''exec''))"
    by (simp add: list_all_iff)
qed

theorem rulesIntersect_misses_only_globs_witness:
  "rulesIntersect (allow_rule [''bao:app/*''] [] []) (allow_rule [''bao:app/x#token''] [''human''] [''exec''])"
proof -
  let ?a = "allow_rule [''bao:app/*''] [] []" and ?b = "allow_rule [''bao:app/x#token''] [''human''] [''exec'']"
    and ?r = "plain_request ''bao:app/x#token'' ''human'' ''exec''"
  have "rule_literal ?b \<and> request_star_free ?r \<and> rule_matches ?a ?r \<and> rule_matches ?b ?r"
    by (intro conjI; code_simp)
  then show ?thesis using rulesIntersect_misses_only_globs by blast
qed

end
