(* ===== verification/Policy_Delta.thy ===== *)
theory Policy_Delta
  imports Policy_Analyze
begin

text \<open>
  The authorization delta of two policies (\<open>internal/policy/delta.go\<close>): the probes a
  comparison is made at, the changes found, and the split into expected changes and side
  effects.
\<close>

subsection \<open>Probes and changes\<close>

record probe =
  pr_Ref :: string
  pr_Identity :: string
  pr_Mode :: string
  pr_Agent :: bool

definition probeAgentMarker :: string where "probeAgentMarker = ''(simulated agent)''"

definition probe_Request :: "probe \<Rightarrow> gotime \<Rightarrow> request" where
  "probe_Request p at =
     \<lparr>q_Ref = pr_Ref p, q_Identity = pr_Identity p, q_Mode = pr_Mode p, q_Time = at, q_Caller = [],
      q_Agent = (if pr_Agent p then probeAgentMarker else [])\<rparr>"

definition probe_String :: "probe \<Rightarrow> string" where
  "probe_String p =
     (let ident = (if pr_Identity p = [] then ''(none)'' else pr_Identity p);
          s = ident @ '' / '' @ pr_Mode p @ '' / '' @ pr_Ref p
      in if pr_Agent p then s @ '' / agent'' else s)"

record change =
  c_Probe :: probe
  c_WasAllow :: bool
  c_NowAllow :: bool
  c_WasRule :: int
  c_NowRule :: int

definition Granted :: "change \<Rightarrow> bool" where
  "Granted c \<longleftrightarrow> \<not> c_WasAllow c \<and> c_NowAllow c"

definition change_Describe :: "change \<Rightarrow> string" where
  "change_Describe c =
     (if Granted c then ''NEW ALLOW   '' else ''NOW DENIED  '') @ probe_String (c_Probe c) @
     (if c_NowRule c \<ge> 0 then ''  (rule '' @ itoa (c_NowRule c) @ '')''
      else ''  (no matching rule '' @ emdash @ '' default deny)'')"

record delta =
  dl_Changes :: "change list"
  dl_Probed :: nat
  dl_TimeConditional :: "nat list"
  dl_At :: gotime

definition delta_Empty :: "delta \<Rightarrow> bool" where
  "delta_Empty d \<longleftrightarrow> length (dl_Changes d) = 0"

definition Grants :: "delta \<Rightarrow> change list" where
  "Grants d = filter Granted (dl_Changes d)"

definition Revocations :: "delta \<Rightarrow> change list" where
  "Revocations d = filter (\<lambda>c. c_WasAllow c \<and> \<not> c_NowAllow c) (dl_Changes d)"

definition movedSameWay :: "delta \<Rightarrow> probe \<Rightarrow> change \<Rightarrow> bool" where
  "movedSameWay d p c =
     (case find (\<lambda>other. c_Probe other = p) (dl_Changes d) of
        Some other \<Rightarrow> c_WasAllow other = c_WasAllow c \<and> c_NowAllow other = c_NowAllow c
      | None \<Rightarrow> False)"

definition Unexpected :: "delta \<Rightarrow> probe list \<Rightarrow> change list" where
  "Unexpected d want =
     filter (\<lambda>c.
       if c_Probe c \<in> set want then False
       else if pr_Agent (c_Probe c) then
         (let plain = (c_Probe c)\<lparr>pr_Agent := False\<rparr> in
          if plain \<in> set want \<and> movedSameWay d plain c then False else True)
       else True) (dl_Changes d)"

subsection \<open>The comparison\<close>

definition probe_change :: "policy option \<Rightarrow> policy option \<Rightarrow> gotime \<Rightarrow> probe \<Rightarrow> change option" where
  "probe_change old updated at pr =
     (let req = probe_Request pr at;
          (wasAllow, wasRule) = decide old req;
          (nowAllow, nowRule) = decide updated req
      in if wasAllow = nowAllow then None
         else Some \<lparr>c_Probe = pr, c_WasAllow = wasAllow, c_NowAllow = nowAllow,
                    c_WasRule = wasRule, c_NowRule = nowRule\<rparr>)"

definition DiffAuthorization :: "policy option \<Rightarrow> policy option \<Rightarrow> probe list \<Rightarrow> gotime \<Rightarrow> delta" where
  "DiffAuthorization old updated probes at =
     \<lparr>dl_Changes = List.map_filter (probe_change old updated at) probes,
      dl_Probed = length probes,
      dl_TimeConditional =
        (case updated of
           None \<Rightarrow> []
         | Some p \<Rightarrow> List.map_filter (\<lambda>(i, r). if ruleIsScheduled r then Some i else None)
                     (enumerate 0 (p_Rules p))),
      dl_At = at\<rparr>"

text \<open>
  \<open>ProbeSet\<close>. The three accumulators of its first loop are the refs, the identities (with
  the empty label) and whether some rule sets \<open>deny_agents\<close>.
\<close>

definition named_refs :: "policy option list \<Rightarrow> probe list \<Rightarrow> string list" where
  "named_refs policies extra =
     concat (map (\<lambda>po. case po of None \<Rightarrow> [] | Some p \<Rightarrow> concat (map r_Secrets (p_Rules p))) policies) @
     map pr_Ref extra"

definition named_ids :: "policy option list \<Rightarrow> probe list \<Rightarrow> string list" where
  "named_ids policies extra =
     '''' # concat (map (\<lambda>po. case po of None \<Rightarrow> [] | Some p \<Rightarrow> concat (map r_Identities (p_Rules p))) policies) @
     map pr_Identity extra"

definition agent_matters :: "policy option list \<Rightarrow> bool" where
  "agent_matters policies \<longleftrightarrow>
     list_ex (\<lambda>po. case po of None \<Rightarrow> False | Some p \<Rightarrow> list_ex r_DenyAgents (p_Rules p)) policies"

fun append_unseen :: "probe list \<Rightarrow> probe list \<Rightarrow> probe list" where
  "append_unseen out [] = out"
| "append_unseen out (e # extra) = (if e \<in> set out then append_unseen out extra else append_unseen (out @ [e]) extra)"

definition cross_probes :: "string list \<Rightarrow> string list \<Rightarrow> string list \<Rightarrow> bool \<Rightarrow> probe list" where
  "cross_probes refs ids modes agentMatters =
     concat (map (\<lambda>ref. concat (map (\<lambda>ident. concat (map (\<lambda>m.
       \<lparr>pr_Ref = ref, pr_Identity = ident, pr_Mode = m, pr_Agent = False\<rparr> #
       (if agentMatters then [\<lparr>pr_Ref = ref, pr_Identity = ident, pr_Mode = m, pr_Agent = True\<rparr>] else []))
       modes)) ids)) refs)"

definition ProbeSet :: "policy option list \<Rightarrow> probe list \<Rightarrow> probe list" where
  "ProbeSet policies extra =
     (let refs = named_refs policies extra;
          refs = (if refs = [] then [''*''] else refs);
          keys = (\<lambda>ks. sortedKeys (map (\<lambda>k. (k, True)) ks))
      in append_unseen
           (cross_probes (keys refs) (keys (named_ids policies extra)) [ModeGet, ModeExec, ModeMount]
             (agent_matters policies)) extra)"

definition RuleProbes :: "rule \<Rightarrow> probe list" where
  "RuleProbes r =
     cross_probes (if r_Secrets r = [] then [''*''] else r_Secrets r)
       (if r_Identities r = [] then [''''] else r_Identities r)
       (if r_Modes r = [] then [ModeGet, ModeExec, ModeMount] else r_Modes r) False"

subsection \<open>Lemmas\<close>

lemma decide_agent_irrelevant:
  assumes "\<not> agent_matters [po]"
  shows "decide po (r\<lparr>q_Agent := a\<rparr>) = decide po r"
proof (cases po)
  case (Some p)
  then have "\<forall>rule\<in>set (p_Rules p). \<not> r_DenyAgents rule"
    using assms by (simp add: agent_matters_def list_ex_iff)
  then have "decide_from n rules (r\<lparr>q_Agent := a\<rparr>) = decide_from n rules r" if "set rules \<subseteq> set (p_Rules p)" for n rules
    using that by (induction rules arbitrary: n) (auto simp: rule_outcome_def)
  then show ?thesis using Some by (simp add: decide_def)
qed (simp add: decide_def)

lemma probe_change_Some:
  "probe_change old updated at pr = Some c \<longleftrightarrow>
     fst (decide old (probe_Request pr at)) \<noteq> fst (decide updated (probe_Request pr at)) \<and>
     c = \<lparr>c_Probe = pr, c_WasAllow = fst (decide old (probe_Request pr at)),
          c_NowAllow = fst (decide updated (probe_Request pr at)),
          c_WasRule = snd (decide old (probe_Request pr at)),
          c_NowRule = snd (decide updated (probe_Request pr at))\<rparr>"
  by (auto simp: probe_change_def Let_def split: prod.splits if_splits)

lemma DiffAuthorization_changes:
  "c \<in> set (dl_Changes (DiffAuthorization old updated probes at)) \<longleftrightarrow>
     (\<exists>pr\<in>set probes. probe_change old updated at pr = Some c)"
  by (auto simp: DiffAuthorization_def set_map_filter)

lemma change_exists:
  "(\<exists>c\<in>set (dl_Changes (DiffAuthorization old updated probes at)). c_Probe c = pr \<and> P c) \<longleftrightarrow>
     pr \<in> set probes \<and> (\<exists>c. probe_change old updated at pr = Some c \<and> P c)"
proof -
  have "c_Probe c = pr" if "probe_change old updated at pr = Some c" for c pr
    using that by (simp add: probe_change_Some)
  then show ?thesis unfolding Bex_def DiffAuthorization_changes by blast
qed

lemma set_cross_probes:
  "p \<in> set (cross_probes refs ids modes agentMatters) \<longleftrightarrow>
     pr_Ref p \<in> set refs \<and> pr_Identity p \<in> set ids \<and> pr_Mode p \<in> set modes \<and> (pr_Agent p \<longrightarrow> agentMatters)"
proof -
  have e: "p = \<lparr>pr_Ref = a, pr_Identity = b, pr_Mode = c, pr_Agent = d\<rparr> \<longleftrightarrow>
      pr_Ref p = a \<and> pr_Identity p = b \<and> pr_Mode p = c \<and> pr_Agent p = d" for a b c d
    by (cases p) auto
  show ?thesis
    by (cases agentMatters) (simp_all add: cross_probes_def e image_iff, blast+)
qed

lemma set_append_unseen: "set (append_unseen out extra) = set out \<union> set extra"
  by (induction extra arbitrary: out) auto

lemma distinct_append_unseen: "distinct out \<Longrightarrow> distinct (append_unseen out extra)"
  by (induction extra arbitrary: out) auto

lemma set_ProbeSet:
  "p \<in> set (ProbeSet policies extra) \<longleftrightarrow>
     p \<in> set extra \<or>
     pr_Ref p \<in> set (if named_refs policies extra = [] then [''*''] else named_refs policies extra) \<and>
     pr_Identity p \<in> set (named_ids policies extra) \<and> pr_Mode p \<in> {ModeGet, ModeExec, ModeMount} \<and>
     (pr_Agent p \<longrightarrow> agent_matters policies)"
  by (auto simp: ProbeSet_def Let_def set_append_unseen set_cross_probes image_iff)

text \<open>Two agent probes of one plain probe differ from it only in the marker.\<close>

lemma probe_Request_plain:
  "(probe_Request (p\<lparr>pr_Agent := False\<rparr>) at)\<lparr>q_Agent := q_Agent (probe_Request p at)\<rparr> = probe_Request p at"
  by (simp add: probe_Request_def)

subsection \<open>Properties\<close>

text \<open>
  The delta is exact on its probes: it holds a change for a probe exactly when the old
  and the new policy (none at all denies everything) decide the probe's request differently,
  every change is a grant or a revocation and not both, and the recorded directions are the
  two decisions.
\<close>

theorem DiffAuthorization_exact:
  "((\<exists>c\<in>set (dl_Changes (DiffAuthorization old updated probes at)). c_Probe c = pr \<and> Granted c) \<longleftrightarrow>
      pr \<in> set probes \<and> \<not> fst (decide old (probe_Request pr at)) \<and> fst (decide updated (probe_Request pr at))) \<and>
   ((\<exists>c\<in>set (dl_Changes (DiffAuthorization old updated probes at)). c_Probe c = pr \<and> \<not> Granted c) \<longleftrightarrow>
      pr \<in> set probes \<and> fst (decide old (probe_Request pr at)) \<and> \<not> fst (decide updated (probe_Request pr at))) \<and>
   length (Grants (DiffAuthorization old updated probes at)) +
     length (Revocations (DiffAuthorization old updated probes at)) =
     length (dl_Changes (DiffAuthorization old updated probes at))"
proof (intro conjI)
  let ?d = "DiffAuthorization old updated probes at"
  have "\<forall>c\<in>set (dl_Changes ?d). (c_WasAllow c \<and> \<not> c_NowAllow c) \<longleftrightarrow> \<not> Granted c"
    by (auto simp: DiffAuthorization_changes probe_change_Some Granted_def)
  then have "Revocations ?d = filter (\<lambda>c. \<not> Granted c) (dl_Changes ?d)"
    unfolding Revocations_def by (intro filter_cong) auto
  then show "length (Grants ?d) + length (Revocations ?d) = length (dl_Changes ?d)"
    by (simp add: Grants_def sum_length_filter_compl)
qed (simp_all only: change_exists, auto simp: probe_change_Some Granted_def)

text \<open>
  The probe set looks wherever the policies speak: every ref and identity pattern of
  every rule, the empty label and every mode, \<open>get\<close> included even if no policy names it; and
  leaving out the agent probes loses nothing, since they are left out only when every policy
  decides agent and plain requests alike, with the same rule.
\<close>

theorem ProbeSet_covers:
  assumes "Some p \<in> set policies" "rule \<in> set (p_Rules p)" "ref \<in> set (r_Secrets rule)"
    and "ident \<in> set (r_Identities rule) \<or> ident = []" "mode \<in> {ModeGet, ModeExec, ModeMount}"
  shows "\<lparr>pr_Ref = ref, pr_Identity = ident, pr_Mode = mode, pr_Agent = False\<rparr> \<in> set (ProbeSet policies extra) \<and>
    (\<lparr>pr_Ref = ref, pr_Identity = ident, pr_Mode = mode, pr_Agent = True\<rparr> \<in> set (ProbeSet policies extra) \<or>
     decide (Some p) (probe_Request \<lparr>pr_Ref = ref, pr_Identity = ident, pr_Mode = mode, pr_Agent = True\<rparr> at) =
     decide (Some p) (probe_Request \<lparr>pr_Ref = ref, pr_Identity = ident, pr_Mode = mode, pr_Agent = False\<rparr> at))"
proof -
  have r: "ref \<in> set (named_refs policies extra)"
    using assms(1-3) by (force simp: named_refs_def)
  have i: "ident \<in> set (named_ids policies extra)"
    using assms(1,2,4) by (force simp: named_ids_def)
  have n: "named_refs policies extra \<noteq> []" using r by auto
  show ?thesis
  proof (cases "agent_matters policies")
    case True
    then show ?thesis using r i n assms(5) by (simp add: set_ProbeSet)
  next
    case False
    then have "\<not> agent_matters [Some p]" using assms(1) by (auto simp: agent_matters_def list_ex_iff)
    then have d: "decide (Some p) (probe_Request \<lparr>pr_Ref = ref, pr_Identity = ident, pr_Mode = mode, pr_Agent = True\<rparr> at) =
        decide (Some p) (probe_Request \<lparr>pr_Ref = ref, pr_Identity = ident, pr_Mode = mode, pr_Agent = False\<rparr> at)"
      using decide_agent_irrelevant[where po = "Some p" and r = "probe_Request \<lparr>pr_Ref = ref, pr_Identity = ident, pr_Mode = mode, pr_Agent = False\<rparr> at"
          and a = probeAgentMarker]
      by (simp add: probe_Request_def)
    show ?thesis using r i n assms(5) d by (simp add: set_ProbeSet)
  qed
qed

theorem ProbeSet_covers_witness:
  "\<lparr>pr_Ref = ''bao:app/*'', pr_Identity = [], pr_Mode = ''get'', pr_Agent = False\<rparr> \<in>
     set (ProbeSet [None, Some contained_policy] [])"
  using ProbeSet_covers[of contained_policy "[None, Some contained_policy]" "p_Rules contained_policy ! 1"
      "''bao:app/*''" "[]" ModeGet "[]"]
  by (simp add: contained_policy_def allow_rule_def ModeGet_def)

lemma ball_changes:
  "(\<forall>c\<in>set (dl_Changes (DiffAuthorization old updated probes at)). P (c_Probe c) (c_WasAllow c) (c_NowAllow c)) \<longleftrightarrow>
     (\<forall>pr\<in>set probes. fst (decide old (probe_Request pr at)) = fst (decide updated (probe_Request pr at)) \<or>
        P pr (fst (decide old (probe_Request pr at))) (fst (decide updated (probe_Request pr at))))"
  (is "(\<forall>c\<in>?C. ?Q c) \<longleftrightarrow> ?r")
proof
  assume l: "\<forall>c\<in>?C. ?Q c"
  show ?r
  proof (intro ballI, unfold disj_imp, rule impI)
    fix pr assume pr: "pr \<in> set probes"
      and ne: "fst (decide old (probe_Request pr at)) \<noteq> fst (decide updated (probe_Request pr at))"
    then obtain c where c: "probe_change old updated at pr = Some c"
      using probe_change_Some by blast
    then have "c \<in> ?C" using pr by (auto simp: DiffAuthorization_changes)
    then have "?Q c" using l by blast
    then show "P pr (fst (decide old (probe_Request pr at))) (fst (decide updated (probe_Request pr at)))"
      using c unfolding probe_change_Some by simp
  qed
next
  assume r: ?r
  show "\<forall>c\<in>?C. ?Q c"
  proof
    fix c assume "c \<in> ?C"
    then obtain pr where pr: "pr \<in> set probes" "probe_change old updated at pr = Some c"
      unfolding DiffAuthorization_changes by blast
    with r have "fst (decide old (probe_Request pr at)) = fst (decide updated (probe_Request pr at)) \<or>
        P pr (fst (decide old (probe_Request pr at))) (fst (decide updated (probe_Request pr at)))" by blast
    then show "?Q c" using pr(2) unfolding probe_change_Some by simp
  qed
qed

text \<open>The first change of a probe is the change of that probe.\<close>

lemma movedSameWay_decisions:
  assumes "c \<in> set (dl_Changes (DiffAuthorization old updated probes at))"
  shows "movedSameWay (DiffAuthorization old updated probes at) p c \<longleftrightarrow>
    p \<in> set probes \<and> fst (decide old (probe_Request p at)) = c_WasAllow c \<and>
    fst (decide updated (probe_Request p at)) = c_NowAllow c"
proof -
  let ?d = "DiffAuthorization old updated probes at"
  have c: "c_WasAllow c \<noteq> c_NowAllow c"
    using assms by (auto simp: DiffAuthorization_changes probe_change_Some)
  show ?thesis
  proof (cases "find (\<lambda>other. c_Probe other = p) (dl_Changes ?d)")
    case None
    then have none: "\<forall>x\<in>set (dl_Changes ?d). c_Probe x \<noteq> p" by (auto simp: find_None_iff)
    have "fst (decide old (probe_Request p at)) = fst (decide updated (probe_Request p at))" if "p \<in> set probes"
    proof (rule ccontr)
      assume "fst (decide old (probe_Request p at)) \<noteq> fst (decide updated (probe_Request p at))"
      then obtain x where x: "probe_change old updated at p = Some x" "c_Probe x = p"
        using probe_change_Some[of old updated at p] by auto
      then have "x \<in> set (dl_Changes ?d)" using that DiffAuthorization_changes by blast
      then show False using none x(2) by blast
    qed
    then show ?thesis using None c by (auto simp: movedSameWay_def)
  next
    case (Some x)
    then have x: "x \<in> set (dl_Changes ?d)" "c_Probe x = p"
      by (auto simp: find_Some_iff)
    then have "p \<in> set probes \<and> c_WasAllow x = fst (decide old (probe_Request p at)) \<and>
        c_NowAllow x = fst (decide updated (probe_Request p at))"
      by (auto simp: DiffAuthorization_changes probe_change_Some)
    then show ?thesis using Some by (auto simp: movedSameWay_def)
  qed
qed

text \<open>
  Side effects are neither invented nor hidden: a proposal has no unexpected change
  exactly when every probed request the two policies decide differently was asked for, or is
  the agent-context twin of one asked for that moved from the same old to the same new
  decision.
\<close>

theorem Unexpected_none_iff:
  "Unexpected (DiffAuthorization old updated probes at) want = [] \<longleftrightarrow>
   (\<forall>pr\<in>set probes.
      fst (decide old (probe_Request pr at)) = fst (decide updated (probe_Request pr at)) \<or>
      pr \<in> set want \<or>
      (pr_Agent pr \<and> pr\<lparr>pr_Agent := False\<rparr> \<in> set want \<and> pr\<lparr>pr_Agent := False\<rparr> \<in> set probes \<and>
       fst (decide old (probe_Request (pr\<lparr>pr_Agent := False\<rparr>) at)) = fst (decide old (probe_Request pr at)) \<and>
       fst (decide updated (probe_Request (pr\<lparr>pr_Agent := False\<rparr>) at)) = fst (decide updated (probe_Request pr at))))"
  (is "?l \<longleftrightarrow> ?r")
proof -
  let ?d = "DiffAuthorization old updated probes at"
  have "?l \<longleftrightarrow> (\<forall>c\<in>set (dl_Changes ?d). c_Probe c \<in> set want \<or>
      (pr_Agent (c_Probe c) \<and> (c_Probe c)\<lparr>pr_Agent := False\<rparr> \<in> set want \<and>
       movedSameWay ?d ((c_Probe c)\<lparr>pr_Agent := False\<rparr>) c))"
    unfolding Unexpected_def filter_empty_conv Let_def by meson
  also have "\<dots> \<longleftrightarrow> (\<forall>c\<in>set (dl_Changes ?d). c_Probe c \<in> set want \<or>
      (pr_Agent (c_Probe c) \<and> (c_Probe c)\<lparr>pr_Agent := False\<rparr> \<in> set want \<and>
       (c_Probe c)\<lparr>pr_Agent := False\<rparr> \<in> set probes \<and>
       fst (decide old (probe_Request ((c_Probe c)\<lparr>pr_Agent := False\<rparr>) at)) = c_WasAllow c \<and>
       fst (decide updated (probe_Request ((c_Probe c)\<lparr>pr_Agent := False\<rparr>) at)) = c_NowAllow c))"
    using movedSameWay_decisions by (intro ball_cong) blast+
  also have "\<dots> \<longleftrightarrow> ?r"
    by (rule ball_changes[where P = "\<lambda>q was now. q \<in> set want \<or> (pr_Agent q \<and> q\<lparr>pr_Agent := False\<rparr> \<in> set want \<and>
       q\<lparr>pr_Agent := False\<rparr> \<in> set probes \<and>
       fst (decide old (probe_Request (q\<lparr>pr_Agent := False\<rparr>) at)) = was \<and>
       fst (decide updated (probe_Request (q\<lparr>pr_Agent := False\<rparr>) at)) = now)"])
  finally show ?thesis .
qed

text \<open>Adding a rule for one ref on top of no policy moves that rule's own probes only.\<close>

theorem Unexpected_none_iff_witness:
  "\<not> fst (decide (Some \<lparr>p_Schema = 1, p_Rules = [allow_rule [''bao:a''] [''x''] [''exec'']]\<rparr>)
     (probe_Request \<lparr>pr_Ref = ''bao:a'', pr_Identity = ''x'', pr_Mode = ''get'', pr_Agent = False\<rparr> example_day))"
proof -
  let ?rule = "allow_rule [''bao:a''] [''x''] [''exec'']"
  let ?new = "\<lparr>p_Schema = 1, p_Rules = [?rule]\<rparr>"
  let ?probes = "ProbeSet [None, Some ?new] []"
  let ?pr = "\<lparr>pr_Ref = ''bao:a'', pr_Identity = ''x'', pr_Mode = ''get'', pr_Agent = False\<rparr>"
  have u: "Unexpected (DiffAuthorization None (Some ?new) ?probes example_day) (RuleProbes ?rule) = []" by code_simp
  have m: "list_ex (\<lambda>q. q = ?pr) ?probes" by code_simp
  have n: "\<not> list_ex (\<lambda>q. q = ?pr) (RuleProbes ?rule)" by code_simp
  have "fst (decide None (probe_Request ?pr example_day)) = fst (decide (Some ?new) (probe_Request ?pr example_day))"
  proof -
    have mem: "?pr \<in> set ?probes" using m unfolding list_ex_iff by blast
    have nm: "?pr \<notin> set (RuleProbes ?rule)" using n unfolding list_ex_iff by blast
    have "\<not> pr_Agent ?pr" by simp
    then show ?thesis
      using bspec[OF u[unfolded Unexpected_none_iff] mem] nm by blast
  qed
  then show ?thesis by (simp add: decide_def[of None])
qed

end
