(* ===== verification/Policy_Edit.thy ===== *)
theory Policy_Edit
  imports Policy_Delta
begin

text \<open>
  Building a rule from a grant request, working out where it may be placed and inserting it
  (\<open>internal/policy/edit.go\<close>).
\<close>

subsection \<open>Building a rule\<close>

record grant_request =
  gr_Tool :: string
  gr_Goal :: string
  gr_Secrets :: "string list"
  gr_Identities :: "string list"
  gr_Modes :: "string list"
  gr_Weekdays :: "string list"
  gr_Monthdays :: "int list"
  gr_Hours :: string

definition DefaultModes :: "string list" where "DefaultModes = [ModeExec, ModeMount]"

definition GrantsRawGet :: "grant_request \<Rightarrow> bool" where
  "GrantsRawGet g =
     (let modes = (if gr_Modes g = [] then DefaultModes else gr_Modes g) in list_ex (\<lambda>m. m = ModeGet) modes)"

definition describeGrant :: "grant_request \<Rightarrow> string" where
  "describeGrant g =
     (if gr_Tool g \<noteq> [] \<and> gr_Goal g \<noteq> [] then gr_Tool g @ '': '' @ gr_Goal g
      else if gr_Tool g \<noteq> [] then gr_Tool g
      else if gr_Goal g \<noteq> [] then gr_Goal g
      else '''')"

datatype grant_error = GrantNoSecrets | GrantNoIdentities | GrantUnknownMode string | GrantInvalid policy_error

definition BuildGrantRule :: "grant_request \<Rightarrow> grant_error + rule" where
  "BuildGrantRule g =
     (if gr_Secrets g = [] then Inl GrantNoSecrets
      else if gr_Identities g = [] then Inl GrantNoIdentities
      else
        let modes = (if gr_Modes g = [] then DefaultModes else gr_Modes g) in
        case find (\<lambda>m. \<not> knownMode m) modes of
          Some m \<Rightarrow> Inl (GrantUnknownMode m)
        | None \<Rightarrow>
            let r = \<lparr>r_Allow = True, r_Description = describeGrant g, r_Secrets = gr_Secrets g,
                     r_Identities = gr_Identities g, r_Modes = modes, r_Weekdays = gr_Weekdays g,
                     r_Monthdays = gr_Monthdays g, r_Hours = gr_Hours g, r_DenyAgents = False\<rparr>
            in case validate \<lparr>p_Schema = SchemaVersion, p_Rules = [r]\<rparr> of
                 Some e \<Rightarrow> Inl (GrantInvalid e)
               | None \<Rightarrow> Inr r)"

subsection \<open>Placing it\<close>

datatype place_error =
    AmbiguousOverlap "nat list" nat nat
  | CannotSatisfy "nat list" "nat list"

record placement =
  pl_Index :: nat
  pl_Low :: nat
  pl_High :: nat
  pl_BlockedBy :: "nat list"
  pl_WouldBlock :: "nat list"
  pl_Ambiguous :: "nat list"
  pl_CoveredBy :: int
  pl_Err :: "place_error option"

definition placement_Redundant :: "placement \<Rightarrow> bool" where
  "placement_Redundant p \<longleftrightarrow> pl_CoveredBy p \<ge> 0"

text \<open>One turn of the loop of \<open>AnalyzeRuleInsertion\<close>.\<close>

definition place_step :: "rule \<Rightarrow> nat \<times> rule \<Rightarrow> placement \<Rightarrow> placement" where
  "place_step proposed = (\<lambda>(i, existing) pl.
     let sameOutcome = (r_Allow existing = r_Allow proposed);
         pl = (if sameOutcome \<and> pl_CoveredBy pl < 0 \<and> ruleCovers existing proposed
               then pl\<lparr>pl_CoveredBy := int i\<rparr> else pl)
     in if sameOutcome \<or> \<not> rulesIntersect existing proposed then pl
        else if ruleCovers existing proposed then
          (pl\<lparr>pl_BlockedBy := pl_BlockedBy pl @ [i]\<rparr>)\<lparr>pl_High := (if i < pl_High pl then i else pl_High pl)\<rparr>
        else if ruleCovers proposed existing then
          (pl\<lparr>pl_WouldBlock := pl_WouldBlock pl @ [i]\<rparr>)\<lparr>pl_Low := (if i + 1 > pl_Low pl then i + 1 else pl_Low pl)\<rparr>
        else pl\<lparr>pl_Ambiguous := pl_Ambiguous pl @ [i]\<rparr>)"

definition AnalyzeRuleInsertion :: "policy \<Rightarrow> rule \<Rightarrow> placement" where
  "AnalyzeRuleInsertion p proposed =
     (let pl = fold (place_step proposed) (enumerate 0 (p_Rules p))
                 \<lparr>pl_Index = 0, pl_Low = 0, pl_High = length (p_Rules p), pl_BlockedBy = [],
                  pl_WouldBlock = [], pl_Ambiguous = [], pl_CoveredBy = -1, pl_Err = None\<rparr>
      in if pl_Ambiguous pl \<noteq> [] then
           pl\<lparr>pl_Err := Some (AmbiguousOverlap (pl_Ambiguous pl) (last (pl_Ambiguous pl) + 1) (hd (pl_Ambiguous pl)))\<rparr>
         else if pl_Low pl > pl_High pl then
           pl\<lparr>pl_Err := Some (CannotSatisfy (pl_BlockedBy pl) (pl_WouldBlock pl))\<rparr>
         else pl\<lparr>pl_Index := pl_Low pl\<rparr>)"

definition ruleList :: "nat list \<Rightarrow> string" where
  "ruleList idx =
     (if length idx = 0 then ''no rule''
      else if length idx = 1 then ''rule '' @ itoa (int (hd idx))
      else ''rules '' @ join_with '', '' (map (\<lambda>n. itoa (int n)) idx))"

datatype insert_error = IndexOutOfRange int nat

definition InsertRule :: "policy \<Rightarrow> rule \<Rightarrow> int \<Rightarrow> insert_error + policy" where
  "InsertRule p r i =
     (if i < 0 \<or> i > int (length (p_Rules p)) then Inl (IndexOutOfRange i (length (p_Rules p)))
      else
        let out = \<lparr>p_Schema = p_Schema p,
                   p_Rules = take (nat i) (p_Rules p) @ [r] @ drop (nat i) (p_Rules p)\<rparr>
        in Inr (if p_Schema out = 0 then out\<lparr>p_Schema := SchemaVersion\<rparr> else out))"

subsection \<open>Lemmas\<close>

lemma InsertRule_Inr:
  "InsertRule p r i = Inr p' \<Longrightarrow>
   0 \<le> i \<and> nat i \<le> length (p_Rules p) \<and> p_Rules p' = take (nat i) (p_Rules p) @ r # drop (nat i) (p_Rules p)"
  by (auto simp: InsertRule_def Let_def split: if_splits)

lemma BuildGrantRule_Inr:
  assumes "BuildGrantRule g = Inr r"
  shows "r_Allow r \<and> \<not> r_DenyAgents r \<and> r_Secrets r = gr_Secrets g \<and> r_Secrets r \<noteq> [] \<and>
    r_Identities r = gr_Identities g \<and> r_Identities r \<noteq> [] \<and>
    r_Modes r = (if gr_Modes g = [] then DefaultModes else gr_Modes g) \<and>
    (\<forall>m\<in>set (r_Modes r). knownMode m) \<and> validate \<lparr>p_Schema = SchemaVersion, p_Rules = [r]\<rparr> = None"
proof -
  let ?modes = "if gr_Modes g = [] then DefaultModes else gr_Modes g"
  have f: "find (\<lambda>m. \<not> knownMode m) ?modes = None"
    using assms by (auto simp: BuildGrantRule_def Let_def split: if_splits option.splits)
  show ?thesis
    using assms f[unfolded find_None_iff]
    by (auto simp: BuildGrantRule_def Let_def f split: if_splits option.splits)
qed

text \<open>
  The invariant of the loop after the rules below \<open>n\<close>: each rule with the other outcome that
  intersects the proposal is in the list its case names, and the bounds respect it.
\<close>

definition place_inv :: "rule list \<Rightarrow> rule \<Rightarrow> nat \<Rightarrow> placement \<Rightarrow> bool" where
  "place_inv rules proposed n pl \<longleftrightarrow>
     (\<forall>j<n. r_Allow (rules ! j) \<noteq> r_Allow proposed \<and> rulesIntersect (rules ! j) proposed \<longrightarrow>
        (if ruleCovers (rules ! j) proposed then pl_High pl \<le> j
         else if ruleCovers proposed (rules ! j) then j < pl_Low pl \<and> j \<in> set (pl_WouldBlock pl)
         else j \<in> set (pl_Ambiguous pl))) \<and>
     pl_High pl \<le> length rules"

lemma place_step_inv:
  assumes "place_inv rules proposed n pl" "n < length rules"
  shows "place_inv rules proposed (Suc n) (place_step proposed (n, rules ! n) pl)"
  using assms unfolding place_inv_def
  by (auto simp: place_step_def Let_def less_Suc_eq)

lemma place_fold_inv:
  "n + length xs = length rules \<Longrightarrow> xs = drop n rules \<Longrightarrow> place_inv rules proposed n pl \<Longrightarrow>
   place_inv rules proposed (length rules) (fold (place_step proposed) (enumerate n xs) pl)"
proof (induction xs arbitrary: n pl)
  case (Cons x xs)
  have "n < length rules" using Cons.prems(1) by simp
  then have n: "n < length rules" "x = rules ! n" "xs = drop (Suc n) rules"
    using Cons.prems(2) Cons_nth_drop_Suc[of n rules] by (metis list.inject)+
  have "place_inv rules proposed (Suc n) (place_step proposed (n, x) pl)"
    using place_step_inv[OF Cons.prems(3) n(1)] n(2) by simp
  then show ?case
    using Cons.IH[of "Suc n" "place_step proposed (n, x) pl"] Cons.prems(1) n(3) by simp
qed simp

lemma AnalyzeRuleInsertion_inv:
  assumes "pl_Err (AnalyzeRuleInsertion p proposed) = None"
  shows "place_inv (p_Rules p) proposed (length (p_Rules p)) (AnalyzeRuleInsertion p proposed) \<and>
    pl_Ambiguous (AnalyzeRuleInsertion p proposed) = [] \<and>
    pl_Low (AnalyzeRuleInsertion p proposed) \<le> pl_High (AnalyzeRuleInsertion p proposed) \<and>
    pl_Index (AnalyzeRuleInsertion p proposed) = pl_Low (AnalyzeRuleInsertion p proposed)"
proof -
  let ?init = "\<lparr>pl_Index = 0, pl_Low = 0, pl_High = length (p_Rules p), pl_BlockedBy = [],
     pl_WouldBlock = [], pl_Ambiguous = [], pl_CoveredBy = -1, pl_Err = None\<rparr>"
  have "place_inv (p_Rules p) proposed 0 ?init" by (simp add: place_inv_def)
  from place_fold_inv[OF _ _ this, of "p_Rules p"]
  have "place_inv (p_Rules p) proposed (length (p_Rules p))
      (fold (place_step proposed) (enumerate 0 (p_Rules p)) ?init)" by simp
  then show ?thesis
    using assms by (auto simp: AnalyzeRuleInsertion_def Let_def place_inv_def split: if_splits)
qed

lemma insert_outcome:
  assumes "p_Rules p' = xs @ r # ys" "p_Rules p = xs @ ys"
  shows "d_Allow (Evaluate p' q) =
    (if \<exists>x\<in>set xs. rule_matches x q then d_Allow (Evaluate p q)
     else if rule_matches r q then rule_decision r q else d_Allow (Evaluate p q))"
proof (cases "\<exists>x\<in>set xs. rule_matches x q")
  case True
  then show ?thesis
    using assms pol.allows_append[of xs "r # ys" q] pol.allows_append[of xs ys q]
    by (simp add: Evaluate_allows)
next
  case False
  then show ?thesis
    using assms pol.insert_decides[of xs q r ys] pol.insert_irrelevant[of r q xs ys]
    by (simp add: Evaluate_allows)
qed

subsection \<open>Properties\<close>

text \<open>
  A built grant is a valid rule for named secrets and identities, and it permits a raw
  value exactly when the request asked for one: naming no modes gives brokered delivery only.
\<close>

theorem BuildGrantRule_safe:
  assumes "BuildGrantRule g = Inr r"
  shows "validate \<lparr>p_Schema = SchemaVersion, p_Rules = [r]\<rparr> = None \<and> r_Secrets r \<noteq> [] \<and> r_Identities r \<noteq> [] \<and>
    (permitsGet r \<longleftrightarrow> GrantsRawGet g) \<and> (gr_Modes g = [] \<longrightarrow> \<not> permitsGet r)"
proof -
  note b = BuildGrantRule_Inr[OF assms]
  have "permitsGet r \<longleftrightarrow> ModeGet \<in> set (r_Modes r)"
    using b known_modes_match[of "r_Modes r" ModeGet] by (auto simp: permitsGet_def DefaultModes_def split: if_splits)
  then show ?thesis
    using b by (auto simp: GrantsRawGet_def Let_def list_ex_iff DefaultModes_def ModeGet_def ModeExec_def ModeMount_def
        split: if_splits)
qed

definition example_grant :: grant_request where
  "example_grant =
     \<lparr>gr_Tool = ''deploy'', gr_Goal = ''push images'', gr_Secrets = [''bao:app/gitea#token''],
      gr_Identities = [''ci''], gr_Modes = [], gr_Weekdays = [''Mon'', ''Tue''], gr_Monthdays = [],
      gr_Hours = ''08:00-18:00''\<rparr>"

theorem BuildGrantRule_safe_witness:
  "\<exists>r. BuildGrantRule example_grant = Inr r \<and> \<not> permitsGet r"
proof -
  have "isl (BuildGrantRule example_grant) = False" by code_simp
  then obtain r where "BuildGrantRule example_grant = Inr r" by (cases "BuildGrantRule example_grant") auto
  moreover have "gr_Modes example_grant = []" by (simp add: example_grant_def)
  ultimately show ?thesis using BuildGrantRule_safe by blast
qed

text \<open>
  A grant never revokes: whatever index a built rule is inserted at, each request that
  was allowed stays allowed, agent contexts included, and a request the rule does not match is
  decided as before. An index outside the list is refused.
\<close>

theorem grant_never_revokes:
  assumes "BuildGrantRule g = Inr r" "InsertRule p r i = Inr p'"
  shows "0 \<le> i \<and> i \<le> int (length (p_Rules p)) \<and>
    (d_Allow (Evaluate p q) \<longrightarrow> d_Allow (Evaluate p' q)) \<and>
    (\<not> rule_matches r q \<longrightarrow> d_Allow (Evaluate p' q) = d_Allow (Evaluate p q))"
proof -
  have "r_Allow r" "\<not> r_DenyAgents r" using BuildGrantRule_Inr[OF assms(1)] by auto
  then show ?thesis
    using InsertRule_Inr[OF assms(2)] insert_outcome[of p' "take (nat i) (p_Rules p)" r "drop (nat i) (p_Rules p)" p q]
    by (auto simp: rule_decision_def rule_outcome_def)
qed

theorem grant_never_revokes_witness:
  "\<exists>r p'. BuildGrantRule example_grant = Inr r \<and> InsertRule buried_deny r 1 = Inr p' \<and>
     d_Allow (Evaluate p' (plain_request ''bao:app/db#pw'' ''agent-x'' ''get''))"
proof -
  let ?q = "plain_request ''bao:app/db#pw'' ''agent-x'' ''get''"
  have "isl (BuildGrantRule example_grant) = False" by code_simp
  then obtain r where r: "BuildGrantRule example_grant = Inr r" by (cases "BuildGrantRule example_grant") auto
  obtain p' where p': "InsertRule buried_deny r 1 = Inr p'"
    by (simp add: InsertRule_def buried_deny_def Let_def)
  have "d_Allow (Evaluate buried_deny ?q)" by code_simp
  then show ?thesis using grant_never_revokes[OF r p', of ?q] r p' by blast
qed



definition brokered_guard :: policy where
  "brokered_guard =
     \<lparr>p_Schema = 1,
      p_Rules = [(allow_rule [''bao:app/db#pw''] [] [''exec'', ''mount''])\<lparr>r_DenyAgents := True\<rparr>,
                 allow_rule [] [] [''exec'', ''mount'']]\<rparr>"

text \<open>
  The placement looks at \<open>allow\<close> only, never at \<open>deny_agents\<close>, and its answer can be
  wrong in an agent context. For a grant that contains a rule keeping agents off one secret it
  reports no conflict and the top position, where agents gain that secret; and a grant for
  exactly that secret is called redundant although an agent would be refused today and allowed
  by the proposal. The structural analysis accepts the first edit too; only the authorization
  delta reports the agent's gain as a side effect.
\<close>

theorem placement_ignores_deny_agents:
  "pl_Err (AnalyzeRuleInsertion brokered_guard (allow_rule [''bao:app/*''] [''ci''] [''exec''])) = None \<and>
   pl_Index (AnalyzeRuleInsertion brokered_guard (allow_rule [''bao:app/*''] [''ci''] [''exec''])) = 0 \<and>
   \<not> d_Allow (Evaluate brokered_guard (agent_request ''ci'')) \<and>
   d_Allow (Evaluate \<lparr>p_Schema = 1, p_Rules = allow_rule [''bao:app/*''] [''ci''] [''exec''] # p_Rules brokered_guard\<rparr>
     (agent_request ''ci'')) \<and>
   placement_Redundant (AnalyzeRuleInsertion brokered_guard (allow_rule [''bao:app/db#pw''] [''ci''] [''exec''])) \<and>
   (let old = brokered_guard; r = allow_rule [''bao:app/*''] [''ci''] [''exec''];
        new = \<lparr>p_Schema = 1, p_Rules = r # p_Rules old\<rparr>
    in analysis_OK (Analyze new) \<and>
       Unexpected (DiffAuthorization (Some old) (Some new) (ProbeSet [Some old, Some new] []) example_day)
         (RuleProbes r) \<noteq> [])"
  by (intro conjI; code_simp)

end
