(* ===== verification/Policy_Write.thy ===== *)
theory Policy_Write
  imports Policy_Edit
begin

text \<open>
  Loading and installing a policy file (\<open>LoadFile\<close> and \<open>Parse\<close> of
  \<open>internal/policy/policy.go\<close>, and \<open>internal/policy/write.go\<close>) over a file system in which every
  system call can fail and the machine can stop after every step.

  An operation returns the list of the file system states it goes through, in order, and its
  result; a crash may happen in any of them. A file knows whether its contents were flushed:
  after a crash a flushed file is intact and the contents of any other are arbitrary.

  The encoder and the decoder of \<open>encoding/json\<close> are the parameters \<open>marshal\<close> and \<open>decode\<close>.
\<close>

subsection \<open>Files\<close>

record fsfile =
  fl_data :: string
  fl_mode :: nat
  fl_synced :: bool

type_synonym fsys = "string \<Rightarrow> fsfile option"

text \<open>The mode \<open>0o600\<close>.\<close>

definition FileMode :: nat where "FileMode = 384"

text \<open>What the file system may hold after a crash in state \<open>s\<close>.\<close>

definition crash_of :: "fsys \<Rightarrow> fsys \<Rightarrow> bool" where
  "crash_of s s' \<longleftrightarrow>
     (\<forall>q. case s q of
            None \<Rightarrow> s' q = None
          | Some f \<Rightarrow> if fl_synced f then s' q = Some f else (\<exists>d. s' q = Some (f\<lparr>fl_data := d\<rparr>)))"

subsection \<open>Parsing and loading\<close>

datatype load_error = DecodeError string | TrailingData | Invalid policy_error | ReadError

fun contains_sub :: "string \<Rightarrow> string \<Rightarrow> bool" where
  "contains_sub [] sub = (sub = [])"
| "contains_sub (x # xs) sub = (has_prefix (x # xs) sub \<or> contains_sub xs sub)"

definition staleBinaryHint :: "string \<Rightarrow> string" where
  "staleBinaryHint err =
     (if \<not> contains_sub err ''unknown field'' then ''''
      else newline @ ''this parzival does not understand that field '' @ emdash @
           '' it is probably older than the policy.'' @ newline @
           ''rebuild/upgrade parzival, or remove the field. Refusing rather than enforcing a weaker rule than written.'')"

text \<open>
  What the decoder does with the bytes: the text of its error, or the decoded policy and
  whether \<open>More\<close> sees another element.
\<close>

type_synonym decoder = "string \<Rightarrow> string + policy \<times> bool"

definition Parse :: "decoder \<Rightarrow> string \<Rightarrow> load_error + policy" where
  "Parse decode data =
     (case decode data of
        Inl err \<Rightarrow> Inl (DecodeError (err @ staleBinaryHint err))
      | Inr (p, trailing) \<Rightarrow>
          (if trailing then Inl TrailingData
           else (case validate p of Some e \<Rightarrow> Inl (Invalid e) | None \<Rightarrow> Inr p)))"

text \<open>\<open>readable\<close> is whether reading an existing file succeeds. A missing file is not an error.\<close>

definition LoadFile :: "decoder \<Rightarrow> bool \<Rightarrow> fsys \<Rightarrow> string \<Rightarrow> load_error + policy option" where
  "LoadFile decode readable fs path =
     (case fs path of
        None \<Rightarrow> Inr None
      | Some f \<Rightarrow>
          if \<not> readable then Inl ReadError
          else case Parse decode (fl_data f) of Inl e \<Rightarrow> Inl e | Inr p \<Rightarrow> Inr (Some p))"

lemma Parse_valid: "Parse decode data = Inr p \<Longrightarrow> validate p = None"
  by (auto simp: Parse_def split: sum.splits prod.splits if_splits option.splits)

subsection \<open>Writing\<close>

datatype write_error =
    MarshalFailed string | Unloadable load_error | MkdirFailed | CreateTempFailed | ChmodFailed
  | WriteFailed | SyncFailed | CloseFailed | RenameFailed

text \<open>
  How the system calls of one write turn out: the name \<open>CreateTemp\<close> settles on (it opens with
  \<open>O_EXCL\<close>, so a name that exists is a failure), for \<open>write\<close> the number of bytes that got
  through when it fails, and for the rest whether they succeed.
\<close>

record wenv =
  we_mkdir :: bool
  we_temp :: "string option"
  we_chmod :: bool
  we_write :: "nat option"
  we_sync :: bool
  we_close :: bool
  we_rename :: bool
  we_remove :: bool

type_synonym encoder = "policy \<Rightarrow> string + string"

text \<open>The states a write of \<open>data\<close> to the open file \<open>tmp\<close> goes through.\<close>

definition write_states :: "fsys \<Rightarrow> string \<Rightarrow> nat \<Rightarrow> string \<Rightarrow> nat \<Rightarrow> fsys list" where
  "write_states fs tmp mode data n =
     map (\<lambda>k. fs(tmp \<mapsto> \<lparr>fl_data = take k data, fl_mode = mode, fl_synced = False\<rparr>)) [0..<Suc n]"

text \<open>The part of \<open>WriteAtomic\<close> after the temporary file exists.\<close>

definition install_temp :: "wenv \<Rightarrow> string \<Rightarrow> string \<Rightarrow> string \<Rightarrow> fsys \<Rightarrow> fsys list \<times> write_error option" where
  "install_temp env tmp path data fs =
     (let cleanup = (\<lambda>st. if we_remove env then st(tmp := None) else st);
          fs1 = fs(tmp \<mapsto> \<lparr>fl_data = [], fl_mode = FileMode, fl_synced = False\<rparr>);
          n = (case we_write env of None \<Rightarrow> length data | Some n \<Rightarrow> min n (length data));
          ws = write_states fs1 tmp FileMode data n;
          fs2 = fs1(tmp \<mapsto> \<lparr>fl_data = take n data, fl_mode = FileMode, fl_synced = False\<rparr>);
          fs3 = fs2(tmp \<mapsto> \<lparr>fl_data = data, fl_mode = FileMode, fl_synced = True\<rparr>)
      in if \<not> we_chmod env then ([fs1, cleanup fs1], Some ChmodFailed)
         else if we_write env \<noteq> None then (fs1 # ws @ [cleanup fs2], Some WriteFailed)
         else if \<not> we_sync env then (fs1 # ws @ [cleanup fs2], Some SyncFailed)
         else if \<not> we_close env then (fs1 # ws @ [fs3, cleanup fs3], Some CloseFailed)
         else if \<not> we_rename env then (fs1 # ws @ [fs3, cleanup fs3], Some RenameFailed)
         else (fs1 # ws @ [fs3, (fs3(path := fs3 tmp))(tmp := None)], None))"

definition WriteAtomic ::
  "encoder \<Rightarrow> decoder \<Rightarrow> wenv \<Rightarrow> string \<Rightarrow> policy \<Rightarrow> fsys \<Rightarrow> fsys list \<times> write_error option" where
  "WriteAtomic marshal decode env path p fs =
     (case marshal p of
        Inl e \<Rightarrow> ([fs], Some (MarshalFailed e))
      | Inr data \<Rightarrow>
          (case Parse decode data of
             Inl e \<Rightarrow> ([fs], Some (Unloadable e))
           | Inr _ \<Rightarrow>
               if \<not> we_mkdir env then ([fs], Some MkdirFailed)
               else case we_temp env of
                      None \<Rightarrow> ([fs], Some CreateTempFailed)
                    | Some tmp \<Rightarrow>
                        if fs tmp \<noteq> None then ([fs], Some CreateTempFailed)
                        else install_temp env tmp path data fs))"

definition WriteCandidate ::
  "encoder \<Rightarrow> decoder \<Rightarrow> wenv \<Rightarrow> policy \<Rightarrow> fsys \<Rightarrow> fsys list \<times> (write_error + string)" where
  "WriteCandidate marshal decode env p fs =
     (case marshal p of
        Inl e \<Rightarrow> ([fs], Inl (MarshalFailed e))
      | Inr data \<Rightarrow>
          (case Parse decode data of
             Inl e \<Rightarrow> ([fs], Inl (Unloadable e))
           | Inr _ \<Rightarrow>
               (case we_temp env of
                  None \<Rightarrow> ([fs], Inl CreateTempFailed)
                | Some name \<Rightarrow>
                    let cleanup = (\<lambda>st. if we_remove env then st(name := None) else st);
                        fs1 = fs(name \<mapsto> \<lparr>fl_data = [], fl_mode = FileMode, fl_synced = False\<rparr>);
                        n = (case we_write env of None \<Rightarrow> length data | Some n \<Rightarrow> min n (length data));
                        ws = write_states fs1 name FileMode data n
                    in if fs name \<noteq> None then ([fs], Inl CreateTempFailed)
                       else if \<not> we_chmod env then ([fs1, cleanup fs1], Inl ChmodFailed)
                       else if we_write env \<noteq> None then (fs1 # ws @ [cleanup (last ws)], Inl WriteFailed)
                       else if \<not> we_close env then (fs1 # ws @ [cleanup (last ws)], Inl CloseFailed)
                       else (fs1 # ws, Inr name))))"

subsection \<open>Backup, restore, verification\<close>

datatype backup_error = BackupReadFailed | BackupCreateFailed | BackupWriteFailed | BackupNoName

text \<open>
  One backup: whether reading works, the mode \<open>Stat\<close> reports if it works, whether \<open>OpenFile\<close>
  succeeds at each attempt when the name is free, and the calls on the new file.
\<close>

record benv =
  be_readable :: bool
  be_stat :: bool
  be_open :: "nat \<Rightarrow> bool"
  be_write :: "nat option"
  be_sync :: bool
  be_close :: bool

text \<open>
  The loop over the attempts; \<open>stamp k\<close> is the time-stamped name \<open>k\<close> seconds from now, \<open>left\<close>
  the attempts that remain of the sixty.
\<close>

fun backup_try ::
  "benv \<Rightarrow> (nat \<Rightarrow> string) \<Rightarrow> string \<Rightarrow> nat \<Rightarrow> nat \<Rightarrow> fsys \<Rightarrow> fsys list \<times> (backup_error + string)" where
  "backup_try env stamp data mode 0 fs = ([fs], Inl BackupNoName)"
| "backup_try env stamp data mode (Suc left) fs =
     (let attempt = 60 - Suc left; name = stamp attempt in
      if fs name \<noteq> None then backup_try env stamp data mode left fs
      else if \<not> be_open env attempt then ([fs], Inl BackupCreateFailed)
      else
        let n = (case be_write env of None \<Rightarrow> length data | Some n \<Rightarrow> min n (length data));
            ws = write_states fs name mode data n;
            done = fs(name \<mapsto> \<lparr>fl_data = data, fl_mode = mode, fl_synced = True\<rparr>)
        in if be_write env \<noteq> None then (ws, Inl BackupWriteFailed)
           else if \<not> be_sync env then (ws, Inl BackupWriteFailed)
           else if \<not> be_close env then (ws @ [done], Inl BackupWriteFailed)
           else (ws @ [done], Inr name))"

definition Backup ::
  "benv \<Rightarrow> (nat \<Rightarrow> string) \<Rightarrow> string \<Rightarrow> fsys \<Rightarrow> fsys list \<times> (backup_error + string)" where
  "Backup env stamp path fs =
     (case fs path of
        None \<Rightarrow> ([fs], Inr [])
      | Some f \<Rightarrow>
          if \<not> be_readable env then ([fs], Inl BackupReadFailed)
          else backup_try env stamp (fl_data f) (if be_stat env then fl_mode f else FileMode) 60 fs)"

datatype restore_error = RestoreReadFailed | RestoreUnparsable load_error | RestoreWrite write_error

definition Restore ::
  "encoder \<Rightarrow> decoder \<Rightarrow> wenv \<Rightarrow> bool \<Rightarrow> string \<Rightarrow> string \<Rightarrow> fsys \<Rightarrow> fsys list \<times> restore_error option" where
  "Restore marshal decode env readable backupPath path fs =
     (case fs backupPath of
        None \<Rightarrow> ([fs], Some RestoreReadFailed)
      | Some f \<Rightarrow>
          if \<not> readable then ([fs], Some RestoreReadFailed)
          else case Parse decode (fl_data f) of
                 Inl e \<Rightarrow> ([fs], Some (RestoreUnparsable e))
               | Inr p \<Rightarrow>
                   (let (tr, e) = WriteAtomic marshal decode env path p fs in (tr, map_option RestoreWrite e)))"

datatype verify_error =
    VerifyLoad load_error | VerifyMissing | VerifyMarshal string | VerifyMismatch | VerifyStat | VerifyMode nat

definition VerifyInstalled ::
  "encoder \<Rightarrow> decoder \<Rightarrow> bool \<Rightarrow> bool \<Rightarrow> string \<Rightarrow> policy \<Rightarrow> fsys \<Rightarrow> verify_error option" where
  "VerifyInstalled marshal decode readable stat path expected fs =
     (case LoadFile decode readable fs path of
        Inl e \<Rightarrow> Some (VerifyLoad e)
      | Inr None \<Rightarrow> Some VerifyMissing
      | Inr (Some got) \<Rightarrow>
          (case marshal expected of
             Inl e \<Rightarrow> Some (VerifyMarshal e)
           | Inr want \<Rightarrow>
               (case marshal got of
                  Inl e \<Rightarrow> Some (VerifyMarshal e)
                | Inr have' \<Rightarrow>
                    if want \<noteq> have' then Some VerifyMismatch
                    else if \<not> stat then Some VerifyStat
                    else (case fs path of
                            None \<Rightarrow> Some VerifyStat
                          | Some f \<Rightarrow> if fl_mode f \<noteq> FileMode then Some (VerifyMode (fl_mode f)) else None))))"

subsection \<open>Lemmas\<close>

lemma write_states_mem:
  "s \<in> set (write_states fs tmp mode data n) \<Longrightarrow>
   \<exists>k. s = fs(tmp \<mapsto> \<lparr>fl_data = take k data, fl_mode = mode, fl_synced = False\<rparr>)"
  by (auto simp: write_states_def)

lemma write_states_not_Nil [simp]: "write_states fs tmp mode data n \<noteq> []"
  by (simp add: write_states_def)

lemma last_write_states:
  "last (write_states fs tmp mode data n) =
     fs(tmp \<mapsto> \<lparr>fl_data = take n data, fl_mode = mode, fl_synced = False\<rparr>)"
  by (simp add: write_states_def)

lemma install_temp_states:
  assumes "s \<in> set (fst (install_temp env tmp path data fs))" "tmp \<noteq> path"
  shows "(s path = fs path \<or> s path = Some \<lparr>fl_data = data, fl_mode = FileMode, fl_synced = True\<rparr>) \<and>
    (\<forall>q. q \<noteq> path \<and> q \<noteq> tmp \<longrightarrow> s q = fs q)"
  using assms
  by (auto simp: install_temp_def Let_def dest!: write_states_mem split: if_splits)

lemma install_temp_result:
  assumes "tmp \<noteq> path"
  shows "last (fst (install_temp env tmp path data fs)) path =
    (if snd (install_temp env tmp path data fs) = None
     then Some \<lparr>fl_data = data, fl_mode = FileMode, fl_synced = True\<rparr> else fs path)"
  using assms by (auto simp: install_temp_def Let_def)

lemma install_temp_success:
  assumes "tmp \<noteq> path" "snd (install_temp env tmp path data fs) = None"
  shows "last (fst (install_temp env tmp path data fs)) tmp = None"
  using assms by (auto simp: install_temp_def Let_def split: if_splits)

lemma install_temp_not_Nil [simp]: "fst (install_temp env tmp path data fs) \<noteq> []"
  by (auto simp: install_temp_def Let_def)

text \<open>The contents a successful write may leave at its path.\<close>

definition installable :: "encoder \<Rightarrow> decoder \<Rightarrow> policy \<Rightarrow> fsfile \<Rightarrow> bool" where
  "installable marshal decode p f \<longleftrightarrow>
     marshal p = Inr (fl_data f) \<and> fl_mode f = FileMode \<and> fl_synced f \<and>
     (\<exists>p'. Parse decode (fl_data f) = Inr p')"

lemma WriteAtomic_not_Nil [simp]: "fst (WriteAtomic marshal decode env path p fs) \<noteq> []"
  by (auto simp: WriteAtomic_def split: sum.splits option.splits)

lemma WriteAtomic_states:
  assumes "s \<in> set (fst (WriteAtomic marshal decode env path p fs))" "we_temp env \<noteq> Some path"
  shows "(s path = fs path \<or> (\<exists>f. s path = Some f \<and> installable marshal decode p f)) \<and>
    (\<forall>q. q \<noteq> path \<and> (fs q \<noteq> None \<or> we_temp env \<noteq> Some q) \<longrightarrow> s q = fs q)"
proof (cases "\<exists>data p' tmp. marshal p = Inr data \<and> Parse decode data = Inr p' \<and> we_mkdir env \<and> we_temp env = Some tmp \<and> fs tmp = None")
  case True
  then obtain data p' tmp where d: "marshal p = Inr data" "Parse decode data = Inr p'" "we_mkdir env"
    "we_temp env = Some tmp" "fs tmp = None" by blast
  then have "s \<in> set (fst (install_temp env tmp path data fs))" "tmp \<noteq> path"
    using assms by (auto simp: WriteAtomic_def)
  from install_temp_states[OF this] show ?thesis using d by (auto simp: installable_def)
next
  case False
  then have "s = fs" using assms(1) by (auto simp: WriteAtomic_def split: sum.splits option.splits if_splits)
  then show ?thesis by simp
qed

lemma WriteAtomic_result:
  assumes "we_temp env \<noteq> Some path"
  shows "(snd (WriteAtomic marshal decode env path p fs) \<noteq> None \<longrightarrow>
      last (fst (WriteAtomic marshal decode env path p fs)) path = fs path) \<and>
    (snd (WriteAtomic marshal decode env path p fs) = None \<longrightarrow>
      (\<exists>f. last (fst (WriteAtomic marshal decode env path p fs)) path = Some f \<and> installable marshal decode p f))"
  using assms install_temp_result
  by (fastforce simp: WriteAtomic_def installable_def split: sum.splits option.splits if_splits)

lemma crash_of_synced: "crash_of s s' \<Longrightarrow> s q = Some f \<Longrightarrow> fl_synced f \<Longrightarrow> s' q = Some f"
  unfolding crash_of_def by (metis (mono_tags, lifting) option.simps(5))

lemma crash_of_refl: "crash_of s s"
proof -
  have "\<exists>d. f = f\<lparr>fl_data := d\<rparr>" for f :: fsfile
    by (rule exI[of _ "fl_data f"]) simp
  then show ?thesis by (auto simp: crash_of_def split: option.splits)
qed

lemma crash_of_absent: "crash_of s s' \<Longrightarrow> s q = None \<Longrightarrow> s' q = None"
  unfolding crash_of_def by (metis (mono_tags, lifting) option.simps(4))

lemma backup_try_states:
  "(\<forall>s\<in>set (fst (backup_try env stamp data mode left fs)). \<forall>q. fs q \<noteq> None \<longrightarrow> s q = fs q) \<and>
   fst (backup_try env stamp data mode left fs) \<noteq> [] \<and>
   (\<forall>name. snd (backup_try env stamp data mode left fs) = Inr name \<longrightarrow>
      fs name = None \<and>
      last (fst (backup_try env stamp data mode left fs)) name = Some \<lparr>fl_data = data, fl_mode = mode, fl_synced = True\<rparr>)"
proof (induction left)
  case (Suc left)
  show ?case
  proof (cases "fs (stamp (60 - Suc left)) = None")
    case True
    then show ?thesis by (auto simp: Let_def dest!: write_states_mem)
  next
    case False
    then show ?thesis using Suc by (simp add: Let_def)
  qed
qed simp

lemma Backup_states:
  "(\<forall>s\<in>set (fst (Backup env stamp path fs)). \<forall>q. fs q \<noteq> None \<longrightarrow> s q = fs q) \<and>
   fst (Backup env stamp path fs) \<noteq> []"
  using backup_try_states by (auto simp: Backup_def split: option.splits)

subsection \<open>Properties\<close>

text \<open>
  (C8) An install is atomic under a crash at any point. Whichever system call fails and
  wherever the machine stops, a reader afterwards finds at the policy's path either what was
  there before or the complete rendering of the new policy, mode 0600, which parses; no other
  file is touched but the temporary one. An error means nothing changed, success means the new
  file is there. The flush before the rename is what makes this hold.
\<close>

theorem WriteAtomic_crash_safe:
  assumes "we_temp env \<noteq> Some path" "\<forall>f. fs path = Some f \<longrightarrow> fl_synced f"
    and "s \<in> set (fst (WriteAtomic marshal decode env path p fs))" "crash_of s s'"
  shows "(s' path = fs path \<or> (\<exists>f. s' path = Some f \<and> installable marshal decode p f)) \<and>
    (\<forall>q f. fs q = Some f \<and> fl_synced f \<and> q \<noteq> path \<longrightarrow> s' q = Some f) \<and>
    (case snd (WriteAtomic marshal decode env path p fs) of
       None \<Rightarrow> \<exists>f. last (fst (WriteAtomic marshal decode env path p fs)) path = Some f \<and> installable marshal decode p f
     | Some e \<Rightarrow> last (fst (WriteAtomic marshal decode env path p fs)) path = fs path)"
proof (intro conjI)
  note st = WriteAtomic_states[OF assms(3,1)]
  show "s' path = fs path \<or> (\<exists>f. s' path = Some f \<and> installable marshal decode p f)"
  proof (cases "s path = fs path")
    case True
    then show ?thesis
      using crash_of_synced[OF assms(4), of path] crash_of_absent[OF assms(4), of path] assms(2)
      by (cases "fs path") auto
  next
    case False
    then obtain f where "s path = Some f" "installable marshal decode p f" using st by auto
    then show ?thesis using crash_of_synced[OF assms(4)] by (auto simp: installable_def)
  qed
  show "\<forall>q f. fs q = Some f \<and> fl_synced f \<and> q \<noteq> path \<longrightarrow> s' q = Some f"
    using st crash_of_synced[OF assms(4)] by (metis option.distinct(1))
  show "case snd (WriteAtomic marshal decode env path p fs) of
       None \<Rightarrow> \<exists>f. last (fst (WriteAtomic marshal decode env path p fs)) path = Some f \<and> installable marshal decode p f
     | Some e \<Rightarrow> last (fst (WriteAtomic marshal decode env path p fs)) path = fs path"
    using WriteAtomic_result[OF assms(1), of marshal decode p fs] by (auto split: option.splits)
qed

text \<open>A codec for examples: the rendering of a policy is its number of rules.\<close>

definition toy_marshal :: encoder where
  "toy_marshal p = Inr (nat_digits (length (p_Rules p)))"

definition toy_decode :: decoder where
  "toy_decode data =
     (case atoi data of
        None \<Rightarrow> Inl ''invalid character''
      | Some n \<Rightarrow> Inr (\<lparr>p_Schema = 1, p_Rules = replicate (nat n) (allow_rule [''bao:a''] [''ci''] [''exec''])\<rparr>, False))"

definition good_wenv :: "string \<Rightarrow> wenv" where
  "good_wenv tmp =
     \<lparr>we_mkdir = True, we_temp = Some tmp, we_chmod = True, we_write = None, we_sync = True, we_close = True,
      we_rename = True, we_remove = True\<rparr>"

definition one_rule_policy :: policy where
  "one_rule_policy = \<lparr>p_Schema = 1, p_Rules = [allow_rule [''bao:a''] [''ci''] [''exec'']]\<rparr>"

theorem WriteAtomic_crash_safe_witness:
  "\<exists>s s'. s \<in> set (fst (WriteAtomic toy_marshal toy_decode (good_wenv ''t'') ''p'' one_rule_policy (\<lambda>_. None))) \<and>
     crash_of s s' \<and> s ''t'' \<noteq> None \<and> s' ''p'' = None"
proof -
  let ?tr = "fst (WriteAtomic toy_marshal toy_decode (good_wenv ''t'') ''p'' one_rule_policy (\<lambda>_. None))"
  let ?s = "hd ?tr"
  have "?s \<in> set ?tr" by simp
  moreover have c: "crash_of ?s ?s" by (rule crash_of_refl)
  moreover have "?s ''t'' \<noteq> None" by code_simp
  moreover have "?s ''p'' = None" by code_simp
  moreover have "?s ''p'' = (\<lambda>_. None) ''p'' \<or> (\<exists>f. ?s ''p'' = Some f \<and> installable toy_marshal toy_decode one_rule_policy f)"
    using WriteAtomic_crash_safe[of "good_wenv ''t''" "''p''" "\<lambda>_. None" ?s toy_marshal toy_decode one_rule_policy ?s] c
    by (simp add: good_wenv_def)
  ultimately show ?thesis by blast
qed

text \<open>
  A backup never overwrites: no file that existed changes in any state a backup goes
  through, whatever fails; if a name is returned, that file is new and holds the contents of
  the live policy, flushed; and without a live policy nothing is written.
\<close>

theorem Backup_never_overwrites:
  assumes "s \<in> set (fst (Backup env stamp path fs))"
  shows "(fs q \<noteq> None \<longrightarrow> s q = fs q) \<and>
    (fs path = None \<longrightarrow> s = fs \<and> snd (Backup env stamp path fs) = Inr []) \<and>
    (\<forall>f name. fs path = Some f \<and> snd (Backup env stamp path fs) = Inr name \<longrightarrow>
       fs name = None \<and>
       last (fst (Backup env stamp path fs)) name =
         Some \<lparr>fl_data = fl_data f, fl_mode = (if be_stat env then fl_mode f else FileMode), fl_synced = True\<rparr>)"
  using assms Backup_states[of env stamp path fs] backup_try_states
  by (auto simp: Backup_def split: option.splits if_splits)

definition good_benv :: benv where
  "good_benv =
     \<lparr>be_readable = True, be_stat = True, be_open = (\<lambda>_. True), be_write = None, be_sync = True, be_close = True\<rparr>"

definition stamped :: "string \<Rightarrow> nat \<Rightarrow> string" where
  "stamped path k = path @ ''.bak.'' @ nat_digits k"

theorem Backup_never_overwrites_witness:
  "\<exists>fs. fs ''p.bak.0'' \<noteq> None \<and> snd (Backup good_benv (stamped ''p'') ''p'' fs) = Inr ''p.bak.1'' \<and>
     last (fst (Backup good_benv (stamped ''p'') ''p'' fs)) ''p.bak.1'' =
       Some \<lparr>fl_data = ''x'', fl_mode = 420, fl_synced = True\<rparr>"
proof -
  let ?f = "\<lambda>d. Some \<lparr>fl_data = d, fl_mode = 420, fl_synced = True\<rparr>"
  let ?fs = "(\<lambda>_. None)(''p'' := ?f ''x'', ''p.bak.0'' := ?f ''y'')"
  let ?b = "Backup good_benv (stamped ''p'') ''p'' ?fs"
  have r: "snd ?b = Inr ''p.bak.1''" by code_simp
  have m: "hd (fst ?b) \<in> set (fst ?b)" using Backup_states by (intro list.set_sel(1)) blast
  have "last (fst ?b) ''p.bak.1'' = ?f ''x''"
    using Backup_never_overwrites[OF m] r by (simp add: good_benv_def)
  then show ?thesis using r by (intro exI[of _ ?fs]) simp
qed

end
