(* ===== verification/Transaction.thy ===== *)
theory Transaction
  imports Policy_Write
begin

text \<open>
  The install transaction behind \<open>policy grant\<close> and \<open>policy apply\<close>
  (\<open>runTransaction\<close> in \<open>cmd/parzival/grant.go\<close>), with the helpers of that file that decide
  anything: the confirmation, the representative probes and the list flags. What the command
  prints is in the theory Reports.
\<close>

subsection \<open>Helpers\<close>

text \<open>\<open>confirm\<close>; \<open>line\<close> is what \<open>ReadString\<close> returned, empty at the end of the input.\<close>

definition confirm :: "string \<Rightarrow> bool" where
  "confirm line = (to_lower (trim_space line) = ''y'' \<or> to_lower (trim_space line) = ''yes'')"

definition uncoveredLabel :: string where "uncoveredLabel = ''some-other-label''"

definition firstOr :: "string list \<Rightarrow> string \<Rightarrow> string list" where
  "firstOr vals fallback = (if vals = [] then [fallback] else vals)"

definition representativeProbes :: "rule \<Rightarrow> probe list" where
  "representativeProbes r =
     RuleProbes \<lparr>r_Allow = r_Allow r, r_Description = [], r_Secrets = r_Secrets r, r_Identities = r_Identities r,
                 r_Modes = [], r_Weekdays = [], r_Monthdays = [], r_Hours = [], r_DenyAgents = False\<rparr> @
     map (\<lambda>ref. \<lparr>pr_Ref = ref, pr_Identity = uncoveredLabel, pr_Mode = ModeGet, pr_Agent = False\<rparr>)
       (firstOr (r_Secrets r) ''*'')"

definition splitCommas :: "string \<Rightarrow> string list" where
  "splitCommas s =
     (if trim_space s = [] then [] else filter (\<lambda>p. p \<noteq> []) (map trim_space (split_on CHR '','' s)))"

text \<open>\<open>parseMonthdays\<close>: the part that is not a number, or the numbers.\<close>

definition parseMonthdays :: "string \<Rightarrow> string + int list" where
  "parseMonthdays s =
     (let parts = splitCommas s in
      case find (\<lambda>p. atoi p = None) parts of
        Some p \<Rightarrow> Inl p
      | None \<Rightarrow> Inr (List.map_filter atoi parts))"

definition joinInts :: "int list \<Rightarrow> string" where
  "joinInts xs = join_with '','' (map itoa xs)"

subsection \<open>The transaction\<close>

record transaction =
  tx_livePath :: string
  tx_live :: policy
  tx_liveOnDisk :: bool
  tx_candidate :: policy
  tx_expected :: "probe list option"
  tx_apply :: bool
  tx_assumeYes :: bool

datatype tx_error =
    TxCandidate write_error | TxCandidateLoad load_error | TxNilCandidate
  | TxAnalysis nat | TxUnexpected nat | TxMarshal string | TxCancelled
  | TxNoBackup backup_error | TxInstall write_error
  | TxVerifyNoBackup | TxVerifyNotRestored | TxRolledBack

text \<open>How everything outside the program turns out during one transaction.\<close>

record tenv =
  te_cand :: wenv
  te_candReadable :: bool
  te_now :: gotime
  te_line :: string
  te_backup :: benv
  te_stamp :: "nat \<Rightarrow> string"
  te_install :: wenv
  te_liveReadable :: bool
  te_liveStat :: bool
  te_backupReadable :: bool
  te_restore :: wenv
  te_removeCand :: bool

text \<open>The checks on the re-read candidate: analysis, delta, rendering. \<open>None\<close> means it may go on.\<close>

definition tx_check :: "encoder \<Rightarrow> tenv \<Rightarrow> transaction \<Rightarrow> policy \<Rightarrow> tx_error option" where
  "tx_check marshal env t reread =
     (let errs = Errors (Analyze reread);
          before = (if tx_liveOnDisk t then Some (tx_live t) else None);
          expected = (case tx_expected t of None \<Rightarrow> [] | Some w \<Rightarrow> w);
          probes = ProbeSet [Some (tx_live t), Some reread] expected;
          d = DiffAuthorization before (Some reread) probes (te_now env);
          unexpected = (case tx_expected t of None \<Rightarrow> [] | Some w \<Rightarrow> Unexpected d w)
      in if length errs > 0 then Some (TxAnalysis (length errs))
         else if length unexpected > 0 then Some (TxUnexpected (length unexpected))
         else case (if tx_liveOnDisk t then marshal (tx_live t) else Inr []) of
                Inl e \<Rightarrow> Some (TxMarshal e)
              | Inr _ \<Rightarrow> (case marshal reread of Inl e \<Rightarrow> Some (TxMarshal e) | Inr _ \<Rightarrow> None))"

text \<open>Backup, install, verify, and the rollback when the verification fails.\<close>

definition tx_commit ::
  "encoder \<Rightarrow> decoder \<Rightarrow> tenv \<Rightarrow> transaction \<Rightarrow> string \<Rightarrow> policy \<Rightarrow> fsys \<Rightarrow> fsys list \<times> tx_error option" where
  "tx_commit marshal decode env t candPath reread fs =
     (case Backup (te_backup env) (te_stamp env) (tx_livePath t) fs of
        (tr1, Inl e) \<Rightarrow> (tr1, Some (TxNoBackup e))
      | (tr1, Inr backup) \<Rightarrow>
          (case WriteAtomic marshal decode (te_install env) (tx_livePath t) reread (last tr1) of
             (tr2, Some e) \<Rightarrow> (tr1 @ tr2, Some (TxInstall e))
           | (tr2, None) \<Rightarrow>
               (case VerifyInstalled marshal decode (te_liveReadable env) (te_liveStat env) (tx_livePath t)
                       reread (last tr2) of
                  Some _ \<Rightarrow>
                    if backup = [] then (tr1 @ tr2, Some TxVerifyNoBackup)
                    else (case Restore marshal decode (te_restore env) (te_backupReadable env) backup
                                 (tx_livePath t) (last tr2) of
                            (tr3, Some _) \<Rightarrow> (tr1 @ tr2 @ tr3, Some TxVerifyNotRestored)
                          | (tr3, None) \<Rightarrow> (tr1 @ tr2 @ tr3, Some TxRolledBack))
                | None \<Rightarrow>
                    (tr1 @ tr2 @ [if te_removeCand env then (last tr2)(candPath := None) else last tr2], None))))"

definition runTransaction ::
  "encoder \<Rightarrow> decoder \<Rightarrow> tenv \<Rightarrow> transaction \<Rightarrow> fsys \<Rightarrow> fsys list \<times> tx_error option" where
  "runTransaction marshal decode env t fs =
     (case WriteCandidate marshal decode (te_cand env) (tx_candidate t) fs of
        (tr0, Inl e) \<Rightarrow> (tr0, Some (TxCandidate e))
      | (tr0, Inr candPath) \<Rightarrow>
          (case LoadFile decode (te_candReadable env) (last tr0) candPath of
             Inl e \<Rightarrow>
               (tr0 @ [if te_removeCand env then (last tr0)(candPath := None) else last tr0],
                Some (TxCandidateLoad e))
           | Inr None \<Rightarrow> (tr0, Some TxNilCandidate)
           | Inr (Some reread) \<Rightarrow>
               (case tx_check marshal env t reread of
                  Some e \<Rightarrow> (tr0, Some e)
                | None \<Rightarrow>
                    if \<not> tx_apply t then (tr0, None)
                    else if \<not> tx_assumeYes t \<and> \<not> confirm (te_line env) then (tr0, Some TxCancelled)
                    else (case tx_commit marshal decode env t candPath reread (last tr0) of
                            (tr1, e) \<Rightarrow> (tr0 @ tr1, e)))))"

subsection \<open>Lemmas\<close>

lemma tx_check_None:
  assumes "tx_check marshal env t reread = None"
  shows "analysis_OK (Analyze reread) \<and>
    (\<forall>want. tx_expected t = Some want \<longrightarrow>
       Unexpected (DiffAuthorization (if tx_liveOnDisk t then Some (tx_live t) else None) (Some reread)
         (ProbeSet [Some (tx_live t), Some reread] want) (te_now env)) want = [])"
  using assms by (auto simp: tx_check_def Let_def analysis_OK_def split: if_splits)

lemma WriteCandidate_states:
  "(\<forall>s\<in>set (fst (WriteCandidate marshal decode env p fs)). \<forall>q. fs q \<noteq> None \<or> we_temp env \<noteq> Some q \<longrightarrow> s q = fs q) \<and>
   fst (WriteCandidate marshal decode env p fs) \<noteq> []"
proof (intro conjI ballI)
  fix s assume "s \<in> set (fst (WriteCandidate marshal decode env p fs))"
  then show "\<forall>q. fs q \<noteq> None \<or> we_temp env \<noteq> Some q \<longrightarrow> s q = fs q"
    by (auto simp: WriteCandidate_def Let_def last_write_states dest!: write_states_mem
        split: sum.splits option.splits if_splits)
qed (auto simp: WriteCandidate_def Let_def split: sum.splits option.splits)

lemma Restore_cases:
  assumes "s \<in> set (fst (Restore marshal decode env readable b path fs))"
  shows "s = fs \<or> (\<exists>f0 p. fs b = Some f0 \<and> Parse decode (fl_data f0) = Inr p \<and>
    s \<in> set (fst (WriteAtomic marshal decode env path p fs)))"
  using assms by (auto simp: Restore_def split: option.splits if_splits sum.splits prod.splits)

lemma Restore_not_Nil [simp]: "fst (Restore marshal decode env readable b path fs) \<noteq> []"
proof -
  have "tr \<noteq> []" if "WriteAtomic marshal decode env path p fs = (tr, e)" for p tr e
    using WriteAtomic_not_Nil[of marshal decode env path p fs] that by simp
  then show ?thesis by (auto simp: Restore_def split: option.splits sum.splits prod.splits)
qed

lemma Restore_success:
  assumes "snd (Restore marshal decode env readable b path fs) = None" "we_temp env \<noteq> Some path"
  shows "\<exists>f0 p f. fs b = Some f0 \<and> Parse decode (fl_data f0) = Inr p \<and>
    last (fst (Restore marshal decode env readable b path fs)) path = Some f \<and> installable marshal decode p f"
proof -
  obtain f0 p where p: "fs b = Some f0" "readable" "Parse decode (fl_data f0) = Inr p"
    using assms(1) by (auto simp: Restore_def split: option.splits if_splits sum.splits)
  then have e: "Restore marshal decode env readable b path fs =
      (fst (WriteAtomic marshal decode env path p fs), map_option RestoreWrite (snd (WriteAtomic marshal decode env path p fs)))"
    by (simp add: Restore_def split: prod.splits)
  have "snd (WriteAtomic marshal decode env path p fs) = None" using assms(1) e by simp
  then show ?thesis using WriteAtomic_result[OF assms(2), of marshal decode p fs] p e by auto
qed

text \<open>What the live path and the backup may hold while a commit that started in \<open>fs\<close> runs.\<close>

definition commit_safe ::
  "encoder \<Rightarrow> decoder \<Rightarrow> string \<Rightarrow> policy \<Rightarrow> fsys \<Rightarrow> string \<Rightarrow> fsys \<Rightarrow> bool" where
  "commit_safe marshal decode path reread fs backup s \<longleftrightarrow>
     (s path = fs path \<or> (\<exists>f. s path = Some f \<and> installable marshal decode reread f) \<or>
      (\<exists>f0 p f. fs path = Some f0 \<and> Parse decode (fl_data f0) = Inr p \<and> s path = Some f \<and>
         installable marshal decode p f)) \<and>
     (\<forall>f0. fs path = Some f0 \<longrightarrow> (\<exists>f. s backup = Some f \<and> fl_data f = fl_data f0 \<and> fl_synced f))"

lemma Backup_result:
  assumes "snd (Backup env stamp path fs) = Inr name"
  shows "(fs path = None \<and> name = [] \<and> last (fst (Backup env stamp path fs)) = fs) \<or>
    (\<exists>f0 f. fs path = Some f0 \<and> fs name = None \<and> last (fst (Backup env stamp path fs)) name = Some f \<and>
       fl_data f = fl_data f0 \<and> fl_synced f)"
  using assms backup_try_states
  by (fastforce simp: Backup_def split: option.splits if_splits)

lemma Backup_last:
  "fs q \<noteq> None \<Longrightarrow> last (fst (Backup env stamp path fs)) q = fs q"
  using Backup_states[of env stamp path fs] last_in_set by blast

lemma commit_safe_write:
  assumes "commit_safe marshal decode path reread fs backup s0" "fs path \<noteq> None \<Longrightarrow> fs backup = None"
    and "s \<in> set (fst (WriteAtomic marshal decode env path p s0))" "we_temp env \<noteq> Some path"
    and "p = reread \<or> (\<exists>f0. fs path = Some f0 \<and> Parse decode (fl_data f0) = Inr p)"
  shows "commit_safe marshal decode path reread fs backup s"
proof -
  note w = WriteAtomic_states[OF assms(3,4)]
  have "\<exists>f. s backup = Some f \<and> fl_data f = fl_data f0 \<and> fl_synced f" if f0: "fs path = Some f0" for f0
  proof -
    obtain f where f: "s0 backup = Some f" "fl_data f = fl_data f0" "fl_synced f"
      using assms(1) f0 by (auto simp: commit_safe_def)
    have "backup \<noteq> path" using assms(2) f0 by auto
    then have "s backup = s0 backup" using w f(1) by auto
    then show ?thesis using f by auto
  qed
  moreover have "s path = s0 path \<or> (\<exists>f. s path = Some f \<and> installable marshal decode p f)" using w by blast
  moreover have "s path = fs path \<or> (\<exists>f. s path = Some f \<and> installable marshal decode reread f) \<or>
      (\<exists>f0 p f. fs path = Some f0 \<and> Parse decode (fl_data f0) = Inr p \<and> s path = Some f \<and>
         installable marshal decode p f)"
    if "s path \<noteq> s0 path"
  proof -
    obtain f where "s path = Some f" "installable marshal decode p f" using w \<open>s path \<noteq> s0 path\<close> by blast
    then show ?thesis using assms(5) by blast
  qed
  ultimately show ?thesis
    using assms(1) unfolding commit_safe_def by (cases "s path = s0 path") simp_all
qed

lemma commit_safe_start:
  assumes "snd (Backup env stamp path fs) = Inr backup"
  shows "commit_safe marshal decode path reread fs backup (last (fst (Backup env stamp path fs))) \<and>
    (fs path \<noteq> None \<longrightarrow> fs backup = None)"
  using Backup_result[OF assms] Backup_last[of fs path env stamp path] by (auto simp: commit_safe_def)

lemma tx_commit_states:
  assumes temps: "we_temp (te_install env) \<noteq> Some (tx_livePath t)" "we_temp (te_restore env) \<noteq> Some (tx_livePath t)"
    and cand: "candPath \<noteq> tx_livePath t" "fs candPath \<noteq> None"
    and s: "s \<in> set (fst (tx_commit marshal decode env t candPath reread fs))"
  shows "s (tx_livePath t) = fs (tx_livePath t) \<or>
    (\<exists>backup. commit_safe marshal decode (tx_livePath t) reread fs backup s)"
proof (cases "snd (Backup (te_backup env) (te_stamp env) (tx_livePath t) fs)")
  case (Inl e)
  then have "s \<in> set (fst (Backup (te_backup env) (te_stamp env) (tx_livePath t) fs))"
    using s by (auto simp: tx_commit_def split: prod.splits)
  then show ?thesis
    using Backup_states[of "te_backup env" "te_stamp env" "tx_livePath t" fs] Inl
    by (cases "fs (tx_livePath t)") (auto simp: Backup_def)
next
  case (Inr backup)
  let ?path = "tx_livePath t"
  let ?b = "Backup (te_backup env) (te_stamp env) ?path fs"
  let ?safe = "commit_safe marshal decode ?path reread fs backup"
  let ?w = "WriteAtomic marshal decode (te_install env) ?path reread (last (fst ?b))"
  let ?r = "Restore marshal decode (te_restore env) (te_backupReadable env) backup ?path (last (fst ?w))"
  have start: "?safe (last (fst ?b))" "fs ?path \<noteq> None \<Longrightarrow> fs backup = None"
    using commit_safe_start[OF Inr] by auto
  have w: "\<forall>x\<in>set (fst ?w). ?safe x" using commit_safe_write[OF start _ temps(1)] by blast
  then have wl: "?safe (last (fst ?w))" using last_in_set[OF WriteAtomic_not_Nil] by blast
  have r: "\<forall>x\<in>set (fst ?r). ?safe x" if ne: "backup \<noteq> []"
  proof
    fix x assume "x \<in> set (fst ?r)"
    from Restore_cases[OF this] show "?safe x"
    proof (elim disjE exE conjE)
      fix f0 p assume b: "last (fst ?w) backup = Some f0" "Parse decode (fl_data f0) = Inr p"
        "x \<in> set (fst (WriteAtomic marshal decode (te_restore env) ?path p (last (fst ?w))))"
      obtain f1 where f1: "fs ?path = Some f1"
        using Backup_result[OF Inr] ne by auto
      then have "fl_data f0 = fl_data f1" using wl b(1) by (auto simp: commit_safe_def)
      then show "?safe x" using commit_safe_write[OF wl start(2) b(3) temps(2)] b(2) f1 by auto
    qed (use wl in simp)
  qed
  have rm: "?safe ((last (fst ?w))(candPath := None))"
  proof -
    have "backup \<noteq> candPath" if "fs ?path \<noteq> None" using start(2)[OF that] cand(2) by auto
    then show ?thesis using wl cand(1) by (auto simp: commit_safe_def)
  qed
  have "s \<in> set (fst ?b) \<or> s \<in> set (fst ?w) \<or> (backup \<noteq> [] \<and> s \<in> set (fst ?r)) \<or>
      s = (last (fst ?w))(candPath := None) \<or> s = last (fst ?w)"
    using s Inr by (auto simp: tx_commit_def split: prod.splits option.splits if_splits)
  moreover have "s ?path = fs ?path \<or> s = fs" if "s \<in> set (fst ?b)"
    using Backup_states[of "te_backup env" "te_stamp env" ?path fs] that
    by (cases "fs ?path") (auto simp: Backup_def)
  ultimately show ?thesis using w r rm wl by blast
qed

lemma WriteCandidate_success:
  assumes "snd (WriteCandidate marshal decode env p fs) = Inr name"
  shows "fs name = None \<and> we_temp env = Some name \<and> (\<exists>data p' f. marshal p = Inr data \<and> Parse decode data = Inr p' \<and>
    last (fst (WriteCandidate marshal decode env p fs)) name = Some f \<and> fl_data f = data)"
  using assms
  by (auto simp: WriteCandidate_def Let_def last_write_states split: sum.splits option.splits if_splits)

lemma LoadFile_Inr: "LoadFile decode readable fs path = Inr (Some p) \<Longrightarrow>
   \<exists>f. fs path = Some f \<and> Parse decode (fl_data f) = Inr p"
  by (auto simp: LoadFile_def split: option.splits if_splits sum.splits)

text \<open>When a transaction gets past its checks, what it has established by then.\<close>

definition tx_ready ::
  "encoder \<Rightarrow> decoder \<Rightarrow> tenv \<Rightarrow> transaction \<Rightarrow> policy \<Rightarrow> bool" where
  "tx_ready marshal decode env t reread \<longleftrightarrow>
     tx_apply t \<and> (tx_assumeYes t \<or> confirm (te_line env)) \<and> analysis_OK (Analyze reread) \<and>
     (\<exists>data. marshal (tx_candidate t) = Inr data \<and> Parse decode data = Inr reread) \<and>
     (\<forall>want. tx_expected t = Some want \<longrightarrow>
        Unexpected (DiffAuthorization (if tx_liveOnDisk t then Some (tx_live t) else None) (Some reread)
          (ProbeSet [Some (tx_live t), Some reread] want) (te_now env)) want = [])"

lemma runTransaction_cases:
  fixes marshal decode env t fs
  defines "c \<equiv> WriteCandidate marshal decode (te_cand env) (tx_candidate t) fs"
  shows "(\<exists>candPath reread. snd c = Inr candPath \<and> last (fst c) candPath \<noteq> None \<and> tx_ready marshal decode env t reread \<and>
      runTransaction marshal decode env t fs =
        (fst c @ fst (tx_commit marshal decode env t candPath reread (last (fst c))),
         snd (tx_commit marshal decode env t candPath reread (last (fst c)))) \<and>
      LoadFile decode (te_candReadable env) (last (fst c)) candPath = Inr (Some reread) \<and>
      tx_check marshal env t reread = None) \<or>
    ((fst (runTransaction marshal decode env t fs) = fst c \<or>
      (\<exists>candPath. snd c = Inr candPath \<and> fst (runTransaction marshal decode env t fs) =
         fst c @ [if te_removeCand env then (last (fst c))(candPath := None) else last (fst c)])) \<and>
     (snd (runTransaction marshal decode env t fs) = None \<longrightarrow> \<not> tx_apply t) \<and>
     snd (runTransaction marshal decode env t fs) \<noteq> Some TxRolledBack)"
proof (cases "snd c")
  case (Inl e)
  then have "runTransaction marshal decode env t fs = (fst c, Some (TxCandidate e))"
    unfolding runTransaction_def c_def[symmetric] by (cases c) (simp split: prod.splits)
  then show ?thesis by simp
next
  case (Inr candPath)
  note succ = WriteCandidate_success[OF Inr[unfolded c_def], folded c_def]
  show ?thesis
  proof (cases "LoadFile decode (te_candReadable env) (last (fst c)) candPath")
    case (Inl e)
    then have "runTransaction marshal decode env t fs =
        (fst c @ [if te_removeCand env then (last (fst c))(candPath := None) else last (fst c)], Some (TxCandidateLoad e))"
      using Inr unfolding runTransaction_def c_def[symmetric] by (cases c) (simp split: prod.splits)
    then show ?thesis using Inr by simp
  next
    case load: (Inr po)
    show ?thesis
    proof (cases "\<exists>reread. po = Some reread \<and> tx_check marshal env t reread = None \<and> tx_apply t \<and>
        (tx_assumeYes t \<or> confirm (te_line env))")
      case True
      then obtain reread where r: "po = Some reread" "tx_check marshal env t reread = None" "tx_apply t"
        "tx_assumeYes t \<or> confirm (te_line env)" by blast
      have "tx_ready marshal decode env t reread"
        using r tx_check_None[OF r(2)] LoadFile_Inr[OF load[unfolded r(1)]] succ
        by (auto simp: tx_ready_def)
      moreover have "runTransaction marshal decode env t fs =
        (fst c @ fst (tx_commit marshal decode env t candPath reread (last (fst c))),
         snd (tx_commit marshal decode env t candPath reread (last (fst c))))"
        using Inr load r unfolding runTransaction_def c_def[symmetric] by (cases c) (auto split: prod.splits)
      ultimately show ?thesis using Inr succ load r by blast
    next
      case False
      have chk: "tx_check marshal env t reread \<noteq> Some TxRolledBack" for reread
        by (auto simp: tx_check_def Let_def split: sum.splits)
      have "fst (runTransaction marshal decode env t fs) = fst c \<and>
          (snd (runTransaction marshal decode env t fs) = None \<longrightarrow> \<not> tx_apply t) \<and>
          snd (runTransaction marshal decode env t fs) \<noteq> Some TxRolledBack"
        using False Inr load chk unfolding runTransaction_def c_def[symmetric]
        by (cases c) (auto split: prod.splits option.splits)
      then show ?thesis by blast
    qed
  qed
qed

lemma candidate_path_safe:
  fixes marshal decode env t fs
  defines "c \<equiv> WriteCandidate marshal decode (te_cand env) (tx_candidate t) fs"
  assumes "we_temp (te_cand env) \<noteq> Some (tx_livePath t)"
  shows "(\<forall>s\<in>set (fst c). s (tx_livePath t) = fs (tx_livePath t)) \<and> last (fst c) (tx_livePath t) = fs (tx_livePath t) \<and>
    (\<forall>candPath. snd c = Inr candPath \<longrightarrow> candPath \<noteq> tx_livePath t)"
proof -
  have w: "\<forall>s\<in>set (fst c). s (tx_livePath t) = fs (tx_livePath t)" and ne: "fst c \<noteq> []"
    using WriteCandidate_states assms by blast+
  have "candPath \<noteq> tx_livePath t" if "snd c = Inr candPath" for candPath
    using WriteCandidate_success that assms by metis
  then show ?thesis using w last_in_set[OF ne] by blast
qed

text \<open>What the live path holds in the last state of a run with a given outcome.\<close>

definition outcome_ok ::
  "encoder \<Rightarrow> decoder \<Rightarrow> string \<Rightarrow> policy \<Rightarrow> fsys \<Rightarrow> fsys list \<times> tx_error option \<Rightarrow> bool" where
  "outcome_ok marshal decode path reread fs r \<longleftrightarrow>
     (snd r = None \<longrightarrow>
        (\<exists>f p. last (fst r) path = Some f \<and> installable marshal decode reread f \<and>
           Parse decode (fl_data f) = Inr p \<and> marshal p = marshal reread)) \<and>
     (snd r = Some TxRolledBack \<longrightarrow>
        (\<exists>f0 p f. fs path = Some f0 \<and> Parse decode (fl_data f0) = Inr p \<and> last (fst r) path = Some f \<and>
           installable marshal decode p f)) \<and>
     (snd r \<notin> {None, Some TxRolledBack, Some TxVerifyNoBackup, Some TxVerifyNotRestored} \<longrightarrow>
        last (fst r) path = fs path)"

lemma VerifyInstalled_reads_back:
  assumes "VerifyInstalled marshal decode readable stat path expected fs = None" "fs path = Some f"
  shows "\<exists>p. Parse decode (fl_data f) = Inr p \<and> marshal p = marshal expected"
  using assms by (auto simp: VerifyInstalled_def LoadFile_def split: sum.splits option.splits if_splits)

lemma tx_commit_outcome:
  assumes temps: "we_temp (te_install env) \<noteq> Some (tx_livePath t)" "we_temp (te_restore env) \<noteq> Some (tx_livePath t)"
    and cand: "candPath \<noteq> tx_livePath t"
  shows "outcome_ok marshal decode (tx_livePath t) reread fs (tx_commit marshal decode env t candPath reread fs)"
proof -
  let ?path = "tx_livePath t"
  obtain tr1 r1 where b: "Backup (te_backup env) (te_stamp env) ?path fs = (tr1, r1)" by fastforce
  obtain tr2 r2 where w: "WriteAtomic marshal decode (te_install env) ?path reread (last tr1) = (tr2, r2)" by fastforce
  have tr1: "tr1 \<noteq> []" "last tr1 ?path = fs ?path"
    using Backup_states[of "te_backup env" "te_stamp env" ?path fs] Backup_last[of fs ?path "te_backup env" "te_stamp env" ?path] b
    by (cases "fs ?path"; auto simp: Backup_def)+
  have tr2: "tr2 \<noteq> []" using WriteAtomic_not_Nil[of marshal decode "te_install env" ?path reread "last tr1"] w by simp
  have wr: "r2 \<noteq> None \<Longrightarrow> last tr2 ?path = last tr1 ?path"
    "r2 = None \<Longrightarrow> \<exists>f. last tr2 ?path = Some f \<and> installable marshal decode reread f"
    using WriteAtomic_result[OF temps(1), of marshal decode reread "last tr1"] w by auto
  show ?thesis
  proof (cases r1)
    case (Inl e)
    then show ?thesis using b tr1 by (simp add: tx_commit_def outcome_ok_def)
  next
    case (Inr backup)
    show ?thesis
    proof (cases r2)
      case (Some e)
      then show ?thesis using b w Inr tr1 tr2 wr(1) by (simp add: tx_commit_def outcome_ok_def)
    next
      case None
      obtain f where f: "last tr2 ?path = Some f" "installable marshal decode reread f" using wr(2)[OF None] by blast
      obtain tr3 r3 where r: "Restore marshal decode (te_restore env) (te_backupReadable env) backup ?path (last tr2) = (tr3, r3)"
        by fastforce
      have tr3: "tr3 \<noteq> []" using Restore_not_Nil r by (metis fst_conv)
      have rolled: "\<exists>f0 p f. fs ?path = Some f0 \<and> Parse decode (fl_data f0) = Inr p \<and> last tr3 ?path = Some f \<and>
          installable marshal decode p f" if r3: "r3 = None" and bne: "backup \<noteq> []"
      proof -
        from Restore_success[of marshal decode "te_restore env" "te_backupReadable env" backup ?path "last tr2", OF _ temps(2)]
        obtain f1 p f where f1: "last tr2 backup = Some f1" "Parse decode (fl_data f1) = Inr p"
          "last tr3 ?path = Some f" "installable marshal decode p f" using r r3 by auto
        obtain f0 f2 where f0: "fs ?path = Some f0" "fs backup = None" "last tr1 backup = Some f2" "fl_data f2 = fl_data f0"
          using Backup_result[of "te_backup env" "te_stamp env" ?path fs backup] b Inr bne by auto
        have "backup \<noteq> ?path" using f0 by auto
        then have "last tr2 backup = last tr1 backup"
          using WriteAtomic_states[OF _ temps(1), of "last tr2" marshal decode reread "last tr1"] w tr2 f0(3) by auto
        then show ?thesis using f0 f1 by auto
      qed
      show ?thesis
      proof (cases "VerifyInstalled marshal decode (te_liveReadable env) (te_liveStat env) ?path reread (last tr2)")
        case verified: None
        then show ?thesis
          using b w Inr None f cand VerifyInstalled_reads_back[OF verified f(1)] by (simp add: tx_commit_def outcome_ok_def)
      next
        case (Some e)
        then show ?thesis
          using b w Inr None r tr3 rolled
          by (cases r3) (auto simp: tx_commit_def outcome_ok_def)
      qed
    qed
  qed
qed

lemma transaction_committed:
  assumes "we_temp (te_cand env) \<noteq> Some (tx_livePath t)" "we_temp (te_install env) \<noteq> Some (tx_livePath t)"
    "we_temp (te_restore env) \<noteq> Some (tx_livePath t)"
    and "s \<in> set (fst (runTransaction marshal decode env t fs))" "s (tx_livePath t) \<noteq> fs (tx_livePath t)"
  shows "\<exists>tr0 candPath reread backup.
    WriteCandidate marshal decode (te_cand env) (tx_candidate t) fs = (tr0, Inr candPath) \<and>
    LoadFile decode (te_candReadable env) (last tr0) candPath = Inr (Some reread) \<and>
    tx_check marshal env t reread = None \<and> tx_ready marshal decode env t reread \<and>
    commit_safe marshal decode (tx_livePath t) reread fs backup s"
proof -
  let ?c = "WriteCandidate marshal decode (te_cand env) (tx_candidate t) fs"
  note cand = candidate_path_safe[OF assms(1), where marshal = marshal and decode = decode and fs = fs]
  from runTransaction_cases[of marshal decode env t fs] show ?thesis
  proof (elim disjE exE conjE)
    fix candPath reread
    assume c: "snd ?c = Inr candPath" "last (fst ?c) candPath \<noteq> None" "tx_ready marshal decode env t reread"
      and l: "LoadFile decode (te_candReadable env) (last (fst ?c)) candPath = Inr (Some reread)"
        "tx_check marshal env t reread = None"
      and r: "runTransaction marshal decode env t fs =
        (fst ?c @ fst (tx_commit marshal decode env t candPath reread (last (fst ?c))),
         snd (tx_commit marshal decode env t candPath reread (last (fst ?c))))"
    have "s \<in> set (fst (tx_commit marshal decode env t candPath reread (last (fst ?c))))"
      using assms(4,5) cand r by auto
    from tx_commit_states[OF assms(2,3) _ c(2) this] cand c(1) assms(5)
    obtain backup where "commit_safe marshal decode (tx_livePath t) reread (last (fst ?c)) backup s" by metis
    then have "commit_safe marshal decode (tx_livePath t) reread fs backup s" using cand by (auto simp: commit_safe_def)
    then show ?thesis using c l by (metis prod.collapse)
  next
    assume "fst (runTransaction marshal decode env t fs) = fst ?c"
    then show ?thesis using assms(4,5) cand by metis
  next
    fix candPath assume "snd ?c = Inr candPath" "fst (runTransaction marshal decode env t fs) =
      fst ?c @ [if te_removeCand env then (last (fst ?c))(candPath := None) else last (fst ?c)]"
    then show ?thesis using assms(4,5) cand by (auto split: if_splits)
  qed
qed

lemma transaction_states:
  assumes "we_temp (te_cand env) \<noteq> Some (tx_livePath t)" "we_temp (te_install env) \<noteq> Some (tx_livePath t)"
    "we_temp (te_restore env) \<noteq> Some (tx_livePath t)"
    and "s \<in> set (fst (runTransaction marshal decode env t fs))" "s (tx_livePath t) \<noteq> fs (tx_livePath t)"
  shows "\<exists>reread backup. tx_ready marshal decode env t reread \<and>
    commit_safe marshal decode (tx_livePath t) reread fs backup s"
  using transaction_committed[OF assms] by blast

subsection \<open>Properties\<close>

text \<open>
  (C3) The live policy is touched only after every check. If in any state of a transaction,
  so at any crash point, the live file differs from what it was, then an install was asked for
  and confirmed, the candidate was read back from its own file, its analysis has no error, and
  no authorization changes but the ones asked for; the live file then holds the complete
  candidate (or, in a rollback, the old policy rendered again), and the old contents are
  safe in a flushed backup.
\<close>

theorem transaction_guarded:
  assumes "we_temp (te_cand env) \<noteq> Some (tx_livePath t)" "we_temp (te_install env) \<noteq> Some (tx_livePath t)"
    "we_temp (te_restore env) \<noteq> Some (tx_livePath t)"
    and "s \<in> set (fst (runTransaction marshal decode env t fs))" "s (tx_livePath t) \<noteq> fs (tx_livePath t)"
  shows "\<exists>reread backup. tx_ready marshal decode env t reread \<and>
    commit_safe marshal decode (tx_livePath t) reread fs backup s"
  by (rule transaction_states[OF assms])


definition example_tenv :: tenv where
  "example_tenv =
     \<lparr>te_cand = good_wenv ''c'', te_candReadable = True, te_now = example_day, te_line = ''yes'',
      te_backup = good_benv, te_stamp = stamped ''p'', te_install = good_wenv ''t'', te_liveReadable = True,
      te_liveStat = True, te_backupReadable = True, te_restore = good_wenv ''u'', te_removeCand = True\<rparr>"

definition example_tx :: transaction where
  "example_tx =
     \<lparr>tx_livePath = ''p'', tx_live = \<lparr>p_Schema = 1, p_Rules = []\<rparr>, tx_liveOnDisk = True,
      tx_candidate = one_rule_policy, tx_expected = Some (RuleProbes (allow_rule [''bao:a''] [''ci''] [''exec''])),
      tx_apply = True, tx_assumeYes = False\<rparr>"

definition example_fs :: fsys where
  "example_fs = (\<lambda>_. None)(''p'' \<mapsto> \<lparr>fl_data = ''0'', fl_mode = FileMode, fl_synced = True\<rparr>)"

theorem transaction_guarded_witness:
  "\<exists>reread. tx_ready toy_marshal toy_decode example_tenv example_tx reread"
proof -
  let ?r = "runTransaction toy_marshal toy_decode example_tenv example_tx example_fs"
  let ?s = "last (fst ?r)"
  have m: "?s \<in> set (fst ?r)"
    by (rule last_in_set) code_simp
  have "map_option fl_data (?s ''p'') = Some ''1''" by code_simp
  then have "?s (tx_livePath example_tx) \<noteq> example_fs (tx_livePath example_tx)"
    by (auto simp: example_fs_def example_tx_def)
  with m show ?thesis
    using transaction_guarded[of example_tenv example_tx ?s toy_marshal toy_decode example_fs]
    by (auto simp: example_tenv_def example_tx_def good_wenv_def)
qed


end
