(* ===== verification/Paths.thy ===== *)
theory Paths
  imports Prelude
begin

text \<open>
  File paths: the functions of Go's \<open>path/filepath\<close> (on Unix) that the sources call, and the
  directories \<open>parzival\<close> derives from its environment (\<open>ConfigDir\<close> and \<open>stateDir\<close> of
  \<open>internal/policy/policy.go\<close>, \<open>configHome\<close> of \<open>internal/consumer\<close> and \<open>internal/profile\<close>).
\<close>

subsection \<open>filepath\<close>

definition slash :: char where "slash = CHR ''/''"

definition IsAbs :: "string \<Rightarrow> bool" where
  "IsAbs p \<longleftrightarrow> has_prefix p ''/''"

lemma IsAbs_iff: "IsAbs p \<longleftrightarrow> p \<noteq> [] \<and> hd p = slash"
  by (cases p) (auto simp: IsAbs_def has_prefix_def slash_def)

text \<open>\<open>Clean\<close>: the elements kept so far are on a stack, as in Go's lazy buffer.\<close>

fun clean_comps :: "bool \<Rightarrow> string list \<Rightarrow> string list \<Rightarrow> string list" where
  "clean_comps rooted acc [] = rev acc"
| "clean_comps rooted acc (c # cs) =
     (if c = [] \<or> c = ''.'' then clean_comps rooted acc cs
      else if c = ''..'' then
        (case acc of
           [] \<Rightarrow> if rooted then clean_comps rooted acc cs else clean_comps rooted [''..''] cs
         | a # acc' \<Rightarrow> if a = ''..'' then clean_comps rooted (''..'' # acc) cs else clean_comps rooted acc' cs)
      else clean_comps rooted (c # acc) cs)"

definition Clean :: "string \<Rightarrow> string" where
  "Clean path =
     (if path = [] then ''.''
      else
        let rooted = (hd path = slash); cs = clean_comps rooted [] (split_on slash path)
        in if rooted then slash # join_with ''/'' cs else if cs = [] then ''.'' else join_with ''/'' cs)"

definition Join :: "string list \<Rightarrow> string" where
  "Join elems =
     (case dropWhile (\<lambda>e. e = []) elems of [] \<Rightarrow> [] | es \<Rightarrow> Clean (join_with ''/'' es))"

text \<open>\<open>Dir\<close>: everything up to and including the last separator, cleaned.\<close>

definition Dir :: "string \<Rightarrow> string" where
  "Dir path = Clean (rev (dropWhile (\<lambda>c. c \<noteq> slash) (rev path)))"

definition Base :: "string \<Rightarrow> string" where
  "Base path =
     (if path = [] then ''.''
      else
        let p = rev (dropWhile (\<lambda>c. c = slash) (rev path))
        in if p = [] then ''/'' else rev (takeWhile (\<lambda>c. c \<noteq> slash) (rev p)))"

subsection \<open>What a clean path is\<close>

definition normal_comp :: "string \<Rightarrow> bool" where
  "normal_comp c \<longleftrightarrow> c \<noteq> [] \<and> slash \<notin> set c \<and> c \<noteq> ''.'' \<and> c \<noteq> ''..''"

lemma clean_comps_rooted:
  "\<lbrakk>\<forall>c\<in>set acc. normal_comp c; \<forall>c\<in>set cs. slash \<notin> set c\<rbrakk> \<Longrightarrow>
   \<forall>c\<in>set (clean_comps True acc cs). normal_comp c"
proof (induction cs arbitrary: acc)
  case (Cons c cs)
  have IH: "\<forall>x\<in>set acc'. normal_comp x \<Longrightarrow> \<forall>x\<in>set (clean_comps True acc' cs). normal_comp x" for acc'
    using Cons.IH[of acc'] Cons.prems(2) by simp
  have n: "c \<noteq> [] \<Longrightarrow> c \<noteq> ''.'' \<Longrightarrow> c \<noteq> ''..'' \<Longrightarrow> normal_comp c"
    using Cons.prems(2) by (simp add: normal_comp_def)
  have "clean_comps True acc (c # cs) = clean_comps True acc cs \<or>
      clean_comps True acc (c # cs) = clean_comps True (tl acc) cs \<or>
      (normal_comp c \<and> clean_comps True acc (c # cs) = clean_comps True (c # acc) cs)"
  proof (cases acc)
    case Nil
    then show ?thesis using n by simp
  next
    case (Cons a acc')
    then have "a \<noteq> ''..''" using Cons.prems(1) by (simp add: normal_comp_def)
    then show ?thesis using n Cons by simp
  qed
  moreover have "\<forall>x\<in>set (tl acc). normal_comp x" using Cons.prems(1) by (cases acc) simp_all
  ultimately show ?case using IH[of acc] IH[of "tl acc"] IH[of "c # acc"] Cons.prems(1)
    by (metis set_ConsD)
qed simp

lemma clean_comps_normal:
  "\<forall>c\<in>set cs. normal_comp c \<Longrightarrow> clean_comps rooted acc cs = rev acc @ cs"
  by (induction rooted acc cs rule: clean_comps.induct) (auto simp: normal_comp_def)

lemma split_no_sep: "c \<notin> set x \<Longrightarrow> split_on c x = [x]"
  by (induction x) auto

lemma split_on_append: "c \<notin> set x \<Longrightarrow> split_on c (x @ c # ys) = x # split_on c ys"
proof (induction x)
  case (Cons a x)
  then show ?case by (cases "split_on c ys") auto
qed simp

lemma split_join:
  "cs \<noteq> [] \<Longrightarrow> \<forall>x\<in>set cs. c \<notin> set x \<Longrightarrow> split_on c (join_with [c] cs) = cs"
proof (induction cs)
  case (Cons x cs)
  then show ?case by (cases cs) (simp_all add: split_no_sep split_on_append)
qed simp

lemma Clean_abs_shape:
  assumes "IsAbs p" "Clean p = p"
  shows "\<exists>cs. p = slash # join_with ''/'' cs \<and> (\<forall>c\<in>set cs. normal_comp c)"
proof -
  have p: "p \<noteq> []" "hd p = slash"
    using assms(1) by (cases p; auto simp: IsAbs_def has_prefix_def slash_def)+
  let ?cs = "clean_comps True [] (split_on slash p)"
  have "p = slash # join_with ''/'' ?cs" using assms(2) p by (simp add: Clean_def Let_def)
  moreover have "\<forall>c\<in>set ?cs. normal_comp c"
    by (rule clean_comps_rooted) (auto dest: split_on_no_sep)
  ultimately show ?thesis by blast
qed

lemma slash_join: "[slash] = ''/''"
  by (simp add: slash_def)

lemma join_append:
  "xs \<noteq> [] \<Longrightarrow> ys \<noteq> [] \<Longrightarrow> join_with s (xs @ ys) = join_with s xs @ s @ join_with s ys"
proof (induction xs)
  case (Cons x xs)
  then show ?case by (cases xs; cases ys) simp_all
qed simp

lemma Clean_normal:
  assumes "\<forall>c\<in>set cs. normal_comp c"
  shows "Clean (slash # join_with ''/'' cs) = slash # join_with ''/'' cs"
proof -
  have s: "split_on slash (slash # join_with ''/'' cs) = [] # split_on slash (join_with ''/'' cs)" by simp
  show ?thesis
  proof (cases "cs = []")
    case True
    then show ?thesis by (simp add: Clean_def)
  next
    case False
    have "\<forall>x\<in>set cs. slash \<notin> set x" using assms by (simp add: normal_comp_def)
    then have "split_on slash (join_with ''/'' cs) = cs" using split_join[OF False, of slash] by (simp add: slash_join)
    then show ?thesis using clean_comps_normal[OF assms, of True "[]"] s by (simp add: Clean_def Let_def)
  qed
qed

subsection \<open>Directories from the environment\<close>

text \<open>The environment variables the sources read, empty when unset, and the home directory.\<close>

record env =
  env_PARZIVAL_CONFIG_HOME :: string
  env_XDG_CONFIG_HOME :: string
  env_XDG_STATE_HOME :: string
  env_XDG_RUNTIME_DIR :: string
  env_home :: string

definition ConfigDir :: "env \<Rightarrow> string" where
  "ConfigDir e =
     (if env_PARZIVAL_CONFIG_HOME e \<noteq> [] then env_PARZIVAL_CONFIG_HOME e
      else if env_XDG_CONFIG_HOME e \<noteq> [] then Join [env_XDG_CONFIG_HOME e, ''parzival'']
      else Join [env_home e, ''.config'', ''parzival''])"

definition stateDir :: "env \<Rightarrow> string" where
  "stateDir e =
     (if env_XDG_STATE_HOME e \<noteq> [] then Join [env_XDG_STATE_HOME e, ''parzival'']
      else Join [env_home e, ''.local'', ''state'', ''parzival''])"

definition policy_Path :: "env \<Rightarrow> string" where
  "policy_Path e = Join [ConfigDir e, ''policy.json'']"

definition consumer_configHome :: "env \<Rightarrow> string" where
  "consumer_configHome e =
     (if env_PARZIVAL_CONFIG_HOME e \<noteq> [] then env_PARZIVAL_CONFIG_HOME e
      else if env_XDG_CONFIG_HOME e \<noteq> [] then Join [env_XDG_CONFIG_HOME e, ''parzival'']
      else Join [env_home e, ''.config'', ''parzival''])"

definition consumer_Dir :: "env \<Rightarrow> string" where
  "consumer_Dir e = Join [consumer_configHome e, ''consumers'']"

definition profile_configHome :: "env \<Rightarrow> string" where
  "profile_configHome e =
     (if env_PARZIVAL_CONFIG_HOME e \<noteq> [] then env_PARZIVAL_CONFIG_HOME e
      else if env_XDG_CONFIG_HOME e \<noteq> [] then Join [env_XDG_CONFIG_HOME e, ''parzival'']
      else Join [env_home e, ''.config'', ''parzival''])"

definition profile_Dir :: "env \<Rightarrow> string" where
  "profile_Dir e = Join [profile_configHome e, ''profiles'']"

end
