(* ===== verification/Store.thy ===== *)
theory Store
  imports Policy Paths
begin

text \<open>
  Secret references and store backends (\<open>internal/store\<close>): parsing a reference, choosing the
  backend and its configuration from the environment and \<open>openbao.json\<close>, what is put on a
  command line or into a request path, the SecretID providers and the capabilities; and the
  agent detection (\<open>internal/agent\<close>). The exchange with a store is in the theory Backends.
\<close>

subsection \<open>References\<close>

record secret_ref =
  sr_Backend :: string
  sr_Path :: string
  sr_Field :: string
  sr_Raw :: string

datatype ref_error = NeedsField string | MissingPath string | Unrecognized string

definition ParseRef :: "string \<Rightarrow> ref_error + secret_ref" where
  "ParseRef ref =
     (if has_prefix ref ''op://'' then
        Inr \<lparr>sr_Backend = ''onepassword'', sr_Path = ref, sr_Field = [], sr_Raw = ref\<rparr>
      else if has_prefix ref ''bao:'' then
        (case cut (trim_prefix ref ''bao:'') CHR ''#'' of
           None \<Rightarrow> Inl (NeedsField ref)
         | Some (path, field) \<Rightarrow>
             if field = [] then Inl (NeedsField ref)
             else if path = [] then Inl (MissingPath ref)
             else Inr \<lparr>sr_Backend = ''openbao'', sr_Path = path, sr_Field = field, sr_Raw = ref\<rparr>)
      else if has_prefix ref ''gopass:'' then
        (let path = trim_prefix ref ''gopass:'' in
         if path = [] then Inl (MissingPath ref)
         else Inr \<lparr>sr_Backend = ''gopass'', sr_Path = path, sr_Field = [], sr_Raw = ref\<rparr>)
      else Inl (Unrecognized ref))"

subsection \<open>Configuration\<close>

text \<open>\<open>getenv\<close> gives an environment variable, empty when unset.\<close>

type_synonym getenv = "string \<Rightarrow> string"

definition envOrFallback :: "getenv \<Rightarrow> string \<Rightarrow> string \<Rightarrow> string" where
  "envOrFallback getenv envVar fallback = (if getenv envVar \<noteq> [] then getenv envVar else fallback)"

record openbao_config =
  oc_Auth :: string
  oc_Addr :: string
  oc_RoleID :: string
  oc_ApproleMount :: string
  oc_Namespace :: string
  oc_SecretIDProvider :: string
  oc_SecretIDFile :: string
  oc_SecretIDName :: string
  oc_SecretIDUID :: string

definition no_config :: openbao_config where
  "no_config = \<lparr>oc_Auth = [], oc_Addr = [], oc_RoleID = [], oc_ApproleMount = [], oc_Namespace = [],
     oc_SecretIDProvider = [], oc_SecretIDFile = [], oc_SecretIDName = [], oc_SecretIDUID = []\<rparr>"

text \<open>\<open>loadOpenBaoFileConfig\<close>: an unreadable or undecodable file counts as an empty one.\<close>

definition loadOpenBaoFileConfig ::
  "(string \<Rightarrow> string option) \<Rightarrow> (string \<Rightarrow> openbao_config option) \<Rightarrow> env \<Rightarrow> openbao_config" where
  "loadOpenBaoFileConfig read unmarshal e =
     (case read (Join [ConfigDir e, ''openbao.json'']) of
        None \<Rightarrow> no_config
      | Some data \<Rightarrow> (case unmarshal data of None \<Rightarrow> no_config | Some cfg \<Rightarrow> cfg))"

text \<open>The providers, with what each is configured with.\<close>

datatype provider =
    EnvProvider string
  | FileProvider string
  | SystemdCredential string string
  | SystemdCredsUser string string string

definition bootstrapProviderFromEnv :: "getenv \<Rightarrow> openbao_config \<Rightarrow> string + provider" where
  "bootstrapProviderFromEnv getenv cfg =
     (let prov = envOrFallback getenv ''PARZIVAL_OPENBAO_SECRET_ID_PROVIDER'' (oc_SecretIDProvider cfg);
          secretIDFile = envOrFallback getenv ''PARZIVAL_OPENBAO_SECRET_ID_FILE'' (oc_SecretIDFile cfg)
      in if prov = [] \<or> prov = ''systemd-credential'' \<or> prov = ''systemd'' then Inr (SystemdCredential [] [])
         else if prov = ''systemd-creds-user'' then
           Inr (SystemdCredsUser secretIDFile
             (envOrFallback getenv ''PARZIVAL_OPENBAO_SECRET_ID_NAME'' (oc_SecretIDName cfg))
             (envOrFallback getenv ''PARZIVAL_OPENBAO_SECRET_ID_UID'' (oc_SecretIDUID cfg)))
         else if prov = ''env'' then Inr (EnvProvider [])
         else if prov = ''file'' then Inr (FileProvider secretIDFile)
         else Inl prov)"

definition provider_Name :: "provider \<Rightarrow> string" where
  "provider_Name p =
     (case p of EnvProvider _ \<Rightarrow> ''env'' | FileProvider _ \<Rightarrow> ''file'' | SystemdCredential _ _ \<Rightarrow> ''systemd-credential''
      | SystemdCredsUser _ _ _ \<Rightarrow> ''systemd-creds-user'')"

definition trimCredentialNewline :: "string \<Rightarrow> string" where
  "trimCredentialNewline data = rev (dropWhile (\<lambda>c. c = CHR 0x0D \<or> c = CHR 0x0A) (rev data))"

definition defaultSystemdSecretIDName :: string where
  "defaultSystemdSecretIDName = ''openbao-secret-id''"

datatype provider_error = EmptyVar string | ReadFailed | CommandFailed

text \<open>
  \<open>ReadSecretID\<close> of each provider. \<open>read\<close> is a file's contents and \<open>run\<close> the output of
  \<open>systemd-creds\<close> on the given arguments.
\<close>

definition ReadSecretID ::
  "getenv \<Rightarrow> (string \<Rightarrow> string option) \<Rightarrow> (string list \<Rightarrow> string option) \<Rightarrow> provider \<Rightarrow> provider_error + string" where
  "ReadSecretID getenv read run p =
     (case p of
        EnvProvider var \<Rightarrow>
          (let name = (if var = [] then ''PARZIVAL_OPENBAO_SECRET_ID'' else var); val = getenv name in
           if val = [] then Inl (EmptyVar name) else Inr val)
      | FileProvider path \<Rightarrow>
          if path = [] then Inl (EmptyVar ''PARZIVAL_OPENBAO_SECRET_ID_FILE'')
          else (case read path of None \<Rightarrow> Inl ReadFailed | Some data \<Rightarrow> Inr (trimCredentialNewline data))
      | SystemdCredential nameInDir dir \<Rightarrow>
          (let d = (if dir = [] then getenv ''CREDENTIALS_DIRECTORY'' else dir) in
           if d = [] then Inl (EmptyVar ''CREDENTIALS_DIRECTORY'')
           else
             let n0 = (if nameInDir = [] then getenv ''PARZIVAL_OPENBAO_SECRET_ID_NAME'' else nameInDir);
                 n = (if n0 = [] then defaultSystemdSecretIDName else n0)
             in case read (Join [d, n]) of None \<Rightarrow> Inl ReadFailed | Some data \<Rightarrow> Inr (trimCredentialNewline data))
      | SystemdCredsUser path credName uid0 \<Rightarrow>
          if path = [] then Inl (EmptyVar ''PARZIVAL_OPENBAO_SECRET_ID_FILE'')
          else
            let n0 = (if credName = [] then getenv ''PARZIVAL_OPENBAO_SECRET_ID_NAME'' else credName);
                n = (if n0 = [] then defaultSystemdSecretIDName else n0);
                uid = (if uid0 = [] then getenv ''PARZIVAL_OPENBAO_SECRET_ID_UID'' else uid0);
                args = [''decrypt'', ''--user''] @ (if uid \<noteq> [] then [''--uid='' @ uid] else []) @
                       [''--name='' @ n, path]
            in case run args of None \<Rightarrow> Inl CommandFailed | Some out \<Rightarrow> Inr (trimCredentialNewline out))"

subsection \<open>Backends\<close>

datatype openbao_error = ApproleNeedsAddr | ApproleNeedsRoleID | UnknownProvider string | UnknownAuth string

record openbao =
  ob_approle :: bool
  ob_addr :: string
  ob_roleID :: string
  ob_authMount :: string
  ob_namespace :: string
  ob_bootstrap :: "provider option"

definition NewOpenBao :: openbao where
  "NewOpenBao = \<lparr>ob_approle = False, ob_addr = [], ob_roleID = [], ob_authMount = [], ob_namespace = [],
     ob_bootstrap = None\<rparr>"

definition NewOpenBaoFromEnv :: "getenv \<Rightarrow> openbao_config \<Rightarrow> openbao_error + openbao" where
  "NewOpenBaoFromEnv getenv cfg =
     (let mode0 = envOrFallback getenv ''PARZIVAL_OPENBAO_AUTH'' (oc_Auth cfg);
          mode = (if mode0 = [] then ''ambient'' else mode0)
      in if mode = ''ambient'' then Inr NewOpenBao
         else if mode = ''approle'' then
           (let addr0 = envOrFallback getenv ''BAO_ADDR'' (oc_Addr cfg);
                addr = (if addr0 = [] then getenv ''VAULT_ADDR'' else addr0)
            in if addr = [] then Inl ApproleNeedsAddr
               else
                 let roleID = envOrFallback getenv ''PARZIVAL_OPENBAO_ROLE_ID'' (oc_RoleID cfg)
                 in if roleID = [] then Inl ApproleNeedsRoleID
                    else case bootstrapProviderFromEnv getenv cfg of
                           Inl p \<Rightarrow> Inl (UnknownProvider p)
                         | Inr prov \<Rightarrow>
                             let mount0 = envOrFallback getenv ''PARZIVAL_OPENBAO_APPROLE_MOUNT'' (oc_ApproleMount cfg);
                                 ns0 = envOrFallback getenv ''BAO_NAMESPACE'' (oc_Namespace cfg)
                             in Inr \<lparr>ob_approle = True, ob_addr = addr, ob_roleID = roleID,
                                     ob_authMount = (if mount0 = [] then ''approle'' else mount0),
                                     ob_namespace = (if ns0 = [] then getenv ''VAULT_NAMESPACE'' else ns0),
                                     ob_bootstrap = Some prov\<rparr>)
         else Inl (UnknownAuth mode))"

datatype backend = OpenBao openbao | OnePassword | Gopass

datatype resolve_error = OpenBaoError openbao_error | NoBackend string

definition Resolve :: "getenv \<Rightarrow> openbao_config \<Rightarrow> secret_ref \<Rightarrow> resolve_error + backend" where
  "Resolve getenv cfg ref =
     (if sr_Backend ref = ''openbao'' then
        (case NewOpenBaoFromEnv getenv cfg of Inl e \<Rightarrow> Inl (OpenBaoError e) | Inr o' \<Rightarrow> Inr (OpenBao o'))
      else if sr_Backend ref = ''onepassword'' then Inr OnePassword
      else if sr_Backend ref = ''gopass'' then Inr Gopass
      else Inl (NoBackend (sr_Backend ref)))"

record capabilities =
  cap_EncryptedAtRest :: bool
  cap_NonAmbientBrokerAuth :: bool
  cap_ScopedStoreAuthorization :: bool
  cap_ShortLivedCredential :: bool
  cap_BackendAudit :: bool
  cap_InteractiveUnlock :: bool
  cap_UnattendedBootstrap :: bool

definition StrongUnattended :: "capabilities \<Rightarrow> bool" where
  "StrongUnattended c \<longleftrightarrow>
     cap_EncryptedAtRest c \<and> cap_NonAmbientBrokerAuth c \<and> cap_ScopedStoreAuthorization c \<and>
     cap_ShortLivedCredential c \<and> cap_BackendAudit c \<and> cap_UnattendedBootstrap c"

definition openbao_Capabilities :: "openbao \<Rightarrow> capabilities" where
  "openbao_Capabilities o' =
     (if ob_approle o' then
        \<lparr>cap_EncryptedAtRest = True, cap_NonAmbientBrokerAuth = True, cap_ScopedStoreAuthorization = True,
         cap_ShortLivedCredential = True, cap_BackendAudit = True, cap_InteractiveUnlock = False,
         cap_UnattendedBootstrap = True\<rparr>
      else
        \<lparr>cap_EncryptedAtRest = True, cap_NonAmbientBrokerAuth = False, cap_ScopedStoreAuthorization = True,
         cap_ShortLivedCredential = False, cap_BackendAudit = True, cap_InteractiveUnlock = False,
         cap_UnattendedBootstrap = False\<rparr>)"

definition onepassword_Capabilities :: capabilities where
  "onepassword_Capabilities =
     \<lparr>cap_EncryptedAtRest = True, cap_NonAmbientBrokerAuth = False, cap_ScopedStoreAuthorization = False,
      cap_ShortLivedCredential = False, cap_BackendAudit = True, cap_InteractiveUnlock = True,
      cap_UnattendedBootstrap = False\<rparr>"

definition gopass_Capabilities :: capabilities where
  "gopass_Capabilities =
     \<lparr>cap_EncryptedAtRest = True, cap_NonAmbientBrokerAuth = False, cap_ScopedStoreAuthorization = False,
      cap_ShortLivedCredential = False, cap_BackendAudit = False, cap_InteractiveUnlock = True,
      cap_UnattendedBootstrap = False\<rparr>"

definition backend_Capabilities :: "backend \<Rightarrow> capabilities" where
  "backend_Capabilities b =
     (case b of OpenBao o' \<Rightarrow> openbao_Capabilities o' | OnePassword \<Rightarrow> onepassword_Capabilities
      | Gopass \<Rightarrow> gopass_Capabilities)"

subsection \<open>Fetching\<close>

text \<open>
  The path \<open>apiURL\<close> builds for the elements of a request, when the configured address has no
  path of its own and the elements hold no character that a URL escapes: \<open>url.JoinPath\<close> joins
  and cleans them below \<open>/v1\<close>.
\<close>

definition apiPath :: "string list \<Rightarrow> string" where
  "apiPath parts = Join (''/'' # ''v1'' # parts)"

text \<open>What a fetch does: the command it runs, or the path it requests.\<close>

datatype fetch = RunCommand string "string list" | HTTPGet string

datatype get_error = BadBaoPath string | Unimplemented

definition Get :: "backend \<Rightarrow> secret_ref \<Rightarrow> get_error + fetch" where
  "Get b ref =
     (case b of
        OpenBao o' \<Rightarrow>
          (case cut (sr_Path ref) slash of
             None \<Rightarrow> Inl (BadBaoPath (sr_Raw ref))
           | Some (mount, path) \<Rightarrow>
               if path = [] then Inl (BadBaoPath (sr_Raw ref))
               else if ob_approle o' then Inr (HTTPGet (apiPath [mount, ''data'', path]))
               else Inr (RunCommand ''bao'' [''kv'', ''get'', ''-field='' @ sr_Field ref, ''-mount='' @ mount, path]))
      | OnePassword \<Rightarrow> Inr (RunCommand ''op'' [''read'', ''--no-newline'', sr_Path ref])
      | Gopass \<Rightarrow> Inl Unimplemented)"

text \<open>\<open>bytes.TrimSuffix\<close> of the newline \<open>bao\<close> appends.\<close>

definition ambient_value :: "string \<Rightarrow> string" where
  "ambient_value out = (if has_suffix out newline then butlast out else out)"

subsection \<open>Agent detection\<close>

definition markers :: "(string \<times> string) list" where
  "markers =
     [(''PARZIVAL_AGENT'', ''an AI agent harness (declared by $PARZIVAL_AGENT)''),
      (''CLAUDECODE'', ''Claude Code''), (''CLAUDE_CODE_ENTRYPOINT'', ''Claude Code''),
      (''CLAUDE_CODE_SESSION_ID'', ''Claude Code''), (''CURSOR_AGENT'', ''Cursor''),
      (''CURSOR_TRACE_ID'', ''Cursor''), (''CODEX_SANDBOX'', ''OpenAI Codex CLI''),
      (''AI_AGENT'', ''an AI agent harness'')]"

definition detect :: "getenv \<Rightarrow> (string \<times> string) option" where
  "detect getenv = find (\<lambda>m. getenv (fst m) \<noteq> []) markers"

subsection \<open>Properties\<close>

text \<open>
  A reference is read in one way and keeps its text: for OpenBao the path, a number sign
  and the field, the field starting at the first number sign, give it back; and nothing is
  accepted that has neither of the three prefixes.
\<close>

theorem ParseRef_inverse:
  assumes "ParseRef ref = Inr r"
  shows "sr_Raw r = ref \<and>
    (sr_Backend r = ''openbao'' \<and> ref = ''bao:'' @ sr_Path r @ ''#'' @ sr_Field r \<and> CHR ''#'' \<notin> set (sr_Path r) \<and>
       sr_Path r \<noteq> [] \<and> sr_Field r \<noteq> [] \<or>
     sr_Backend r = ''onepassword'' \<and> has_prefix ref ''op://'' \<and> sr_Path r = ref \<or>
     sr_Backend r = ''gopass'' \<and> ref = ''gopass:'' @ sr_Path r \<and> sr_Path r \<noteq> [])"
proof -
  have b: "s = p @ trim_prefix s p" if "has_prefix s p" for s p
    using has_prefixE[OF that] that by (simp add: trim_prefix_def)
  consider "has_prefix ref ''op://''" | "\<not> has_prefix ref ''op://''" "has_prefix ref ''bao:''"
    | "\<not> has_prefix ref ''op://''" "\<not> has_prefix ref ''bao:''" "has_prefix ref ''gopass:''"
    using assms by (auto simp: ParseRef_def split: if_splits)
  then show ?thesis
  proof cases
    case 1
    then show ?thesis using assms by (auto simp: ParseRef_def)
  next
    case 2
    then obtain path field where c: "cut (trim_prefix ref ''bao:'') CHR ''#'' = Some (path, field)"
      "field \<noteq> []" "path \<noteq> []" "r = \<lparr>sr_Backend = ''openbao'', sr_Path = path, sr_Field = field, sr_Raw = ref\<rparr>"
      using assms by (auto simp: ParseRef_def split: option.splits if_splits)
    have "trim_prefix ref ''bao:'' = path @ CHR ''#'' # field" "CHR ''#'' \<notin> set path"
      using c(1) by (auto simp: cut_Some_iff)
    then have "ref = ''bao:'' @ path @ CHR ''#'' # field" using b[OF 2(2)] by metis
    then show ?thesis using c \<open>CHR ''#'' \<notin> set path\<close> by simp
  next
    case 3
    then have "trim_prefix ref ''gopass:'' \<noteq> []"
      "r = \<lparr>sr_Backend = ''gopass'', sr_Path = trim_prefix ref ''gopass:'', sr_Field = [], sr_Raw = ref\<rparr>"
      using assms by (auto simp: ParseRef_def Let_def split: if_splits)
    then show ?thesis using b[OF 3(3)] by simp
  qed
qed

theorem ParseRef_inverse_witness:
  "\<exists>r. ParseRef ''bao:app/gitea#token'' = Inr r \<and> sr_Raw r = ''bao:app/gitea#token''"
proof -
  have "\<not> isl (ParseRef ''bao:app/gitea#token'')" by code_simp
  then obtain r where "ParseRef ''bao:app/gitea#token'' = Inr r" by (cases "ParseRef ''bao:app/gitea#token''") auto
  then show ?thesis using ParseRef_inverse by blast
qed

definition gitea_only :: policy where
  "gitea_only = \<lparr>p_Schema = 1, p_Rules = [allow_rule [''bao:app/gitea*''] [''ci''] [''exec'']]\<rparr>"

definition approle_backend :: backend where
  "approle_backend = OpenBao (NewOpenBao\<lparr>ob_approle := True\<rparr>)"

definition requested :: "string \<Rightarrow> fetch option" where
  "requested ref =
     (case ParseRef ref of
        Inl _ \<Rightarrow> None
      | Inr r \<Rightarrow> (case Get approle_backend r of Inl _ \<Rightarrow> None | Inr f \<Rightarrow> Some f))"

text \<open>
  The policy decides on the text of a reference, and OpenBao is asked for the cleaned
  path, so one secret has many names and a policy can be walked around. Under a policy that
  allows refs below \<open>app/gitea\<close> only, \<open>bao:app/gitea/../db#pw\<close> is allowed and requests the very
  path of \<open>bao:app/db#pw\<close>, which is denied; with two more steps up it leaves the mount.
\<close>

theorem ref_alias_bypasses_policy:
  "d_Allow (Evaluate gitea_only (plain_request ''bao:app/gitea/../db#pw'' ''ci'' ''exec'')) \<and>
   \<not> d_Allow (Evaluate gitea_only (plain_request ''bao:app/db#pw'' ''ci'' ''exec'')) \<and>
   requested ''bao:app/gitea/../db#pw'' = Some (HTTPGet ''/v1/app/data/db'') \<and>
   requested ''bao:app/db#pw'' = Some (HTTPGet ''/v1/app/data/db'') \<and>
   d_Allow (Evaluate gitea_only (plain_request ''bao:app/gitea/../../../ops/data/root#key'' ''ci'' ''exec'')) \<and>
   requested ''bao:app/gitea/../../../ops/data/root#key'' = Some (HTTPGet ''/v1/ops/data/root'')"
  by (intro conjI; code_simp)

text \<open>
  A backend counts as fit for strong unattended use exactly when it is OpenBao with AppRole
  authentication, and then an address, a role and a SecretID provider are configured; every
  reference that parses has a backend, the only failures being those of the OpenBao
  configuration; and an environment variable always wins over the file.
\<close>

theorem Resolve_strength:
  assumes "ParseRef ref = Inr r"
  shows "(case Resolve getenv cfg r of
      Inl e \<Rightarrow> (\<exists>e'. e = OpenBaoError e') \<and> sr_Backend r = ''openbao''
    | Inr b \<Rightarrow> StrongUnattended (backend_Capabilities b) =
        (\<exists>o'. b = OpenBao o' \<and> ob_approle o' \<and> ob_addr o' \<noteq> [] \<and> ob_roleID o' \<noteq> [] \<and> ob_bootstrap o' \<noteq> None)) \<and>
    (getenv ''PARZIVAL_OPENBAO_AUTH'' = ''ambient'' \<longrightarrow>
       NewOpenBaoFromEnv getenv cfg = Inr NewOpenBao)"
proof -
  have r: "sr_Backend r \<in> {''openbao'', ''onepassword'', ''gopass''}"
    using assms by (auto simp: ParseRef_def Let_def split: if_splits option.splits)
  have new: "ob_approle o' \<longrightarrow> ob_addr o' \<noteq> [] \<and> ob_roleID o' \<noteq> [] \<and> ob_bootstrap o' \<noteq> None"
    if "NewOpenBaoFromEnv getenv cfg = Inr o'" for o'
    using that by (auto simp: NewOpenBaoFromEnv_def Let_def NewOpenBao_def split: if_splits sum.splits)
  have strong: "StrongUnattended (openbao_Capabilities o') = ob_approle o'" for o'
    by (simp add: StrongUnattended_def openbao_Capabilities_def)
  have weak: "\<not> StrongUnattended onepassword_Capabilities" "\<not> StrongUnattended gopass_Capabilities"
    by (simp_all add: StrongUnattended_def onepassword_Capabilities_def gopass_Capabilities_def)
  have "getenv ''PARZIVAL_OPENBAO_AUTH'' = ''ambient'' \<longrightarrow> NewOpenBaoFromEnv getenv cfg = Inr NewOpenBao"
    by (simp add: NewOpenBaoFromEnv_def envOrFallback_def)
  moreover have "case Resolve getenv cfg r of
      Inl e \<Rightarrow> (\<exists>e'. e = OpenBaoError e') \<and> sr_Backend r = ''openbao''
    | Inr b \<Rightarrow> StrongUnattended (backend_Capabilities b) =
        (\<exists>o'. b = OpenBao o' \<and> ob_approle o' \<and> ob_addr o' \<noteq> [] \<and> ob_roleID o' \<noteq> [] \<and> ob_bootstrap o' \<noteq> None)"
  proof (cases "sr_Backend r = ''openbao''")
    case True
    then show ?thesis
      using new strong
      by (cases "NewOpenBaoFromEnv getenv cfg") (auto simp: Resolve_def backend_Capabilities_def)
  next
    case False
    then show ?thesis using r weak by (auto simp: Resolve_def backend_Capabilities_def)
  qed
  ultimately show ?thesis by blast
qed

theorem Resolve_strength_witness:
  "\<exists>b. Resolve (\<lambda>v. if v = ''PARZIVAL_OPENBAO_AUTH'' then ''ambient'' else []) no_config
     \<lparr>sr_Backend = ''openbao'', sr_Path = ''app/db'', sr_Field = ''pw'', sr_Raw = ''bao:app/db#pw''\<rparr> = Inr b \<and>
     b = OpenBao NewOpenBao"
proof -
  let ?g = "\<lambda>v. if v = ''PARZIVAL_OPENBAO_AUTH'' then ''ambient'' else []"
  have p: "ParseRef ''bao:app/db#pw'' =
      Inr \<lparr>sr_Backend = ''openbao'', sr_Path = ''app/db'', sr_Field = ''pw'', sr_Raw = ''bao:app/db#pw''\<rparr>" by code_simp
  have "NewOpenBaoFromEnv ?g no_config = Inr NewOpenBao" using Resolve_strength[OF p, of ?g no_config] by simp
  then show ?thesis by (simp add: Resolve_def)
qed

end
