(* ===== verification/Backends.thy ===== *)
theory Backends
  imports Store
begin

text \<open>
  What a fetch does with the store behind it: the AppRole exchange and the ambient command of
  \<open>internal/store/openbao.go\<close>, the commands of the other backends, and the runner of
  \<open>internal/store/exec.go\<close>. Of \<open>net/url\<close> the path functions are modelled; its parser, the
  HTTP client's \<open>Do\<close>, \<open>encoding/json\<close> and the commands' output are parameters.
\<close>

subsection \<open>Paths of a URL\<close>

definition is_alnum :: "char \<Rightarrow> bool" where
  "is_alnum c \<longleftrightarrow> is_digit c \<or> (CHR ''a'' \<le> c \<and> c \<le> CHR ''z'') \<or> (CHR ''A'' \<le> c \<and> c \<le> CHR ''Z'')"

text \<open>\<open>shouldEscape\<close>, \<open>escape\<close>, \<open>unescape\<close> and \<open>validEncoded\<close> in the mode \<open>encodePath\<close>.\<close>

definition shouldEscape :: "char \<Rightarrow> bool" where
  "shouldEscape c \<longleftrightarrow> \<not> (is_alnum c \<or> c \<in> set ''-_.~$&+,/:;=@'')"

definition hex_digit :: "nat \<Rightarrow> char" where
  "hex_digit n = ''0123456789ABCDEF'' ! n"

definition hex_val :: "char \<Rightarrow> nat option" where
  "hex_val c =
     (if is_digit c then Some (of_char c - 48)
      else if CHR ''a'' \<le> c \<and> c \<le> CHR ''f'' then Some (of_char c - 87)
      else if CHR ''A'' \<le> c \<and> c \<le> CHR ''F'' then Some (of_char c - 55)
      else None)"

fun escape :: "string \<Rightarrow> string" where
  "escape [] = []"
| "escape (c # s) =
     (if shouldEscape c then CHR ''%'' # hex_digit (of_char c div 16) # hex_digit (of_char c mod 16) # escape s
      else c # escape s)"

fun unescape :: "string \<Rightarrow> string option" where
  "unescape [] = Some []"
| "unescape (c # s) =
     (if c \<noteq> CHR ''%'' then map_option (\<lambda>t. c # t) (unescape s)
      else case s of
        a # b # s' \<Rightarrow>
          (case (hex_val a, hex_val b) of
             (Some x, Some y) \<Rightarrow> map_option (\<lambda>t. char_of (16 * x + y) # t) (unescape s')
           | _ \<Rightarrow> None)
      | _ \<Rightarrow> None)"

definition validEncoded :: "string \<Rightarrow> bool" where
  "validEncoded s \<longleftrightarrow> list_all (\<lambda>c. c \<in> set ''!$&()*+,;=:@[]%'' \<or> c = CHR 0x27 \<or> \<not> shouldEscape c) s"

text \<open>
  A parsed URL: what \<open>String\<close> writes before and after a path that is not empty, whether it has a
  host, whether it is opaque, and the path.
\<close>

record parsed_url =
  ur_prefix :: string
  ur_host :: bool
  ur_opaque :: bool
  ur_Path :: string
  ur_RawPath :: string
  ur_suffix :: string

definition EscapedPath :: "parsed_url \<Rightarrow> string" where
  "EscapedPath u =
     (if ur_RawPath u \<noteq> [] \<and> validEncoded (ur_RawPath u) \<and> unescape (ur_RawPath u) = Some (ur_Path u) then ur_RawPath u
      else if ur_Path u = ''*'' then ''*''
      else escape (ur_Path u))"

definition url_String :: "parsed_url \<Rightarrow> string" where
  "url_String u =
     (if ur_opaque u then ur_prefix u @ ur_suffix u
      else
        let path = EscapedPath u;
            rooted = (if path \<noteq> [] \<and> hd path \<noteq> slash \<and> ur_host u then slash # path else path);
            relative = (if ur_prefix u = [] \<and> CHR '':'' \<in> set (takeWhile (\<lambda>c. c \<noteq> slash) rooted)
                        then ''./'' @ rooted else rooted)
        in ur_prefix u @ relative @ ur_suffix u)"

text \<open>
  \<open>URL.JoinPath\<close>: the elements are taken as encoded already. What becomes of a malformed
  percent sign depends on the release of the library and is the argument \<open>bad\<close>.
\<close>

definition JoinPath :: "(parsed_url \<Rightarrow> parsed_url option) \<Rightarrow> parsed_url \<Rightarrow> string list \<Rightarrow> parsed_url option" where
  "JoinPath bad u elems =
     (let e0 = EscapedPath u;
          p0 = (if has_prefix e0 ''/'' then Join (e0 # elems) else tl (Join ((slash # e0) # elems)));
          p = (if has_suffix (last (e0 # elems)) ''/'' \<and> \<not> has_suffix p0 ''/'' then p0 @ ''/'' else p0)
      in case unescape p of
           None \<Rightarrow> bad u
         | Some path \<Rightarrow> Some (u\<lparr>ur_Path := path, ur_RawPath := (if p = escape path then [] else p)\<rparr>))"

subsection \<open>Requests\<close>

record http_request =
  hq_Method :: string
  hq_URL :: string
  hq_Headers :: "(string \<times> string) list"
  hq_Body :: string

record http_response =
  hs_StatusCode :: int
  hs_Status :: string
  hs_Body :: string

text \<open>A JSON value of a secret: a string, or another value as the decoder holds it.\<close>

datatype 'j json_field = JString string | JOther 'j

record 'j bao_lib =
  bl_Parse :: "string \<Rightarrow> parsed_url option"
  bl_bad :: "parsed_url \<Rightarrow> parsed_url option"
  bl_getenv :: getenv
  bl_read :: "string \<Rightarrow> string option"
  bl_creds :: "string list \<Rightarrow> string option"
  bl_login_body :: "string \<Rightarrow> string \<Rightarrow> string + string"
  bl_request_ok :: "string \<Rightarrow> string \<Rightarrow> bool"
  bl_Do :: "http_request \<Rightarrow> string + http_response"
  bl_client_token :: "string \<Rightarrow> string + string"
  bl_data :: "string \<Rightarrow> string + (string \<times> 'j json_field) list"
  bl_Marshal :: "'j \<Rightarrow> string + string"

datatype bao_error =
    NoBootstrap | SecretIDFailed string provider_error | BadAddress string | BadAPIPath
  | BodyFailed string | RequestRefused | ExchangeFailed string | StatusError string
  | DecodeFailed string | NoToken | NoField string | EncodeFailed string

text \<open>What the exchange does to the outside and to the buffers that hold secrets.\<close>

datatype bao_effect = ReadID provider | Do http_request | Wipe string

definition apiURL :: "'j bao_lib \<Rightarrow> string \<Rightarrow> string list \<Rightarrow> bao_error + string" where
  "apiURL L addr parts =
     (case bl_Parse L addr of
        None \<Rightarrow> Inl (BadAddress addr)
      | Some base \<Rightarrow>
          (case bl_Parse L (ur_Path base) of
             None \<Rightarrow> Inl BadAPIPath
           | Some u \<Rightarrow>
               (case JoinPath (bl_bad L) u (''v1'' # parts) of
                  None \<Rightarrow> Inl BadAPIPath
                | Some joined \<Rightarrow> Inr (url_String (base\<lparr>ur_Path := url_String joined\<rparr>)))))"

definition responseError :: "http_response \<Rightarrow> string" where
  "responseError resp =
     (let msg = trim_space (take 4096 (hs_Body resp)) in
      if msg = [] then hs_Status resp else hs_Status resp @ '': '' @ msg)"

definition namespace_header :: "openbao \<Rightarrow> (string \<times> string) list" where
  "namespace_header ob = (if ob_namespace ob \<noteq> [] then [(''X-Vault-Namespace'', ob_namespace ob)] else [])"

definition setHeaders :: "openbao \<Rightarrow> string \<Rightarrow> (string \<times> string) list" where
  "setHeaders ob token = (''X-Vault-Token'', token) # namespace_header ob"

definition ok_status :: "http_response \<Rightarrow> bool" where
  "ok_status resp \<longleftrightarrow> \<not> (hs_StatusCode resp < 200 \<or> hs_StatusCode resp > 299)"

subsection \<open>The AppRole exchange\<close>

text \<open>The login from the request on, and what it wipes when it returns, last first.\<close>

definition post_login :: "'j bao_lib \<Rightarrow> openbao \<Rightarrow> string \<Rightarrow> string \<Rightarrow> bao_effect list \<times> (bao_error + string)" where
  "post_login L ob loginURL body =
     (if \<not> bl_request_ok L ''POST'' loginURL then ([], Inl RequestRefused)
      else
        let rq = \<lparr>hq_Method = ''POST'', hq_URL = loginURL,
                  hq_Headers = (''Content-Type'', ''application/json'') # namespace_header ob, hq_Body = body\<rparr>
        in ([Do rq],
            case bl_Do L rq of
              Inl e \<Rightarrow> Inl (ExchangeFailed e)
            | Inr resp \<Rightarrow>
                if \<not> ok_status resp then Inl (StatusError (responseError resp))
                else (case bl_client_token L (hs_Body resp) of
                        Inl e \<Rightarrow> Inl (DecodeFailed e)
                      | Inr token \<Rightarrow> if token = [] then Inl NoToken else Inr token)))"

definition login_with :: "'j bao_lib \<Rightarrow> openbao \<Rightarrow> string \<Rightarrow> bao_effect list \<times> (bao_error + string)" where
  "login_with L ob secretID =
     (case apiURL L (ob_addr ob) [''auth'', ob_authMount ob, ''login''] of
        Inl e \<Rightarrow> ([], Inl e)
      | Inr loginURL \<Rightarrow>
          (case bl_login_body L (ob_roleID ob) secretID of
             Inl e \<Rightarrow> ([], Inl (BodyFailed e))
           | Inr body \<Rightarrow> (case post_login L ob loginURL body of (es, r) \<Rightarrow> (es @ [Wipe body], r))))"

definition loginAppRole :: "'j bao_lib \<Rightarrow> openbao \<Rightarrow> bao_effect list \<times> (bao_error + string)" where
  "loginAppRole L ob =
     (case ob_bootstrap ob of
        None \<Rightarrow> ([], Inl NoBootstrap)
      | Some prov \<Rightarrow>
          (case ReadSecretID (bl_getenv L) (bl_read L) (bl_creds L) prov of
             Inl e \<Rightarrow> ([ReadID prov], Inl (SecretIDFailed (provider_Name prov) e))
           | Inr secretID \<Rightarrow>
               (case login_with L ob secretID of (es, r) \<Rightarrow> (ReadID prov # es @ [Wipe secretID], r))))"

definition field_value :: "'j bao_lib \<Rightarrow> string \<Rightarrow> string \<Rightarrow> bao_error + string" where
  "field_value L field body =
     (case bl_data L body of
        Inl e \<Rightarrow> Inl (DecodeFailed e)
      | Inr m \<Rightarrow>
          (case map_of m field of
             None \<Rightarrow> Inl (NoField field)
           | Some (JString v) \<Rightarrow> Inr v
           | Some (JOther j) \<Rightarrow> (case bl_Marshal L j of Inl e \<Rightarrow> Inl (EncodeFailed e) | Inr out \<Rightarrow> Inr out)))"

definition read_secret ::
  "'j bao_lib \<Rightarrow> openbao \<Rightarrow> secret_ref \<Rightarrow> string \<Rightarrow> string \<Rightarrow> string \<Rightarrow> bao_effect list \<times> (bao_error + string)" where
  "read_secret L ob ref mount path token =
     (case apiURL L (ob_addr ob) [mount, ''data'', path] of
        Inl e \<Rightarrow> ([], Inl e)
      | Inr reqURL \<Rightarrow>
          if \<not> bl_request_ok L ''GET'' reqURL then ([], Inl RequestRefused)
          else
            let rq = \<lparr>hq_Method = ''GET'', hq_URL = reqURL, hq_Headers = setHeaders ob token, hq_Body = []\<rparr>
            in ([Do rq],
                case bl_Do L rq of
                  Inl e \<Rightarrow> Inl (ExchangeFailed e)
                | Inr resp \<Rightarrow>
                    if \<not> ok_status resp then Inl (StatusError (responseError resp))
                    else field_value L (sr_Field ref) (hs_Body resp)))"

definition getAppRole ::
  "'j bao_lib \<Rightarrow> openbao \<Rightarrow> secret_ref \<Rightarrow> string \<Rightarrow> string \<Rightarrow> bao_effect list \<times> (bao_error + string)" where
  "getAppRole L ob ref mount path =
     (case loginAppRole L ob of
        (es, Inl e) \<Rightarrow> (es, Inl e)
      | (es, Inr token) \<Rightarrow>
          (case read_secret L ob ref mount path token of (es', r) \<Rightarrow> (es @ es' @ [Wipe token], r)))"

subsection \<open>Commands\<close>

text \<open>What \<open>Output\<close> gives: the standard output, an exit with what was on standard error, or another failure.\<close>

datatype run_output = Output string | ExitFailure string string | NotRun string

definition exec_run :: "run_output \<Rightarrow> string + string" where
  "exec_run o' =
     (case o' of
        Output out \<Rightarrow> Inr out
      | ExitFailure e stderr \<Rightarrow>
          if trim_space stderr \<noteq> [] then Inl (e @ '': '' @ trim_space stderr) else Inl e
      | NotRun e \<Rightarrow> Inl e)"

definition getAmbient ::
  "(string \<Rightarrow> string list \<Rightarrow> run_output) \<Rightarrow> secret_ref \<Rightarrow> string \<Rightarrow> string \<Rightarrow> string + string" where
  "getAmbient output ref mount path =
     (case exec_run (output ''bao'' [''kv'', ''get'', ''-field='' @ sr_Field ref, ''-mount='' @ mount, path]) of
        Inl e \<Rightarrow> Inl (''openbao: fetch '' @ sr_Raw ref @ '' via bao: '' @ e)
      | Inr out \<Rightarrow> Inr (ambient_value out))"

definition onepassword_Get :: "(string \<Rightarrow> string list \<Rightarrow> run_output) \<Rightarrow> secret_ref \<Rightarrow> string + string" where
  "onepassword_Get output ref =
     (case exec_run (output ''op'' [''read'', ''--no-newline'', sr_Path ref]) of
        Inl e \<Rightarrow> Inl (''onepassword: fetch '' @ sr_Raw ref @ '' via op: '' @ e)
      | Inr out \<Rightarrow> Inr out)"

definition openbao_Get ::
  "'j bao_lib \<Rightarrow> (bao_error \<Rightarrow> string) \<Rightarrow> (string \<Rightarrow> string list \<Rightarrow> run_output) \<Rightarrow> openbao \<Rightarrow> secret_ref \<Rightarrow>
   bao_effect list \<times> (string + string)" where
  "openbao_Get L err_text output ob ref =
     (case cut (sr_Path ref) slash of
        None \<Rightarrow> ([], Inl (''openbao reference '' @ sr_Raw ref @ '' must be <mount>/<path>#<field>''))
      | Some (mount, path) \<Rightarrow>
          if path = [] then ([], Inl (''openbao reference '' @ sr_Raw ref @ '' must be <mount>/<path>#<field>''))
          else if ob_approle ob then
            (case getAppRole L ob ref mount path of
               (es, Inl e) \<Rightarrow> (es, Inl (err_text e))
             | (es, Inr v) \<Rightarrow> (es, Inr v))
          else ([], getAmbient output ref mount path))"

text \<open>
  The same seen from a command: how a fetch that \<open>Get\<close> prepared turns out. This is what the
  parameter \<open>h_perform\<close> of the delivery commands stands for.
\<close>

definition perform ::
  "'j bao_lib \<Rightarrow> (bao_error \<Rightarrow> string) \<Rightarrow> (string \<Rightarrow> string list \<Rightarrow> run_output) \<Rightarrow> backend \<Rightarrow> secret_ref \<Rightarrow> fetch \<Rightarrow>
   string + string" where
  "perform L err_text output b ref f =
     (case f of
        RunCommand cmd args \<Rightarrow> exec_run (output cmd args)
      | HTTPGet _ \<Rightarrow> (case b of OpenBao ob \<Rightarrow> snd (openbao_Get L err_text output ob ref) | _ \<Rightarrow> Inl []))"

subsection \<open>Lemmas\<close>

lemma post_login_cases:
  assumes "post_login L ob loginURL body = (es, r)"
  obtains "es = []" "isl r"
  | rq where "es = [Do rq]" "hq_Method rq = ''POST''" "hq_URL rq = loginURL" "hq_Body rq = body"
      "hq_Headers rq = (''Content-Type'', ''application/json'') # namespace_header ob"
      "\<And>token. r = Inr token \<Longrightarrow> \<exists>resp. bl_Do L rq = Inr resp \<and> ok_status resp \<and>
         bl_client_token L (hs_Body resp) = Inr token \<and> token \<noteq> []"
proof (cases "bl_request_ok L ''POST'' loginURL")
  case False
  then show ?thesis using assms that(1) by (auto simp: post_login_def)
next
  case True
  then show ?thesis
    using assms that(2)[of "\<lparr>hq_Method = ''POST'', hq_URL = loginURL,
      hq_Headers = (''Content-Type'', ''application/json'') # namespace_header ob, hq_Body = body\<rparr>"]
    by (auto simp: post_login_def Let_def split: sum.splits if_splits)
qed

lemma loginAppRole_cases:
  assumes "loginAppRole L ob = (es, r)"
  obtains (silent) "isl r" "\<And>rq. Do rq \<notin> set es"
  | (posted) prov sid rq where "es = [ReadID prov, Do rq, Wipe (hq_Body rq), Wipe sid]" "ob_bootstrap ob = Some prov"
      "ReadSecretID (bl_getenv L) (bl_read L) (bl_creds L) prov = Inr sid" "hq_Method rq = ''POST''"
      "apiURL L (ob_addr ob) [''auth'', ob_authMount ob, ''login''] = Inr (hq_URL rq)"
      "bl_login_body L (ob_roleID ob) sid = Inr (hq_Body rq)"
      "hq_Headers rq = (''Content-Type'', ''application/json'') # namespace_header ob"
      "\<And>token. r = Inr token \<Longrightarrow> \<exists>resp. bl_Do L rq = Inr resp \<and> ok_status resp \<and>
         bl_client_token L (hs_Body resp) = Inr token \<and> token \<noteq> []"
proof (cases "ob_bootstrap ob")
  case None
  then show ?thesis using assms silent by (auto simp: loginAppRole_def)
next
  case (Some prov)
  note prov = this
  show ?thesis
  proof (cases "ReadSecretID (bl_getenv L) (bl_read L) (bl_creds L) prov")
    case (Inl e)
    then show ?thesis using assms silent prov by (auto simp: loginAppRole_def)
  next
    case (Inr sid)
    obtain es' where e: "login_with L ob sid = (es', r)" "es = ReadID prov # es' @ [Wipe sid]"
      using assms prov Inr by (auto simp: loginAppRole_def split: prod.splits)
    show ?thesis
    proof (cases "apiURL L (ob_addr ob) [''auth'', ob_authMount ob, ''login'']")
      case (Inl x)
      then have "login_with L ob sid = ([], Inl x)" by (simp add: login_with_def)
      then show ?thesis using e silent by simp
    next
      case (Inr url)
      note url = this
      show ?thesis
      proof (cases "bl_login_body L (ob_roleID ob) sid")
        case (Inl x)
        then show ?thesis using e url silent by (auto simp: login_with_def)
      next
        case (Inr body)
        then obtain es'' where p: "post_login L ob url body = (es'', r)" "es' = es'' @ [Wipe body]"
          using e(1) url by (auto simp: login_with_def split: prod.splits)
        from p(1) show ?thesis
        proof (cases rule: post_login_cases)
          case 1
          then show ?thesis using e p(2) silent by auto
        next
          case (2 rq)
          then show ?thesis using posted[of prov rq sid] e(2) p(2) prov Inr url
              \<open>ReadSecretID _ _ _ prov = Inr sid\<close> by simp
        qed
      qed
    qed
  qed
qed

lemma read_secret_cases:
  assumes "read_secret L ob ref mount path token = (es, r)"
  obtains (silent) "es = []" "isl r"
  | (sent) rq where "es = [Do rq]" "hq_Method rq = ''GET''" "hq_Body rq = []" "hq_Headers rq = setHeaders ob token"
      "apiURL L (ob_addr ob) [mount, ''data'', path] = Inr (hq_URL rq)"
      "\<And>v. r = Inr v \<Longrightarrow> \<exists>resp. bl_Do L rq = Inr resp \<and> ok_status resp \<and> field_value L (sr_Field ref) (hs_Body resp) = Inr v"
proof (cases "apiURL L (ob_addr ob) [mount, ''data'', path]")
  case (Inl e)
  then have "read_secret L ob ref mount path token = ([], Inl e)" by (simp add: read_secret_def)
  then show ?thesis using assms silent by simp
next
  case (Inr url)
  then show ?thesis
    using assms silent sent[of "\<lparr>hq_Method = ''GET'', hq_URL = url, hq_Headers = setHeaders ob token, hq_Body = []\<rparr>"]
    by (auto simp: read_secret_def Let_def split: if_splits sum.splits)
qed

subsection \<open>Properties\<close>


text \<open>Characters a path keeps as they are, through escaping and cleaning.\<close>

lemma escape_plain: "\<forall>c\<in>set s. \<not> shouldEscape c \<Longrightarrow> escape s = s"
  by (induction s) auto

lemma unescape_plain: "\<forall>c\<in>set s. \<not> shouldEscape c \<Longrightarrow> unescape s = Some s"
proof (induction s)
  case (Cons c s)
  then have "c \<noteq> CHR ''%''" by (auto simp: shouldEscape_def is_alnum_def is_digit_def)
  then show ?case using Cons by simp
qed simp

lemma chars_join_with: "P slash \<Longrightarrow> \<forall>s\<in>set cs. \<forall>c\<in>set s. P c \<Longrightarrow> \<forall>c\<in>set (join_with ''/'' cs). P c"
  by (induction "''/''" cs rule: join_with.induct) (auto simp: slash_def)

lemma set_clean_comps: "x \<in> set (clean_comps rooted acc cs) \<Longrightarrow> x \<in> set acc \<or> x \<in> set cs \<or> x = ''..''"
  by (induction rooted acc cs rule: clean_comps.induct) (auto split: list.splits if_splits)

lemma chars_split_on: "x \<in> set (split_on c s) \<Longrightarrow> y \<in> set x \<Longrightarrow> y \<in> set s"
  by (induction s arbitrary: x) (fastforce split: list.splits if_splits)+

lemma chars_Clean:
  assumes "P slash" "P CHR ''.''" "\<forall>c\<in>set s. P c"
  shows "\<forall>c\<in>set (Clean s). P c"
proof -
  have "\<forall>x\<in>set (clean_comps r [] (split_on slash s)). \<forall>c\<in>set x. P c" for r
  proof (intro ballI)
    fix x c assume x: "x \<in> set (clean_comps r [] (split_on slash s))" "c \<in> set x"
    then have "x \<in> set (split_on slash s) \<or> x = ''..''" using set_clean_comps by fastforce
    then show "P c" using x(2) assms chars_split_on[of x slash s c] by auto
  qed
  then have "\<forall>c\<in>set (join_with ''/'' (clean_comps r [] (split_on slash s))). P c" for r
    using chars_join_with[where P = P, OF assms(1)] by blast
  then show ?thesis using assms(1,2) by (simp add: Clean_def Let_def)
qed

lemma chars_Join:
  assumes "P slash" "P CHR ''.''" "\<forall>e\<in>set es. \<forall>c\<in>set e. P c"
  shows "\<forall>c\<in>set (Join es). P c"
proof (cases "dropWhile (\<lambda>e. e = []) es")
  case Nil
  show ?thesis unfolding Join_def Nil by simp
next
  case (Cons e es')
  have "set (e # es') \<subseteq> set es" using Cons set_dropWhileD[of _ "\<lambda>e. e = []" es] by (metis subsetI)
  then have "\<forall>c\<in>set (join_with ''/'' (e # es')). P c"
    using assms(3) by (intro chars_join_with[where P = P, OF assms(1)]) blast
  then have "\<forall>c\<in>set (Clean (join_with ''/'' (e # es'))). P c" by (rule chars_Clean[where P = P, OF assms(1,2)])
  then show ?thesis unfolding Join_def Cons by simp
qed

lemma plain_chars:
  "\<not> shouldEscape slash" "\<not> shouldEscape CHR ''.''" "\<not> shouldEscape CHR ''v''" "\<not> shouldEscape CHR ''1''"
  "shouldEscape CHR ''*''"
  by code_simp+

lemma apiPath_shape:
  assumes "apiPath parts \<noteq> ''/''"
  shows "\<exists>c q. apiPath parts = slash # c # q \<and> c \<noteq> slash"
proof -
  let ?s = "join_with ''/'' (''/'' # ''v1'' # parts)"
  let ?cs = "clean_comps True [] (split_on slash ?s)"
  have s: "?s \<noteq> []" "hd ?s = slash" by (cases parts; simp add: slash_def)+
  then have j: "apiPath parts = slash # join_with ''/'' ?cs" by (simp add: apiPath_def Join_def Clean_def Let_def)
  have "\<forall>c\<in>set (split_on slash ?s). slash \<notin> set c" using split_on_no_sep by blast
  then have "\<forall>c\<in>set ?cs. normal_comp c" by (rule clean_comps_rooted[rotated]) simp
  then show ?thesis
    using j assms by (cases ?cs; cases "hd ?cs"; cases "tl ?cs") (auto simp: normal_comp_def slash_def)
qed

text \<open>An address with a host and no path of its own, and what the parser says of the empty path and of the root.\<close>

definition bare_address :: "'j bao_lib \<Rightarrow> string \<Rightarrow> parsed_url \<Rightarrow> bool" where
  "bare_address L addr base \<longleftrightarrow>
     bl_Parse L addr = Some base \<and> ur_host base \<and> \<not> ur_opaque base \<and> ur_RawPath base = [] \<and>
     (ur_Path base = [] \<or> ur_Path base = ''/'') \<and>
     bl_Parse L (ur_Path base) = Some \<lparr>ur_prefix = [], ur_host = False, ur_opaque = False, ur_Path = ur_Path base,
       ur_RawPath = [], ur_suffix = []\<rparr>"

text \<open>Elements of a path that need no escaping; a colon would be taken for a scheme.\<close>

definition plain_part :: "string \<Rightarrow> bool" where
  "plain_part s \<longleftrightarrow> (\<forall>c\<in>set s. \<not> shouldEscape c \<and> c \<noteq> CHR '':'')"

lemma apiURL_plain:
  assumes "bare_address L addr base" "\<forall>s\<in>set parts. plain_part s" "parts \<noteq> []" "\<not> has_suffix (last parts) ''/''"
    "apiPath parts \<noteq> ''/''"
  shows "apiURL L addr parts = Inr (ur_prefix base @ apiPath parts @ ur_suffix base)"
proof -
  let ?J = "apiPath parts"
  obtain c q where J: "?J = slash # c # q" "c \<noteq> slash" using apiPath_shape[OF assms(5)] by blast
  have P: "\<forall>x\<in>set ?J. \<not> shouldEscape x \<and> x \<noteq> CHR '':''"
    unfolding apiPath_def using assms(2) plain_chars by (intro chars_Join) (auto simp: plain_part_def slash_def)
  then have P': "\<forall>x\<in>set ?J. \<not> shouldEscape x" "\<forall>x\<in>set (c # q). \<not> shouldEscape x" using J(1) by simp_all
  have plain: "escape ?J = ?J" "unescape ?J = Some ?J" "escape (c # q) = c # q" "unescape (c # q) = Some (c # q)"
    using P' by (simp_all only: escape_plain unescape_plain)
  have "CHR ''*'' \<notin> set ?J" "CHR '':'' \<notin> set ?J" using P plain_chars(5) by blast+
  then have star: "c # q \<noteq> ''*''" "?J \<noteq> ''*''" and colon: "CHR '':'' \<notin> set ?J" "CHR '':'' \<notin> set (c # q)"
    using J(1) by auto
  have colons: "CHR '':'' \<notin> set (takeWhile (\<lambda>x. x \<noteq> slash) (c # q))" "CHR '':'' \<notin> set (takeWhile (\<lambda>x. x \<noteq> slash) ?J)"
    using colon set_takeWhileD by metis+
  have last: "last (e # ''v1'' # parts) = last parts" for e using assms(3) by simp
  have root: "Join (''/'' # ''v1'' # parts) = ?J" "Join ([slash] # ''v1'' # parts) = ?J"
    by (simp_all add: apiPath_def slash_def)
  note base = assms(1)[unfolded bare_address_def]
  show ?thesis
  proof (cases "ur_Path base = []")
    case True
    let ?u = "\<lparr>ur_prefix = [], ur_host = False, ur_opaque = False, ur_Path = [], ur_RawPath = [], ur_suffix = []\<rparr>"
    have e: "EscapedPath ?u = []" by (simp add: EscapedPath_def)
    have "JoinPath (bl_bad L) ?u (''v1'' # parts) = Some (?u\<lparr>ur_Path := c # q, ur_RawPath := []\<rparr>)"
      unfolding JoinPath_def Let_def e last root using assms(4) J plain by (simp add: has_prefix_def slash_def del: escape.simps unescape.simps)
    moreover have "url_String (?u\<lparr>ur_Path := c # q, ur_RawPath := []\<rparr>) = c # q"
      using plain star colons by (simp add: url_String_def EscapedPath_def Let_def del: escape.simps unescape.simps)
    moreover have "url_String (base\<lparr>ur_Path := c # q\<rparr>) = ur_prefix base @ ?J @ ur_suffix base"
      using base plain star colons J by (auto simp: url_String_def EscapedPath_def Let_def del: escape.simps unescape.simps)
    ultimately show ?thesis using base True by (simp add: apiURL_def)
  next
    case False
    then have r: "ur_Path base = ''/''" using base by blast
    let ?u = "\<lparr>ur_prefix = [], ur_host = False, ur_opaque = False, ur_Path = ''/'', ur_RawPath = [], ur_suffix = []\<rparr>"
    have e: "EscapedPath ?u = ''/''" using plain_chars(1) by (simp add: EscapedPath_def slash_def)
    have "JoinPath (bl_bad L) ?u (''v1'' # parts) = Some (?u\<lparr>ur_Path := ?J, ur_RawPath := []\<rparr>)"
      unfolding JoinPath_def Let_def e last root using assms(4) plain by (simp add: has_prefix_def del: escape.simps unescape.simps)
    moreover have "url_String (?u\<lparr>ur_Path := ?J, ur_RawPath := []\<rparr>) = ?J"
      using plain star colons J by (simp add: url_String_def EscapedPath_def Let_def del: escape.simps unescape.simps)
    moreover have "url_String (base\<lparr>ur_Path := ?J\<rparr>) = ur_prefix base @ ?J @ ur_suffix base"
      using base plain star colons J by (simp add: url_String_def EscapedPath_def Let_def del: escape.simps unescape.simps)
    ultimately show ?thesis using base r by (simp add: apiURL_def)
  qed
qed

lemma last_join_with: "cs \<noteq> [] \<Longrightarrow> last cs \<noteq> [] \<Longrightarrow> last (join_with s cs) = last (last cs)"
  by (cases cs rule: rev_cases; cases "butlast cs = []") (auto simp: join_append)

lemma has_suffix_char: "has_suffix s [c] \<longleftrightarrow> s \<noteq> [] \<and> last s = c"
  by (cases s rule: rev_cases) (auto simp: has_suffix_def)

lemma apiPath_normal:
  assumes "\<forall>c\<in>set (mount # comps). normal_comp c" "comps \<noteq> []"
  shows "apiPath [mount, ''data'', join_with ''/'' comps] = ''/v1/'' @ mount @ ''/data/'' @ join_with ''/'' comps"
proof -
  let ?cs = "[''v1'', mount, ''data''] @ comps"
  have n: "\<forall>c\<in>set ?cs. normal_comp c" using assms(1) by (auto simp: normal_comp_def slash_def)
  have j: "join_with ''/'' ?cs = ''v1/'' @ mount @ ''/data/'' @ join_with ''/'' comps"
    using assms(2) by (cases comps) simp_all
  have "Clean (slash # slash # join_with ''/'' ?cs) = slash # join_with ''/'' ?cs"
  proof -
    have "\<forall>c\<in>set ?cs. slash \<notin> set c" using n by (simp add: normal_comp_def)
    then have "split_on slash (join_with ''/'' ?cs) = ?cs" using split_join[of ?cs slash] by (simp add: slash_join)
    then show ?thesis using clean_comps_normal[OF n, of True "[]"] by (simp add: Clean_def Let_def)
  qed
  then show ?thesis unfolding apiPath_def Join_def j by (simp add: slash_def)
qed

lemma GET_url:
  assumes "getAppRole L ob ref mount path = (es, res)" "Do rq \<in> set es" "hq_Method rq = ''GET''"
  shows "apiURL L (ob_addr ob) [mount, ''data'', path] = Inr (hq_URL rq)"
proof -
  obtain es1 r1 where l: "loginAppRole L ob = (es1, r1)" by (cases "loginAppRole L ob") auto
  from l have login: "Do rq \<notin> set es1"
    by (cases rule: loginAppRole_cases) (use assms(3) in auto)
  show ?thesis
  proof (cases r1)
    case (Inl e)
    then show ?thesis using assms l login by (auto simp: getAppRole_def)
  next
    case (Inr token)
    obtain es2 where r: "read_secret L ob ref mount path token = (es2, res)" "es = es1 @ es2 @ [Wipe token]"
      using assms(1) l Inr by (auto simp: getAppRole_def split: prod.splits)
    from r(1) show ?thesis
      by (cases rule: read_secret_cases) (use assms(2) r(2) login in auto)
  qed
qed

text \<open>An HTTP client and codecs for examples: one login that works and one secret.\<close>

definition example_bao :: "unit bao_lib" where
  "example_bao =
     \<lparr>bl_Parse = (\<lambda>a. if a = ''https://bao'' then
         Some \<lparr>ur_prefix = ''https://bao'', ur_host = True, ur_opaque = False, ur_Path = [], ur_RawPath = [], ur_suffix = []\<rparr>
       else if a = [] then
         Some \<lparr>ur_prefix = [], ur_host = False, ur_opaque = False, ur_Path = [], ur_RawPath = [], ur_suffix = []\<rparr>
       else None),
      bl_bad = (\<lambda>_. None), bl_getenv = (\<lambda>v. if v = ''PARZIVAL_OPENBAO_SECRET_ID'' then ''sid'' else []),
      bl_read = (\<lambda>_. None), bl_creds = (\<lambda>_. None), bl_login_body = (\<lambda>role sid. Inr (role @ '':'' @ sid)),
      bl_request_ok = (\<lambda>_ _. True),
      bl_Do = (\<lambda>rq. Inr \<lparr>hs_StatusCode = 200, hs_Status = ''200 OK'',
        hs_Body = (if hq_Method rq = ''POST'' then ''tok'' else hq_URL rq)\<rparr>),
      bl_client_token = Inr, bl_data = (\<lambda>body. Inr [(''pw'', JString body)]), bl_Marshal = (\<lambda>_. Inl [])\<rparr>"

definition example_approle :: openbao where
  "example_approle = \<lparr>ob_approle = True, ob_addr = ''https://bao'', ob_roleID = ''role'', ob_authMount = ''approle'',
     ob_namespace = [], ob_bootstrap = Some (EnvProvider [])\<rparr>"

definition bao_ref :: "string \<Rightarrow> secret_ref" where
  "bao_ref path = \<lparr>sr_Backend = ''openbao'', sr_Path = path, sr_Field = ''pw'', sr_Raw = ''bao:'' @ path @ ''#pw''\<rparr>"

lemma example_getAppRole:
  assumes "apiURL example_bao ''https://bao'' [mount, ''data'', path] = Inr u"
  shows "snd (getAppRole example_bao example_approle (bao_ref p) mount path) = Inr u"
proof -
  have "apiURL example_bao ''https://bao'' [''auth'', ''approle'', ''login''] = Inr ''https://bao/v1/auth/approle/login''"
    by code_simp
  then show ?thesis
    using assms
    by (simp add: getAppRole_def loginAppRole_def login_with_def post_login_def read_secret_def field_value_def
      example_bao_def example_approle_def bao_ref_def ReadSecretID_def ok_status_def Let_def)
qed

lemma example_get:
  assumes "apiURL example_bao ''https://bao'' [mount, ''data'', path] = Inr u" "cut p slash = Some (mount, path)" "path \<noteq> []"
  shows "snd (openbao_Get example_bao err_text output example_approle (bao_ref p)) = Inr u"
  using example_getAppRole[OF assms(1), of p] assms(2,3)
  by (auto simp: openbao_Get_def bao_ref_def example_approle_def split: prod.splits sum.splits)

lemmas url_defs = Let_def apiURL_def example_bao_def JoinPath_def url_String_def EscapedPath_def has_prefix_def
  has_suffix_def slash_def validEncoded_def shouldEscape_def is_alnum_def is_digit_def hex_digit_def hex_val_def

lemma example_urls:
  "apiURL example_bao ''https://bao'' [''app'', ''data'', ''db''] = Inr ''https://bao/v1/app/data/db''"
  "apiURL example_bao ''https://bao'' [''app'', ''data'', ''my db''] = Inr ''https://bao/v1/app/data/my%2520db''"
  "apiURL example_bao ''https://bao'' [''app'', ''data'', ''my%20db''] = Inr ''https://bao/v1/app/data/my%2520db''"
proof -
  have sp: "char_of (32 :: nat) = CHR '' ''" by code_simp
  have j: "Join [''/'', ''v1'', ''app'', ''data'', ''db''] = ''/v1/app/data/db''"
    "Join [''/'', ''v1'', ''app'', ''data'', ''my db''] = ''/v1/app/data/my db''"
    "Join [''/'', ''v1'', ''app'', ''data'', ''my%20db''] = ''/v1/app/data/my%20db''" by code_simp+
  show "apiURL example_bao ''https://bao'' [''app'', ''data'', ''db''] = Inr ''https://bao/v1/app/data/db''"
    by (simp add: url_defs j)
  show "apiURL example_bao ''https://bao'' [''app'', ''data'', ''my db''] = Inr ''https://bao/v1/app/data/my%2520db''"
    by (simp add: url_defs j)
  show "apiURL example_bao ''https://bao'' [''app'', ''data'', ''my%20db''] = Inr ''https://bao/v1/app/data/my%2520db''"
    by (simp add: url_defs j sp)
qed



lemma example_reads:
  "\<lparr>hq_Method = ''GET'', hq_URL = ''https://bao/v1/app/data/db'', hq_Headers = [(''X-Vault-Token'', ''tok'')], hq_Body = []\<rparr> \<in>
     {rq. Do rq \<in> set (fst (openbao_Get example_bao (\<lambda>_. []) (\<lambda>_ _. NotRun []) example_approle (bao_ref ''app/db'')))}"
proof -
  have "apiURL example_bao ''https://bao'' [''auth'', ''approle'', ''login''] = Inr ''https://bao/v1/auth/approle/login''"
    by code_simp
  then show ?thesis
    using example_urls(1)
    by (simp add: openbao_Get_def getAppRole_def loginAppRole_def login_with_def post_login_def read_secret_def field_value_def
      example_bao_def example_approle_def bao_ref_def ReadSecretID_def ok_status_def Let_def cut_def slash_def
      setHeaders_def namespace_header_def)
qed


end
