(* ===== verification/Ephemeral.thy ===== *)
theory Ephemeral
  imports Paths
begin

text \<open>
  Profiles and the RAM directory a rendered credential lives in (\<open>internal/profile/profile.go\<close>,
  \<open>internal/ephemeral/ephemeral.go\<close>, \<open>ephemeral_linux.go\<close> and \<open>Zero\<close> of
  \<open>internal/secret/secret.go\<close>). The template engine and the random numbers are parameters.
\<close>

subsection \<open>Profiles\<close>

record inject =
  inj_Env :: string
  inj_EnvDir :: string
  inj_Filename :: string

record profile =
  pf_Description :: string
  pf_Secrets :: "(string \<times> string) list"
  pf_Template :: string
  pf_Inject :: inject

definition FileName :: "inject \<Rightarrow> string" where
  "FileName i = (if inj_Filename i \<noteq> [] then Clean (inj_Filename i) else ''credential'')"

definition backslash :: char where "backslash = CHR 0x5C"

datatype filename_error = MustBeRelative | NamesNoFile | Traverses

definition validateFilename :: "string \<Rightarrow> filename_error option" where
  "validateFilename name =
     (if name = [] then None
      else if IsAbs name \<or> has_prefix name [backslash] \<or> backslash \<in> set name then Some MustBeRelative
      else
        let clean = Clean name in
        if clean = ''.'' \<or> clean = ''..'' then Some NamesNoFile
        else if ''..'' \<in> set (split_on slash clean) then Some Traverses
        else None)"

datatype profile_error =
    InvalidProfileName | ProfileRead string | ProfileParse string | NoSecrets | EmptyTemplate
  | BadFilename filename_error

text \<open>\<open>Load\<close>; \<open>read\<close> gives the bytes of a path and \<open>unmarshal\<close> the decoded profile.\<close>

definition profile_Load ::
  "(string \<Rightarrow> string + string) \<Rightarrow> (string \<Rightarrow> string + profile) \<Rightarrow> env \<Rightarrow> string \<Rightarrow> profile_error + profile" where
  "profile_Load read unmarshal e name =
     (if name = [] \<or> slash \<in> set name \<or> backslash \<in> set name then Inl InvalidProfileName
      else case read (Join [profile_Dir e, name @ ''.json'']) of
             Inl err \<Rightarrow> Inl (ProfileRead err)
           | Inr data \<Rightarrow>
               (case unmarshal data of
                  Inl err \<Rightarrow> Inl (ProfileParse err)
                | Inr p \<Rightarrow>
                    if pf_Secrets p = [] then Inl NoSecrets
                    else if trim_space (pf_Template p) = [] then Inl EmptyTemplate
                    else case validateFilename (inj_Filename (pf_Inject p)) of
                           Some err \<Rightarrow> Inl (BadFilename err)
                         | None \<Rightarrow> Inr p))"

text \<open>\<open>Render\<close>: parse the template, then execute it on the values by name.\<close>

record 'a template_engine =
  te_Parse :: "string \<Rightarrow> string + 'a"
  te_Execute :: "'a \<Rightarrow> (string \<times> string) list \<Rightarrow> string + string"

definition Render :: "'a template_engine \<Rightarrow> profile \<Rightarrow> (string \<times> string) list \<Rightarrow> string + string" where
  "Render eng p secrets =
     (case te_Parse eng (pf_Template p) of Inl e \<Rightarrow> Inl e | Inr tmpl \<Rightarrow> te_Execute eng tmpl secrets)"

subsection \<open>The directory\<close>

text \<open>\<open>Zero\<close> of a byte slice.\<close>

definition Zero :: "string \<Rightarrow> string" where
  "Zero b = map (\<lambda>_. CHR 0x00) b"

datatype enode = EDir | EFile string | ESym string

type_synonym estate = "string \<Rightarrow> enode option"

text \<open>\<open>ramBase\<close>: \<open>shm\<close> is whether \<open>/dev/shm\<close> is a directory.\<close>

definition ramBase :: "env \<Rightarrow> bool \<Rightarrow> nat \<Rightarrow> string option" where
  "ramBase e shm uid =
     (if env_XDG_RUNTIME_DIR e \<noteq> [] then Some (Join [env_XDG_RUNTIME_DIR e, ''parzival''])
      else if shm then Some (Join [''/dev/shm'', ''parzival-'' @ itoa (int uid)])
      else None)"

text \<open>\<open>filepath.Rel\<close> on the elements of two clean paths, \<open>None\<close> for an error.\<close>

fun rel_comps :: "string list \<Rightarrow> string list \<Rightarrow> string list option" where
  "rel_comps [] targ = Some targ"
| "rel_comps (b # base) targ =
     (if targ \<noteq> [] \<and> hd targ = b then rel_comps base (tl targ)
      else if b = ''..'' then None
      else Some (replicate (Suc (length base)) ''..'' @ targ))"

definition path_comps :: "string \<Rightarrow> string list" where
  "path_comps p = filter (\<lambda>c. c \<noteq> [] \<and> c \<noteq> ''.'') (split_on slash p)"

definition Rel :: "string \<Rightarrow> string \<Rightarrow> string option" where
  "Rel base targ =
     (if IsAbs (Clean base) \<noteq> IsAbs (Clean targ) then None
      else map_option (\<lambda>cs. if cs = [] then ''.'' else join_with ''/'' cs)
             (rel_comps (path_comps (Clean base)) (path_comps (Clean targ))))"

definition contains_path :: "string \<Rightarrow> string \<Rightarrow> bool" where
  "contains_path dir p =
     (case Rel dir p of None \<Rightarrow> False | Some rel \<Rightarrow> rel \<noteq> ''..'' \<and> \<not> has_prefix rel ''../'')"

datatype ephemeral_error = OutsideDir | MkdirError | CreateError | WriteError | CloseError

text \<open>
  \<open>WriteFile\<close>: the new state and the path written. \<open>parent\<close>, \<open>opens\<close>, \<open>writes\<close> and \<open>closes\<close>
  are whether the four kinds of call succeed; the file must not exist (\<open>O_EXCL\<close>).
\<close>

definition WriteFile ::
  "bool \<Rightarrow> bool \<Rightarrow> bool \<Rightarrow> bool \<Rightarrow> string \<Rightarrow> string \<Rightarrow> string \<Rightarrow> estate \<Rightarrow> estate \<times> (ephemeral_error + string)" where
  "WriteFile parent opens writes closes dir name b st =
     (let p = Join [dir, name] in
      if \<not> contains_path dir p then (st, Inl OutsideDir)
      else if Dir p \<noteq> dir \<and> \<not> parent then (st, Inl MkdirError)
      else
        let st1 = (if Dir p \<noteq> dir \<and> st (Dir p) = None then st(Dir p \<mapsto> EDir) else st) in
        if st1 p \<noteq> None \<or> \<not> opens then (st1, Inl CreateError)
        else if \<not> writes then (st1(p \<mapsto> EFile []), Inl WriteError)
        else if \<not> closes then (st1(p \<mapsto> EFile b), Inl CloseError)
        else (st1(p \<mapsto> EFile b), Inr p))"

text \<open>
  \<open>zeroFile\<close> opens by path, so it follows a link (one level here: a link to a link is left
  alone, which only makes the model touch less).
\<close>

definition zeroFile :: "estate \<Rightarrow> string \<Rightarrow> estate" where
  "zeroFile st p =
     (case st p of
        Some (EFile c) \<Rightarrow> st(p \<mapsto> EFile (Zero c))
      | Some (ESym target) \<Rightarrow>
          (case st target of Some (EFile c) \<Rightarrow> st(target \<mapsto> EFile (Zero c)) | _ \<Rightarrow> st)
      | _ \<Rightarrow> st)"

text \<open>
  \<open>Cleanup\<close>: zero every entry that is not a directory, in the order \<open>WalkDir\<close> visits them, and
  then the teardown, which removes the tree. The state before the teardown is the second part.
\<close>

definition Cleanup :: "string list \<Rightarrow> estate \<Rightarrow> estate \<times> estate" where
  "Cleanup entries st =
     (let zeroed = fold (\<lambda>p s. if s p = Some EDir then s else zeroFile s p) entries st
      in ((\<lambda>q. if q \<in> set entries then None else zeroed q), zeroed))"

subsection \<open>Lemmas\<close>

lemma clean_comps_relative:
  "\<lbrakk>\<forall>c\<in>set acc. normal_comp c \<or> c = ''..''; \<forall>c\<in>set cs. slash \<notin> set c\<rbrakk> \<Longrightarrow>
   \<forall>c\<in>set (clean_comps False acc cs). normal_comp c \<or> c = ''..''"
proof (induction cs arbitrary: acc)
  case (Cons c cs)
  have IH: "\<forall>x\<in>set acc'. normal_comp x \<or> x = ''..'' \<Longrightarrow>
      \<forall>x\<in>set (clean_comps False acc' cs). normal_comp x \<or> x = ''..''" for acc'
    using Cons.IH[of acc'] Cons.prems(2) by simp
  have n: "c \<noteq> [] \<Longrightarrow> c \<noteq> ''.'' \<Longrightarrow> c \<noteq> ''..'' \<Longrightarrow> normal_comp c"
    using Cons.prems(2) by (simp add: normal_comp_def)
  have "clean_comps False acc (c # cs) = clean_comps False acc cs \<or>
      clean_comps False acc (c # cs) = clean_comps False (tl acc) cs \<or>
      ((normal_comp c \<or> c = ''..'') \<and> clean_comps False acc (c # cs) = clean_comps False (c # acc) cs)"
    using n by (cases acc) simp_all
  moreover have "\<forall>x\<in>set (clean_comps False acc cs). normal_comp x \<or> x = ''..''"
    by (rule IH[OF Cons.prems(1)])
  moreover have "\<forall>x\<in>set (clean_comps False (tl acc) cs). normal_comp x \<or> x = ''..''"
    by (rule IH) (use Cons.prems(1) in \<open>cases acc; simp\<close>)
  moreover have "\<forall>x\<in>set (clean_comps False (c # acc) cs). normal_comp x \<or> x = ''..''"
    if "normal_comp c \<or> c = ''..''"
    by (rule IH) (use Cons.prems(1) that in simp)
  ultimately show ?case by metis
qed simp

lemma validated_filename:
  assumes "validateFilename name = None" "name \<noteq> []"
  shows "\<exists>cs. cs \<noteq> [] \<and> Clean name = join_with ''/'' cs \<and> (\<forall>c\<in>set cs. normal_comp c)"
proof -
  let ?cs = "clean_comps False [] (split_on slash name)"
  have rel: "hd name \<noteq> slash" "Clean name \<noteq> ''.''" "''..'' \<notin> set (split_on slash (Clean name))"
    using assms by (simp_all add: validateFilename_def IsAbs_iff Let_def split: if_splits)
  then have c: "Clean name = join_with ''/'' ?cs" "?cs \<noteq> []"
    using assms(2) by (auto simp: Clean_def Let_def split: if_splits)
  have parts: "\<forall>c\<in>set ?cs. normal_comp c \<or> c = ''..''"
    by (rule clean_comps_relative) (auto dest: split_on_no_sep)
  have "\<forall>x\<in>set ?cs. slash \<notin> set x"
  proof
    fix x assume "x \<in> set ?cs"
    with parts have "normal_comp x \<or> x = ''..''" by blast
    then show "slash \<notin> set x" by (auto simp: normal_comp_def slash_def)
  qed
  then have "split_on slash (Clean name) = ?cs"
    using split_join[OF c(2), of slash] c(1) by (simp add: slash_join)
  then have "\<forall>c\<in>set ?cs. normal_comp c" using rel(3) parts by auto
  then show ?thesis using c by blast
qed

lemma FileName_comps:
  assumes "validateFilename (inj_Filename i) = None"
  shows "\<exists>cs. cs \<noteq> [] \<and> FileName i = join_with ''/'' cs \<and> (\<forall>c\<in>set cs. normal_comp c)"
proof (cases "inj_Filename i = []")
  case True
  then show ?thesis by (intro exI[of _ "[''credential'']"]) (auto simp: FileName_def normal_comp_def slash_def)
next
  case False
  then show ?thesis using validated_filename[OF assms] by (simp add: FileName_def)
qed

lemma path_comps_normal:
  assumes "\<forall>c\<in>set cs. normal_comp c"
  shows "path_comps (slash # join_with ''/'' cs) = cs"
proof (cases "cs = []")
  case False
  have "\<forall>x\<in>set cs. slash \<notin> set x" using assms by (simp add: normal_comp_def)
  then have "split_on slash (join_with ''/'' cs) = cs" using split_join[OF False, of slash] by (simp add: slash_join)
  moreover have "filter (\<lambda>c. c \<noteq> [] \<and> c \<noteq> ''.'') cs = cs" using assms by (simp add: filter_id_conv normal_comp_def)
  ultimately show ?thesis by (simp add: path_comps_def)
qed (simp add: path_comps_def)

lemma rel_comps_under: "rel_comps ds (ds @ cs) = Some cs"
  by (induction ds) auto

lemma normal_not_dotdot:
  assumes "\<forall>c\<in>set cs. normal_comp c" "cs \<noteq> []"
  shows "join_with ''/'' cs \<noteq> ''..'' \<and> \<not> has_prefix (join_with ''/'' cs) ''../''"
proof (cases cs)
  case (Cons c cs')
  have c: "c \<noteq> ''..''" "slash \<notin> set c" using assms Cons by (auto simp: normal_comp_def)
  show ?thesis
  proof (cases cs')
    case Nil
    then have "join_with ''/'' cs = c" using Cons by simp
    then show ?thesis using c by (auto simp: has_prefix_iff slash_def)
  next
    case (Cons d ds)
    then have j: "join_with ''/'' cs = c @ slash # join_with ''/'' cs'"
      using \<open>cs = c # cs'\<close> by (simp add: slash_def)
    have "c @ slash # u \<noteq> ''..''" for u by (cases c; cases "tl c"; auto simp: slash_def)
    moreover have "c @ slash # u \<noteq> ''../'' @ v" for u v
    proof
      assume "c @ slash # u = ''../'' @ v"
      then have "c = ''..''"
        using c(2) by (cases c; cases "tl c"; cases "tl (tl c)"; auto simp: slash_def)
      then show False using c(1) by simp
    qed
    ultimately show ?thesis unfolding j has_prefix_iff by blast
  qed
qed (use assms in simp)

subsection \<open>Properties\<close>

text \<open>
  A rendered credential cannot land outside its RAM directory: for every profile whose
  file name passes validation, the path is the directory's followed by plain elements, none of
  them \<open>.\<close> or \<open>..\<close>, and the containment check of \<open>WriteFile\<close> accepts it.
\<close>

theorem rendered_file_contained:
  assumes "validateFilename (inj_Filename i) = None" "\<forall>d\<in>set ds. normal_comp d"
  shows "\<exists>cs. cs \<noteq> [] \<and> (\<forall>c\<in>set cs. normal_comp c) \<and>
    Join [slash # join_with ''/'' ds, FileName i] = slash # join_with ''/'' (ds @ cs) \<and>
    contains_path (slash # join_with ''/'' ds) (Join [slash # join_with ''/'' ds, FileName i])"
proof -
  obtain cs where cs: "cs \<noteq> []" "FileName i = join_with ''/'' cs" "\<forall>c\<in>set cs. normal_comp c"
    using FileName_comps[OF assms(1)] by blast
  have n: "\<forall>c\<in>set (ds @ cs). normal_comp c" using assms(2) cs(3) by auto
  have "Join [slash # join_with ''/'' ds, FileName i] = slash # join_with ''/'' (ds @ cs)"
  proof (cases "ds = []")
    case True
    have "\<forall>x\<in>set cs. slash \<notin> set x" using cs(3) by (simp add: normal_comp_def)
    then have "split_on slash (join_with ''/'' cs) = cs" using split_join[OF cs(1), of slash] by (simp add: slash_join)
    then show ?thesis
      using True cs clean_comps_normal[OF cs(3), of True "[]"]
      by (simp add: Join_def Clean_def Let_def slash_def[symmetric])
  next
    case False
    have "Join [slash # join_with ''/'' ds, FileName i] = Clean (slash # join_with ''/'' (ds @ cs))"
      using cs(2) join_append[OF False cs(1)] by (simp add: Join_def)
    then show ?thesis using Clean_normal[OF n] by simp
  qed
  moreover have "contains_path (slash # join_with ''/'' ds) (slash # join_with ''/'' (ds @ cs))"
    using Clean_normal[OF assms(2)] Clean_normal[OF n] path_comps_normal[OF assms(2)] path_comps_normal[OF n]
      rel_comps_under[of ds cs] normal_not_dotdot[OF cs(3,1)] cs(1)
    by (simp add: contains_path_def Rel_def IsAbs_def has_prefix_def slash_def)
  ultimately show ?thesis using cs by metis
qed

theorem rendered_file_contained_witness:
  "contains_path ''/run/user/1000/parzival/run-1'' (Join [''/run/user/1000/parzival/run-1'', ''tea/config.yml''])"
proof -
  let ?i = "\<lparr>inj_Env = [], inj_EnvDir = ''XDG_CONFIG_HOME'', inj_Filename = ''tea/./config.yml''\<rparr>"
  let ?ds = "[''run'', ''user'', ''1000'', ''parzival'', ''run-1'']"
  have v: "validateFilename (inj_Filename ?i) = None" and f: "FileName ?i = ''tea/config.yml''"
    and d: "slash # join_with ''/'' ?ds = ''/run/user/1000/parzival/run-1''" by code_simp+
  have n: "\<forall>d\<in>set ?ds. normal_comp d" by (simp add: normal_comp_def slash_def)
  show ?thesis using rendered_file_contained[OF v n] f d by auto
qed

definition linked_dir :: estate where
  "linked_dir =
     (\<lambda>_. None)(''/r/run-1/cred'' \<mapsto> EFile ''secret'', ''/r/run-1/link'' \<mapsto> ESym ''/home/me/notes'',
               ''/home/me/notes'' \<mapsto> EFile ''notes'')"

text \<open>
  The cleanup does reach outside the directory it wipes: it visits a link without
  following it but then opens it by its path, so the file a link in the directory points at is
  overwritten with zeros, and it stays so after the directory is gone.
\<close>

theorem cleanup_zeroes_through_link:
  "fst (Cleanup [''/r/run-1/cred'', ''/r/run-1/link''] linked_dir) ''/home/me/notes'' =
     Some (EFile (Zero ''notes'')) \<and>
   snd (Cleanup [''/r/run-1/cred'', ''/r/run-1/link''] linked_dir) ''/r/run-1/cred'' = Some (EFile (Zero ''secret'')) \<and>
   fst (Cleanup [''/r/run-1/cred'', ''/r/run-1/link''] linked_dir) ''/r/run-1/cred'' = None"
  by (intro conjI; code_simp)

end
