(* ===== verification/Delivery.thy ===== *)
theory Delivery
  imports Backends Ephemeral "HOL-Library.Word" "HOL-Library.Multiset"
begin

text \<open>
  The delivery commands: \<open>get\<close>, \<open>exec\<close> and \<open>mount\<close> of \<open>cmd/parzival/main.go\<close>, \<open>probe\<close>
  (\<open>cmd/parzival/probe.go\<close>), the file system of \<open>internal/mount/mount_linux.go\<close>, and \<open>newDir\<close> of
  \<open>internal/ephemeral\<close>. Every command takes the world it finds (the audit log, the files, the
  effects so far) and returns the world it leaves and its error. Flag parsing, the answer
  of a backend (the theory Backends), the child process and the FUSE library are parameters,
  fields of \<open>host\<close>.
\<close>

subsection \<open>The world and the host\<close>

text \<open>What a command can do that another party sees, in the order it does it.\<close>

datatype event =
    EAuth request bool
  | EFetch secret_ref fetch
  | EOut int string
  | EPrint string
  | ECred string string
  | EChild "string list" "string list"
  | EWipe string

text \<open>\<open>w_mem\<close> is the buffers in memory that hold secret bytes and have not been zeroed.\<close>

record world =
  w_log :: "string option"
  w_loads :: nat
  w_fs :: estate
  w_events :: "event list"
  w_mem :: "string list"

definition emit :: "event \<Rightarrow> world \<Rightarrow> world" where
  "emit e w = w\<lparr>w_events := w_events w @ [e]\<rparr>"

text \<open>A buffer comes into being, and \<open>secret.Zero\<close> of one or of all in a map.\<close>

definition hold :: "string \<Rightarrow> world \<Rightarrow> world" where
  "hold b w = w\<lparr>w_mem := b # w_mem w\<rparr>"

definition zero_buf :: "string \<Rightarrow> world \<Rightarrow> world" where
  "zero_buf b w = w\<lparr>w_mem := remove1 b (w_mem w)\<rparr>"

definition zero_secrets :: "(string \<times> string) list \<Rightarrow> world \<Rightarrow> world" where
  "zero_secrets secrets w = fold (\<lambda>(name, v). zero_buf v) secrets w"

text \<open>\<open>fmt.Printf\<close> and \<open>fmt.Println\<close>; standard error is not part of the world.\<close>

definition printf :: "string \<Rightarrow> world \<Rightarrow> world" where
  "printf s w = emit (EPrint s) w"

definition println :: "string \<Rightarrow> world \<Rightarrow> world" where
  "println s w = printf (s @ newline) w"

datatype child_result = ChildOK | ChildExit int | ChildNotRun string | Signalled int

text \<open>
  \<open>h_load k\<close> and \<open>h_now k\<close> are what the policy file and the clock gave when the policy was
  loaded for the \<open>k\<close>-th time, so the file may change between two decisions.
  \<open>h_perform\<close> runs the command or the request of a fetch; \<open>h_walk\<close> lists what \<open>WalkDir\<close> visits.
\<close>

record 'a host =
  h_getenv :: getenv
  h_env :: env
  h_load :: "nat \<Rightarrow> string + policy option"
  h_now :: "nat \<Rightarrow> gotime"
  h_cfg :: openbao_config
  h_perform :: "backend \<Rightarrow> secret_ref \<Rightarrow> fetch \<Rightarrow> string + string"
  h_profile :: "string \<Rightarrow> profile_error + profile"
  h_engine :: "'a template_engine"
  h_shm :: bool
  h_uid :: nat
  h_mkbase :: bool
  h_random :: "string option"
  h_mkdir :: bool
  h_file_calls :: "bool \<times> bool \<times> bool \<times> bool"
  h_walk :: "estate \<Rightarrow> string \<Rightarrow> string list"
  h_child :: "string list \<Rightarrow> string list \<Rightarrow> estate \<Rightarrow> estate \<times> child_result"
  h_environ :: "string list"
  h_stdout_regular :: "bool option"
  h_write :: "int \<Rightarrow> string \<Rightarrow> bool"

datatype dir_error = NoRamDir | BaseFailed | RandomFailed | DirFailed

datatype fetch_error = ResolveFailed resolve_error | GetFailed get_error | BackendFailed string

datatype cmd_error =
    FlagError string
  | UsageError string
  | BadRef ref_error
  | AgentShell string string
  | RegularStdout
  | NotAuthorized auth_error
  | FetchFailed fetch_error
  | WriteFailed
  | PolicyError string
  | ProfileFailed profile_error
  | SecretBadRef string string ref_error
  | RenderFailed string
  | DirError dir_error
  | FileError ephemeral_error
  | ChildFailed string string
  | ExitStatus int
  | Interrupted int

text \<open>
  The exit status \<open>main\<close> gives the error of a command. \<open>Interrupted\<close> is no error of the code: it
  stands for the \<open>os.Exit\<close> of the signal goroutine, after which nothing else of the process runs.
\<close>

definition exit_code :: "cmd_error option \<Rightarrow> int" where
  "exit_code e = (case e of None \<Rightarrow> 0 | Some (ExitStatus c) \<Rightarrow> c | Some (Interrupted sig) \<Rightarrow> 128 + sig
     | Some _ \<Rightarrow> 1)"

subsection \<open>Identity, agent context, authorization and fetching\<close>

definition resolveIdentity :: "getenv \<Rightarrow> string \<Rightarrow> string" where
  "resolveIdentity getenv flagVal = (if flagVal \<noteq> [] then flagVal else getenv ''PARZIVAL_IDENTITY'')"

definition agentContext :: "getenv \<Rightarrow> string" where
  "agentContext getenv = (case detect getenv of Some m \<Rightarrow> fst m | None \<Rightarrow> [])"

text \<open>\<open>policy.Authorize\<close> in the world: it loads the policy, appends to the log and answers.\<close>

definition policy_authorize :: "'a host \<Rightarrow> request \<Rightarrow> world \<Rightarrow> world \<times> auth_error option" where
  "policy_authorize h r w =
     (let (log, err) = Authorize (h_load h (w_loads w)) (w_log w) r
      in (w\<lparr>w_log := log, w_loads := Suc (w_loads w), w_events := w_events w @ [EAuth r (err = None)]\<rparr>, err))"

definition authorize :: "'a host \<Rightarrow> secret_ref \<Rightarrow> string \<Rightarrow> string \<Rightarrow> world \<Rightarrow> world \<times> auth_error option" where
  "authorize h ref identity mode w =
     policy_authorize h \<lparr>q_Ref = sr_Raw ref, q_Identity = identity, q_Mode = mode, q_Time = h_now h (w_loads w),
       q_Caller = [], q_Agent = agentContext (h_getenv h)\<rparr> w"

text \<open>\<open>backend.Get\<close>: nothing is run when the reference is refused; \<open>bao\<close>'s newline is cut off.\<close>

definition backend_value :: "fetch \<Rightarrow> string \<Rightarrow> string" where
  "backend_value f out =
     (case f of RunCommand cmd _ \<Rightarrow> if cmd = ''bao'' then ambient_value out else out | HTTPGet _ \<Rightarrow> out)"

definition backend_Get :: "'a host \<Rightarrow> backend \<Rightarrow> secret_ref \<Rightarrow> world \<Rightarrow> world \<times> (fetch_error + string)" where
  "backend_Get h b ref w =
     (case Get b ref of
        Inl e \<Rightarrow> (w, Inl (GetFailed e))
      | Inr f \<Rightarrow>
          (case h_perform h b ref f of
             Inl e \<Rightarrow> (emit (EFetch ref f) w, Inl (BackendFailed e))
           | Inr out \<Rightarrow> (hold (backend_value f out) (emit (EFetch ref f) w), Inr (backend_value f out))))"

definition retrieve :: "'a host \<Rightarrow> secret_ref \<Rightarrow> world \<Rightarrow> world \<times> (fetch_error + string)" where
  "retrieve h ref w =
     (case Resolve (h_getenv h) (h_cfg h) ref of
        Inl e \<Rightarrow> (w, Inl (ResolveFailed e))
      | Inr b \<Rightarrow> backend_Get h b ref w)"

definition fetch :: "'a host \<Rightarrow> secret_ref \<Rightarrow> string \<Rightarrow> string \<Rightarrow> world \<Rightarrow> world \<times> (cmd_error + string)" where
  "fetch h ref identity mode w =
     (case authorize h ref identity mode w of
        (w1, Some e) \<Rightarrow> (w1, Inl (NotAuthorized e))
      | (w1, None) \<Rightarrow>
          (case retrieve h ref w1 of (w2, Inl e) \<Rightarrow> (w2, Inl (FetchFailed e)) | (w2, Inr v) \<Rightarrow> (w2, Inr v)))"

subsection \<open>\<open>get\<close>\<close>

definition refuseAgentShell :: "getenv \<Rightarrow> cmd_error option" where
  "refuseAgentShell getenv = (case detect getenv of None \<Rightarrow> None | Some m \<Rightarrow> Some (AgentShell (fst m) (snd m)))"

text \<open>\<open>None\<close> is a failed \<open>Stat\<close> of stdout.\<close>

definition refuseRegularFile :: "bool option \<Rightarrow> cmd_error option" where
  "refuseRegularFile regular =
     (case regular of None \<Rightarrow> None | Some reg \<Rightarrow> if \<not> reg then None else Some RegularStdout)"

record get_flags =
  gf_fd :: int
  gf_as :: string
  gf_force :: bool
  gf_args :: "string list"

definition write_to :: "'a host \<Rightarrow> int \<Rightarrow> string \<Rightarrow> world \<Rightarrow> world \<times> cmd_error option" where
  "write_to h fd b w = (emit (EOut fd b) w, if h_write h fd b then None else Some WriteFailed)"

definition runGet :: "'a host \<Rightarrow> string + get_flags \<Rightarrow> world \<Rightarrow> world \<times> cmd_error option" where
  "runGet h parsed w =
     (case parsed of
        Inl e \<Rightarrow> (w, Some (FlagError e))
      | Inr fl \<Rightarrow>
          if length (gf_args fl) \<noteq> 1 then (w, Some (UsageError ''get requires exactly one secret reference''))
          else case ParseRef (hd (gf_args fl)) of
            Inl e \<Rightarrow> (w, Some (BadRef e))
          | Inr ref \<Rightarrow>
              (case refuseAgentShell (h_getenv h) of
                 Some e \<Rightarrow> (w, Some e)
               | None \<Rightarrow>
                   (case (if gf_fd fl = 1 \<and> \<not> gf_force fl then refuseRegularFile (h_stdout_regular h) else None) of
                      Some e \<Rightarrow> (w, Some e)
                    | None \<Rightarrow>
                        (case fetch h ref (resolveIdentity (h_getenv h) (gf_as fl)) ModeGet w of
                           (w1, Inl e) \<Rightarrow> (w1, Some e)
                         | (w1, Inr buf) \<Rightarrow>
                             (case write_to h (gf_fd fl) buf w1 of (w2, res) \<Rightarrow> (zero_buf buf w2, res))))))"

subsection \<open>\<open>probe\<close>\<close>

definition probeExitEmpty :: int where "probeExitEmpty = 3"
definition probeExitDenied :: int where "probeExitDenied = 4"
definition probeExitError :: int where "probeExitError = 5"

definition probeModeOrder :: "string list" where
  "probeModeOrder = [ModeGet, ModeExec, ModeMount]"

definition probe_request :: "string \<Rightarrow> string \<Rightarrow> string \<Rightarrow> gotime \<Rightarrow> string \<Rightarrow> request" where
  "probe_request ref identity agentEnv at m =
     \<lparr>q_Ref = ref, q_Identity = identity, q_Mode = m, q_Time = at, q_Caller = [], q_Agent = agentEnv\<rparr>"

definition probeReachableMode ::
  "policy \<Rightarrow> string \<Rightarrow> string \<Rightarrow> string \<Rightarrow> gotime \<Rightarrow> (string \<times> string) option" where
  "probeReachableMode p ref identity agentEnv at =
     (case find (\<lambda>m. d_Allow (Evaluate p (probe_request ref identity agentEnv at m))) probeModeOrder of
        None \<Rightarrow> None
      | Some m \<Rightarrow> Some (m, d_Reason (Evaluate p (probe_request ref identity agentEnv at m))))"

definition logProbeDecision ::
  "'a host \<Rightarrow> string \<Rightarrow> string \<Rightarrow> string \<Rightarrow> string \<Rightarrow> gotime \<Rightarrow> world \<Rightarrow> world \<times> auth_error option" where
  "logProbeDecision h ref identity mode agentEnv at w =
     policy_authorize h \<lparr>q_Ref = ref, q_Identity = identity, q_Mode = mode, q_Time = at,
       q_Caller = ''probe'', q_Agent = agentEnv\<rparr> w"

definition identityLabel :: "string \<Rightarrow> string" where
  "identityLabel i = (if i = [] then ''(none)'' else i)"

record probe_flags =
  pf_as :: string
  pf_args :: "string list"

text \<open>The last part of \<open>runProbe\<close>: the fetch and its verdict, after the audit record.\<close>

definition probe_verdict :: "'a host \<Rightarrow> secret_ref \<Rightarrow> string \<Rightarrow> string \<Rightarrow> world \<Rightarrow> world \<times> cmd_error option" where
  "probe_verdict h ref mode reason w =
     (let report = (\<lambda>verdict. newline @ verdict @ newline @ newline @ ''Reached:  '' @ mode @ '' ('' @ reason @ '')'' @ newline)
      in case Resolve (h_getenv h) (h_cfg h) ref of
           Inl e \<Rightarrow> (printf (report ''ERROR'') w, Some (ExitStatus probeExitError))
         | Inr b \<Rightarrow>
             (case backend_Get h b ref w of
                (w1, Inl e) \<Rightarrow>
                  (printf (report ''ERROR'' @ ''Backend:  the store refused or failed the fetch'' @ newline) w1,
                   Some (ExitStatus probeExitError))
              | (w1, Inr buf) \<Rightarrow>
                  if length buf = 0 then
                    (printf (report ''EMPTY'' @ ''Value:    the fetch succeeded and returned zero bytes'' @ newline) (zero_buf buf w1),
                     Some (ExitStatus probeExitEmpty))
                  else
                    (printf (report ''OK'' @ ''Value:    present '' @ emdash @ '' not shown, and probe never shows it'' @ newline)
                       (zero_buf buf w1),
                     None)))"

definition runProbe :: "'a host \<Rightarrow> string + probe_flags \<Rightarrow> world \<Rightarrow> world \<times> cmd_error option" where
  "runProbe h parsed w =
     (case parsed of
        Inl e \<Rightarrow> (w, Some (FlagError e))
      | Inr fl \<Rightarrow>
          if length (pf_args fl) \<noteq> 1 then (w, Some (UsageError ''probe requires exactly one secret reference''))
          else case ParseRef (hd (pf_args fl)) of
            Inl e \<Rightarrow> (w, Some (BadRef e))
          | Inr ref \<Rightarrow>
              (let identity = resolveIdentity (h_getenv h) (pf_as fl);
                   agentEnv = agentContext (h_getenv h);
                   now = h_now h (w_loads w);
                   loaded = h_load h (w_loads w);
                   w0 = w\<lparr>w_loads := Suc (w_loads w)\<rparr>
               in case loaded of
                 Inl e \<Rightarrow> (w0, Some (PolicyError e))
               | Inr po \<Rightarrow>
                   let w1 = println (''Identity: '' @ identityLabel identity) (println (''Ref:      '' @ sr_Raw ref) w0)
                   in case po of
                     None \<Rightarrow> (printf (newline @ ''DENIED'' @ newline @ newline @ ''Reached:  no mode '' @ emdash @ '' no policy at '' @
                                policy_Path (h_env h) @ '' (strict deny-by-default)'' @ newline) w1,
                              Some (ExitStatus probeExitDenied))
                   | Some p \<Rightarrow>
                       (case probeReachableMode p (sr_Raw ref) identity agentEnv now of
                          None \<Rightarrow>
                            let w2 = println (newline @ ''Reached:  no mode '' @ emdash @ '' get, exec and mount are all denied'')
                                       (println (newline @ ''DENIED'') w1);
                                w3 = fold (\<lambda>m. println (''  '' @ pad_right 5 m @ ''  '' @
                                       d_Reason (Evaluate p (probe_request (sr_Raw ref) identity agentEnv now m))))
                                       probeModeOrder w2
                            in (fst (logProbeDecision h (sr_Raw ref) identity ModeGet agentEnv now w3),
                                Some (ExitStatus probeExitDenied))
                        | Some (mode, reason) \<Rightarrow>
                            (case logProbeDecision h (sr_Raw ref) identity mode agentEnv now w1 of
                               (w2, Some e) \<Rightarrow> (println (newline @ ''DENIED'') w2, Some (ExitStatus probeExitDenied))
                             | (w2, None) \<Rightarrow> probe_verdict h ref mode reason w2))))"

definition probeExitCode :: "cmd_error option \<Rightarrow> int" where
  "probeExitCode e = (case e of None \<Rightarrow> 0 | Some (ExitStatus c) \<Rightarrow> c | Some _ \<Rightarrow> 1)"

subsection \<open>All secrets or none\<close>

text \<open>
  The loops of \<open>exec\<close> and of the mount over the sorted secret names: each step ends the
  command or gives the value stored under the name. \<open>undo\<close> is what the deferred function does to
  a value already stored when a later step ends the command.
\<close>

fun each ::
  "('v \<Rightarrow> world \<Rightarrow> world) \<Rightarrow> (string \<Rightarrow> world \<Rightarrow> world \<times> ('e + 'v)) \<Rightarrow> string list \<Rightarrow> world \<Rightarrow>
   world \<times> ('e + (string \<times> 'v) list)" where
  "each undo step [] w = (w, Inr [])"
| "each undo step (name # names) w =
     (case step name w of
        (w1, Inl e) \<Rightarrow> (w1, Inl e)
      | (w1, Inr v) \<Rightarrow>
          (case each undo step names w1 of
             (w2, Inl e) \<Rightarrow> (undo v w2, Inl e)
           | (w2, Inr m) \<Rightarrow> (w2, Inr ((name, v) # m))))"

text \<open>The two loops, one after the other; the values of the second are zeroed when it fails.\<close>

definition both_loops ::
  "(string \<Rightarrow> world \<Rightarrow> world \<times> ('e + 'r)) \<Rightarrow> ('r \<Rightarrow> world \<Rightarrow> world \<times> ('e + string)) \<Rightarrow> string list \<Rightarrow> world \<Rightarrow>
   world \<times> ('e + (string \<times> string) list)" where
  "both_loops check get names w =
     (case each (\<lambda>_ w. w) check names w of
        (w1, Inl e) \<Rightarrow> (w1, Inl e)
      | (w1, Inr parsed) \<Rightarrow> each zero_buf (\<lambda>name. get (the (map_of parsed name))) names w1)"

subsection \<open>\<open>exec\<close>\<close>

text \<open>\<open>strings.Index\<close> and \<open>strings.ReplaceAll\<close> for a token that is not empty.\<close>

function replaceAll :: "string \<Rightarrow> string \<Rightarrow> string \<Rightarrow> string" where
  "replaceAll [] old new = []"
| "replaceAll (c # s) old new =
     (if old \<noteq> [] \<and> has_prefix (c # s) old then new @ replaceAll (drop (length old) (c # s)) old new
      else c # replaceAll s old new)"
  by pat_completeness auto
termination
proof (relation "measure (length o fst)", goal_cases)
  case (2 c s old new)
  then show ?case by (cases old) auto
qed auto

definition splitAtDashDash :: "string list \<Rightarrow> string + string list \<times> string list" where
  "splitAtDashDash args =
     (case first_index (\<lambda>a. a = ''--'') args of
        None \<Rightarrow> Inl ''exec requires: parzival exec [--as ID] <profile> -- <command> [args...]''
      | Some sep \<Rightarrow>
          if drop (Suc sep) args = [] then Inl ''exec requires a command after --''
          else Inr (take sep args, drop (Suc sep) args))"

definition substituteCred :: "string list \<Rightarrow> string \<Rightarrow> string \<Rightarrow> string list" where
  "substituteCred args credPath credDir =
     map (\<lambda>a. replaceAll (replaceAll a ''{{cred}}'' credPath) ''{{creddir}}'' credDir) args"

definition newDir :: "'a host \<Rightarrow> world \<Rightarrow> world \<times> (dir_error + string)" where
  "newDir h w =
     (case ramBase (h_env h) (h_shm h) (h_uid h) of
        None \<Rightarrow> (w, Inl NoRamDir)
      | Some base \<Rightarrow>
          if \<not> h_mkbase h then (w, Inl BaseFailed)
          else case h_random h of
            None \<Rightarrow> (w, Inl RandomFailed)
          | Some suffix \<Rightarrow>
              let path = Join [base, ''run-'' @ suffix] in
              if \<not> h_mkdir h \<or> w_fs w path \<noteq> None then (w, Inl DirFailed)
              else (w\<lparr>w_fs := (w_fs w)(path \<mapsto> EDir)\<rparr>, Inr path))"

text \<open>\<open>dir.Cleanup\<close>: what \<open>WalkDir\<close> visits is zeroed and the tree removed.\<close>

definition wipe :: "'a host \<Rightarrow> string \<Rightarrow> world \<Rightarrow> world" where
  "wipe h dir w = emit (EWipe dir) (w\<lparr>w_fs := fst (Cleanup (h_walk h (w_fs w) dir) (w_fs w))\<rparr>)"

definition child_env :: "'a host \<Rightarrow> inject \<Rightarrow> string \<Rightarrow> string \<Rightarrow> string list" where
  "child_env h ij credPath dir =
     h_environ h @ [''PARZIVAL_CRED_FILE='' @ credPath, ''PARZIVAL_CRED_DIR='' @ dir] @
     (if inj_Env ij \<noteq> [] then [inj_Env ij @ ''='' @ credPath] else []) @
     (if inj_EnvDir ij \<noteq> [] then [inj_EnvDir ij @ ''='' @ dir] else [])"

text \<open>
  The child and what follows it. A signal that arrives while the child runs makes
  \<open>cleanupOnSignal\<close> wipe the directory and leave with 128 plus its number; the theory
  Exec_Signals has the other moments.
\<close>

definition run_child ::
  "'a host \<Rightarrow> inject \<Rightarrow> string list \<Rightarrow> string \<Rightarrow> string \<Rightarrow> world \<Rightarrow> world \<times> cmd_error option" where
  "run_child h ij cmdArgs credPath dir w =
     (let childArgs = substituteCred cmdArgs credPath dir;
          environ = child_env h ij credPath dir;
          w1 = emit (EChild childArgs environ) w;
          (fs, res) = h_child h childArgs environ (w_fs w1);
          w2 = wipe h dir (w1\<lparr>w_fs := fs\<rparr>)
      in (w2, case res of
                ChildOK \<Rightarrow> None
              | ChildExit c \<Rightarrow> Some (ExitStatus c)
              | ChildNotRun e \<Rightarrow> Some (ChildFailed (hd childArgs) e)
              | Signalled sig \<Rightarrow> Some (Interrupted sig)))"

text \<open>From the rendered template on, less its buffer: the directory exists until it is wiped, on every path.\<close>

definition deliver :: "'a host \<Rightarrow> inject \<Rightarrow> string list \<Rightarrow> string \<Rightarrow> world \<Rightarrow> world \<times> cmd_error option" where
  "deliver h ij cmdArgs body w =
     (case newDir h w of
        (w1, Inl e) \<Rightarrow> (w1, Some (DirError e))
      | (w1, Inr dir) \<Rightarrow>
          (let (parent, opens, writes, closes) = h_file_calls h;
               (fs, res) = WriteFile parent opens writes closes dir (FileName ij) body (w_fs w1);
               w2 = w1\<lparr>w_fs := fs\<rparr>
           in case res of
                Inl e \<Rightarrow> (wipe h dir w2, Some (FileError e))
              | Inr credPath \<Rightarrow> run_child h ij cmdArgs credPath dir (emit (ECred credPath body) w2)))"

definition exec_check :: "'a host \<Rightarrow> string \<Rightarrow> profile \<Rightarrow> string \<Rightarrow> string \<Rightarrow> world \<Rightarrow> world \<times> (cmd_error + secret_ref)" where
  "exec_check h profileName prof identity name w =
     (case ParseRef (the (map_of (pf_Secrets prof) name)) of
        Inl e \<Rightarrow> (w, Inl (SecretBadRef profileName name e))
      | Inr ref \<Rightarrow>
          (case authorize h ref identity ModeExec w of
             (w1, Some e) \<Rightarrow> (w1, Inl (NotAuthorized e))
           | (w1, None) \<Rightarrow> (w1, Inr ref)))"

definition exec_get :: "'a host \<Rightarrow> secret_ref \<Rightarrow> world \<Rightarrow> world \<times> (cmd_error + string)" where
  "exec_get h ref w = (case retrieve h ref w of (w1, Inl e) \<Rightarrow> (w1, Inl (FetchFailed e)) | (w1, Inr v) \<Rightarrow> (w1, Inr v))"

record exec_flags =
  xf_as :: string
  xf_args :: "string list"

text \<open>\<open>runExec\<close> once the secrets are fetched, with the deferred calls of \<open>secret.Zero\<close>.\<close>

definition exec_rendered ::
  "'a host \<Rightarrow> profile \<Rightarrow> string list \<Rightarrow> (string \<times> string) list \<Rightarrow> world \<Rightarrow> world \<times> cmd_error option" where
  "exec_rendered h prof cmdArgs secrets w =
     (case Render (h_engine h) prof secrets of
        Inl e \<Rightarrow> (zero_secrets secrets w, Some (RenderFailed e))
      | Inr body \<Rightarrow>
          (case deliver h (pf_Inject prof) cmdArgs body (hold body w) of
             (w1, Some (Interrupted sig)) \<Rightarrow> (w1, Some (Interrupted sig))
           | (w1, res) \<Rightarrow> (zero_secrets secrets (zero_buf body w1), res)))"

definition runExec ::
  "'a host \<Rightarrow> (string list \<Rightarrow> string + exec_flags) \<Rightarrow> string list \<Rightarrow> world \<Rightarrow> world \<times> cmd_error option" where
  "runExec h parse args w =
     (case splitAtDashDash args of
        Inl e \<Rightarrow> (w, Some (UsageError e))
      | Inr (pre, cmdArgs) \<Rightarrow>
          (case parse pre of
             Inl e \<Rightarrow> (w, Some (FlagError e))
           | Inr fl \<Rightarrow>
               if length (xf_args fl) \<noteq> 1 then (w, Some (UsageError ''exec requires exactly one profile name before --''))
               else
                 let profileName = hd (xf_args fl); identity = resolveIdentity (h_getenv h) (xf_as fl) in
                 case h_profile h profileName of
                   Inl e \<Rightarrow> (w, Some (ProfileFailed e))
                 | Inr prof \<Rightarrow>
                     (case both_loops (exec_check h profileName prof identity) (exec_get h)
                             (sortedKeys (pf_Secrets prof)) w of
                        (w1, Inl e) \<Rightarrow> (w1, Some e)
                      | (w1, Inr secrets) \<Rightarrow> exec_rendered h prof cmdArgs secrets w1)))"

subsection \<open>The mounted file system\<close>

text \<open>
  \<open>errno\<close> of the operations. A handle holds the rendered bytes until it is released.
\<close>

datatype errno = EIO | EACCES | ENOENT

record fuse_caller =
  fc_Uid :: nat
  fc_Pid :: nat

record cred_file =
  cf_profileName :: string
  cf_identity :: string
  cf_agent :: string

record root_node =
  rn_identity :: string
  rn_agent :: string

text \<open>\<open>readlink\<close> gives the target of \<open>/proc/<pid>/exe\<close>, empty on an error.\<close>

definition callerString :: "(string \<Rightarrow> string) \<Rightarrow> fuse_caller option \<Rightarrow> string" where
  "callerString readlink fc =
     (case fc of
        None \<Rightarrow> []
      | Some c \<Rightarrow>
          ''uid='' @ itoa (int (fc_Uid c)) @ '' pid='' @ itoa (int (fc_Pid c)) @ '' exe='' @
          readlink (''/proc/'' @ itoa (int (fc_Pid c)) @ ''/exe''))"

definition mount_check ::
  "'a host \<Rightarrow> cred_file \<Rightarrow> profile \<Rightarrow> gotime \<Rightarrow> string \<Rightarrow> string \<Rightarrow> world \<Rightarrow> world \<times> (errno + secret_ref)" where
  "mount_check h c prof now caller name w =
     (case ParseRef (the (map_of (pf_Secrets prof) name)) of
        Inl e \<Rightarrow> (w, Inl EIO)
      | Inr parsed \<Rightarrow>
          (case policy_authorize h \<lparr>q_Ref = sr_Raw parsed, q_Identity = cf_identity c, q_Mode = ModeMount, q_Time = now,
                  q_Caller = caller, q_Agent = cf_agent c\<rparr> w of
             (w1, Some e) \<Rightarrow> (w1, Inl EACCES)
           | (w1, None) \<Rightarrow> (w1, Inr parsed)))"

definition mount_get :: "'a host \<Rightarrow> secret_ref \<Rightarrow> world \<Rightarrow> world \<times> (errno + string)" where
  "mount_get h ref w = (case retrieve h ref w of (w1, Inl e) \<Rightarrow> (w1, Inl EIO) | (w1, Inr v) \<Rightarrow> (w1, Inr v))"

definition materialize ::
  "'a host \<Rightarrow> (string \<Rightarrow> string) \<Rightarrow> fuse_caller option \<Rightarrow> cred_file \<Rightarrow> world \<Rightarrow> world \<times> (errno + string)" where
  "materialize h readlink fc c w =
     (case h_profile h (cf_profileName c) of
        Inl e \<Rightarrow> (w, Inl ENOENT)
      | Inr prof \<Rightarrow>
          (case both_loops (mount_check h c prof (h_now h (w_loads w)) (callerString readlink fc)) (mount_get h)
                  (sortedKeys (pf_Secrets prof)) w of
             (w1, Inl e) \<Rightarrow> (w1, Inl e)
           | (w1, Inr secrets) \<Rightarrow>
               (case Render (h_engine h) prof secrets of
                  Inl e \<Rightarrow> (zero_secrets secrets w1, Inl EIO)
                | Inr body \<Rightarrow> (zero_secrets secrets (hold body w1), Inr body))))"

definition O_WRONLY :: "32 word" where "O_WRONLY = 1"
definition O_RDWR :: "32 word" where "O_RDWR = 2"

unbundle bit_operations_syntax

definition Open ::
  "'a host \<Rightarrow> (string \<Rightarrow> string) \<Rightarrow> fuse_caller option \<Rightarrow> cred_file \<Rightarrow> 32 word \<Rightarrow> world \<Rightarrow> world \<times> (errno + string)" where
  "Open h readlink fc c flags w =
     (if flags AND (O_WRONLY OR O_RDWR) \<noteq> 0 then (w, Inl EACCES) else materialize h readlink fc c w)"

text \<open>
  \<open>Read\<close> into a buffer of length \<open>n\<close>: \<open>int64\<close> comparisons and sums, and the bounds check of the
  slice expression, whose panic is \<open>None\<close>.
\<close>

definition Read :: "string \<Rightarrow> nat \<Rightarrow> 64 word \<Rightarrow> string option" where
  "Read data n off =
     (let len = (of_nat (length data) :: 64 word) in
      if sint len \<le> sint off then Some []
      else
        let end0 = off + of_nat n;
            end1 = (if sint len < sint end0 then len else end0)
        in if 0 \<le> sint off \<and> sint off \<le> sint end1
           then Some (take (nat (sint end1 - sint off)) (drop (nat (sint off)) data))
           else None)"

text \<open>\<open>Getattr\<close> (mode and size) and \<open>Release\<close>, on a handle that has data or on none.\<close>

definition Getattr :: "string option \<Rightarrow> nat \<times> nat" where
  "Getattr handle = (256, case handle of Some data \<Rightarrow> length data | None \<Rightarrow> 0)"

definition Release :: "string option \<Rightarrow> string option" where
  "Release handle = map_option Zero handle"

text \<open>
  \<open>profileNames\<close> on what \<open>ReadDir\<close> gave: an error, and whether it says that the directory does
  not exist, or the entries with their names and whether they are directories.
\<close>

definition profileNames :: "bool + (string \<times> bool) list \<Rightarrow> string list option" where
  "profileNames entries =
     (case entries of
        Inl notExist \<Rightarrow> if notExist then Some [] else None
      | Inr es \<Rightarrow>
          Some (sort (map (\<lambda>(n, _). take (length n - 5) n)
            (filter (\<lambda>(n, isDir). \<not> isDir \<and> has_suffix n ''.json'') es))))"

definition Readdir :: "bool + (string \<times> bool) list \<Rightarrow> errno + string list" where
  "Readdir entries = (case profileNames entries of None \<Rightarrow> Inl EIO | Some names \<Rightarrow> Inr names)"

text \<open>\<open>Lookup\<close>: a profile that loads is a file of the mount, with the mount's identity and agent.\<close>

definition Lookup :: "'a host \<Rightarrow> root_node \<Rightarrow> string \<Rightarrow> errno + cred_file" where
  "Lookup h r name =
     (case h_profile h name of
        Inl e \<Rightarrow> Inl ENOENT
      | Inr _ \<Rightarrow> Inr \<lparr>cf_profileName = name, cf_identity = rn_identity r, cf_agent = rn_agent r\<rparr>)"

text \<open>The node \<open>Serve\<close> mounts: the agent is detected once, in the process that serves.\<close>

definition mount_root :: "getenv \<Rightarrow> string \<Rightarrow> root_node" where
  "mount_root getenv identity =
     \<lparr>rn_identity = identity, rn_agent = (case detect getenv of Some m \<Rightarrow> fst m | None \<Rightarrow> [])\<rparr>"

subsection \<open>Lemmas\<close>

text \<open>A request some loaded policy allowed.\<close>

definition permitted :: "'a host \<Rightarrow> request \<Rightarrow> bool" where
  "permitted h r \<longleftrightarrow> (\<exists>k p. h_load h k = Inr (Some p) \<and> d_Allow (Evaluate p r))"

lemma buffers_only [simp]:
  "w_events (hold b w) = w_events w" "w_fs (hold b w) = w_fs w" "w_log (hold b w) = w_log w"
  "w_loads (hold b w) = w_loads w" "w_events (zero_buf b w) = w_events w" "w_fs (zero_buf b w) = w_fs w"
  "w_log (zero_buf b w) = w_log w" "w_loads (zero_buf b w) = w_loads w"
  by (simp_all add: hold_def zero_buf_def)

lemma zero_hold [simp]: "zero_buf b (hold b w) = w"
  by (simp add: hold_def zero_buf_def)

lemma zero_secrets_only [simp]:
  "w_events (zero_secrets m w) = w_events w" "w_fs (zero_secrets m w) = w_fs w" "w_log (zero_secrets m w) = w_log w"
  "w_loads (zero_secrets m w) = w_loads w"
  unfolding zero_secrets_def by (induction m arbitrary: w) auto

lemmas [step_defs] = emit_def println_def printf_def policy_authorize_def authorize_def backend_Get_def retrieve_def

lemma policy_authorize_cases:
  assumes "policy_authorize h r w = (w', err)"
  shows "w_events w' = w_events w @ [EAuth r (err = None)] \<and> w_fs w' = w_fs w \<and> (err = None \<longrightarrow> permitted h r)"
proof -
  obtain log err' where a: "Authorize (h_load h (w_loads w)) (w_log w) r = (log, err')" by (metis surj_pair)
  then have w: "err' = err" "w_events w' = w_events w @ [EAuth r (err = None)]" "w_fs w' = w_fs w"
    using assms by (auto simp: policy_authorize_def)
  have "permitted h r" if "err = None"
  proof -
    have "snd (Authorize (h_load h (w_loads w)) (w_log w) r) = None" using a w that by simp
    then obtain p where "h_load h (w_loads w) = Inr (Some p)" "d_Allow (Evaluate p r)"
      unfolding Authorize_ok_iff by (auto simp: Evaluate_allows)
    then show ?thesis unfolding permitted_def by blast
  qed
  then show ?thesis using w by blast
qed

lemma authorize_cases:
  assumes "authorize h ref identity mode w = (w', err)"
  obtains r where "r = \<lparr>q_Ref = sr_Raw ref, q_Identity = identity, q_Mode = mode, q_Time = h_now h (w_loads w),
      q_Caller = [], q_Agent = agentContext (h_getenv h)\<rparr>"
    "w_events w' = w_events w @ [EAuth r (err = None)]" "w_fs w' = w_fs w" "err = None \<longrightarrow> permitted h r"
  using policy_authorize_cases[OF assms[unfolded authorize_def]] that by blast

lemma backend_Get_cases:
  assumes "backend_Get h b ref w = (w', res)"
  obtains "w' = w" "isl res"
  | f where "w_events w' = w_events w @ [EFetch ref f]" "w_fs w' = w_fs w" "Get b ref = Inr f"
      "res = (case h_perform h b ref f of Inl e \<Rightarrow> Inl (BackendFailed e) | Inr out \<Rightarrow> Inr (backend_value f out))"
      "w_mem w' = (case res of Inl _ \<Rightarrow> w_mem w | Inr v \<Rightarrow> v # w_mem w)"
  using assms by (auto simp: backend_Get_def emit_def hold_def split: sum.splits)

lemma retrieve_cases:
  assumes "retrieve h ref w = (w', res)"
  obtains "w' = w" "isl res"
  | b f where "w_events w' = w_events w @ [EFetch ref f]" "w_fs w' = w_fs w"
      "Resolve (h_getenv h) (h_cfg h) ref = Inr b" "Get b ref = Inr f"
      "res = (case h_perform h b ref f of Inl e \<Rightarrow> Inl (BackendFailed e) | Inr out \<Rightarrow> Inr (backend_value f out))"
      "w_mem w' = (case res of Inl _ \<Rightarrow> w_mem w | Inr v \<Rightarrow> v # w_mem w)"
proof (cases "Resolve (h_getenv h) (h_cfg h) ref")
  case (Inl e)
  then show ?thesis using assms that(1) by (auto simp: retrieve_def)
next
  case (Inr b)
  then have "backend_Get h b ref w = (w', res)" using assms by (simp add: retrieve_def)
  then show ?thesis using that Inr by (cases rule: backend_Get_cases) auto
qed

text \<open>With the exchanges of \<open>Backends\<close> for \<open>h_perform\<close>, \<open>backend_Get\<close> gives what OpenBao's \<open>Get\<close> gives.\<close>

lemma backend_Get_openbao:
  assumes "h_perform h = perform L err_text output"
  shows "(case snd (backend_Get h (OpenBao ob) ref w) of
      Inl _ \<Rightarrow> isl (snd (openbao_Get L err_text output ob ref))
    | Inr v \<Rightarrow> snd (openbao_Get L err_text output ob ref) = Inr v)"
proof (cases "cut (sr_Path ref) slash")
  case None
  then show ?thesis by (simp add: backend_Get_def Get_def openbao_Get_def)
next
  case (Some mp)
  obtain mount path where mp: "mp = (mount, path)" by (cases mp)
  have approle: "Get (OpenBao ob) ref = Inr (HTTPGet (apiPath [mount, ''data'', path]))" if "path \<noteq> []" "ob_approle ob"
    using Some mp that by (simp add: Get_def)
  show ?thesis
  proof (cases "path \<noteq> [] \<and> ob_approle ob")
    case True
    then show ?thesis using approle assms
      by (simp add: backend_Get_def perform_def backend_value_def emit_def split: sum.splits)
  next
    case False
    then show ?thesis using Some mp assms
      by (auto simp: backend_Get_def Get_def openbao_Get_def perform_def backend_value_def emit_def getAmbient_def
        split: sum.splits)
  qed
qed

subsection \<open>The discipline of the two loops\<close>

text \<open>
  A check that asks the policy once and a fetch that only fetches: then no fetch happens
  before every name has been granted.
\<close>

text \<open>A decision that allowed a reference, and the fetch of one.\<close>

definition allows_ref :: "secret_ref \<Rightarrow> event \<Rightarrow> bool" where
  "allows_ref ref e \<longleftrightarrow> (\<exists>r. e = EAuth r True \<and> q_Ref r = sr_Raw ref)"

definition fetches_ref :: "secret_ref \<Rightarrow> event \<Rightarrow> bool" where
  "fetches_ref ref e \<longleftrightarrow> (\<exists>f. e = EFetch ref f)"

locale gated_loops =
  fixes check :: "string \<Rightarrow> world \<Rightarrow> world \<times> ('e + secret_ref)"
    and get :: "secret_ref \<Rightarrow> world \<Rightarrow> world \<times> ('e + string)"
    and granted :: "string \<Rightarrow> event \<Rightarrow> bool"
  assumes check_refused:
      "check n w = (w', Inl e) \<Longrightarrow> \<exists>as. w_events w' = w_events w @ as \<and> (\<forall>a\<in>set as. \<exists>r ok. a = EAuth r ok)"
    and check_passed:
      "check n w = (w', Inr r) \<Longrightarrow> \<exists>a. w_events w' = w_events w @ [a] \<and> granted n a \<and> allows_ref r a"
    and check_files: "check n w = (w', cres) \<Longrightarrow> w_fs w' = w_fs w"
    and get_fetches:
      "get r w = (w', res) \<Longrightarrow>
         w_fs w' = w_fs w \<and> (\<exists>fs. w_events w' = w_events w @ fs \<and> list_all (fetches_ref r) fs)"
begin

lemma each_check:
  "each (\<lambda>_ w. w) check names w = (w', res) \<Longrightarrow>
   w_fs w' = w_fs w \<and>
   (\<exists>as. w_events w' = w_events w @ as \<and> (\<forall>a\<in>set as. \<exists>r ok. a = EAuth r ok) \<and>
      (case res of
         Inl _ \<Rightarrow> True
       | Inr m \<Rightarrow> map fst m = names \<and> list_all2 granted names as \<and> (\<forall>p\<in>set m. list_ex (allows_ref (snd p)) as)))"
proof (induction names arbitrary: w w' res)
  case (Cons n ns)
  obtain w1 r1 where c: "check n w = (w1, r1)" by (metis surj_pair)
  note f = check_files[OF c]
  show ?case
  proof (cases r1)
    case (Inl e)
    then have "w' = w1" "isl res" using c Cons.prems by auto
    then show ?thesis using check_refused[of n w w1 e] c Inl f by (auto split: sum.splits)
  next
    case (Inr ref)
    then obtain a where a: "w_events w1 = w_events w @ [a]" "granted n a" "allows_ref ref a"
      using check_passed[of n w w1 ref] c by auto
    obtain w2 r2 where e: "each (\<lambda>_ w. w) check ns w1 = (w2, r2)" by (metis surj_pair)
    have w: "w' = w2" "res = (case r2 of Inl e \<Rightarrow> Inl e | Inr m \<Rightarrow> Inr ((n, ref) # m))"
      using e c Inr Cons.prems by (auto split: sum.splits)
    obtain as where as: "w_events w2 = w_events w1 @ as" "\<forall>a\<in>set as. \<exists>r ok. a = EAuth r ok" "w_fs w2 = w_fs w1"
        "case r2 of Inl _ \<Rightarrow> True
         | Inr m \<Rightarrow> map fst m = ns \<and> list_all2 granted ns as \<and> (\<forall>p\<in>set m. list_ex (allows_ref (snd p)) as)"
      using Cons.IH[OF e] by blast
    have "\<exists>r ok. a = EAuth r ok" using a(3) unfolding allows_ref_def by blast
    then show ?thesis
      using as a w f by (intro conjI exI[of _ "a # as"]) (auto split: sum.splits)
  qed
qed simp

lemma each_get:
  "each zero_buf (\<lambda>n. get (g n)) names w = (w', res) \<Longrightarrow>
   w_fs w' = w_fs w \<and>
   (\<exists>fs. w_events w' = w_events w @ fs \<and> list_all (\<lambda>e. \<exists>n\<in>set names. fetches_ref (g n) e) fs)"
proof (induction names arbitrary: w w' res)
  case (Cons n ns)
  obtain w1 r1 where c: "get (g n) w = (w1, r1)" by (metis surj_pair)
  obtain fs where fs: "w_events w1 = w_events w @ fs" "list_all (fetches_ref (g n)) fs" "w_fs w1 = w_fs w"
    using get_fetches[OF c] by blast
  show ?case
  proof (cases r1)
    case (Inl e)
    then show ?thesis using c Cons.prems fs by (auto simp: list_all_iff)
  next
    case (Inr v)
    obtain w2 r2 where e: "each zero_buf (\<lambda>n. get (g n)) ns w1 = (w2, r2)" by (metis surj_pair)
    then have w: "w_events w' = w_events w2" "w_fs w' = w_fs w2" using c Inr Cons.prems by (auto split: sum.splits)
    obtain gs where gs: "w_events w2 = w_events w1 @ gs" "list_all (\<lambda>e. \<exists>n\<in>set ns. fetches_ref (g n) e) gs" "w_fs w2 = w_fs w1"
      using Cons.IH[OF e] by blast
    have "list_all (\<lambda>e. \<exists>m\<in>set (n # ns). fetches_ref (g m) e) (fs @ gs)"
      using fs(2) gs(2) unfolding list_all_iff set_append by (metis Un_iff list.set_intros)
    then show ?thesis using fs(1,3) gs(1,3) w by (intro conjI exI[of _ "fs @ gs"]) simp_all
  qed
qed simp

lemma gate:
  assumes "both_loops check get names w = (w', res)"
  shows "w_fs w' = w_fs w \<and>
    (\<exists>as fs. w_events w' = w_events w @ as @ fs \<and> (\<forall>a\<in>set as. \<exists>r ok. a = EAuth r ok) \<and>
       (\<forall>e\<in>set fs. \<exists>ref. fetches_ref ref e \<and> list_ex (allows_ref ref) as) \<and>
       (fs \<noteq> [] \<or> \<not> isl res \<longrightarrow> list_all2 granted names as))"
proof -
  obtain w1 r1 where c: "each (\<lambda>_ w. w) check names w = (w1, r1)" by (metis surj_pair)
  obtain as where as: "w_events w1 = w_events w @ as" "\<forall>a\<in>set as. \<exists>r ok. a = EAuth r ok" "w_fs w1 = w_fs w"
      "case r1 of Inl _ \<Rightarrow> True
       | Inr m \<Rightarrow> map fst m = names \<and> list_all2 granted names as \<and> (\<forall>p\<in>set m. list_ex (allows_ref (snd p)) as)"
    using each_check[OF c] by blast
  show ?thesis
  proof (cases r1)
    case (Inl e)
    then have "w' = w1" "isl res" using assms c by (auto simp: both_loops_def)
    then show ?thesis using as by (intro conjI exI[of _ as] exI[of _ "[]"]) auto
  next
    case (Inr parsed)
    then have m: "map fst parsed = names" "\<forall>p\<in>set parsed. list_ex (allows_ref (snd p)) as" "list_all2 granted names as"
      using as(4) by simp_all
    have p: "list_ex (allows_ref (the (map_of parsed n))) as" if n: "n \<in> set names" for n
    proof -
      have "n \<in> fst ` set parsed" using n m(1) by (metis list.set_map)
      then obtain ref where "map_of parsed n = Some ref" using weak_map_of_SomeI by fastforce
      then show ?thesis using m(2) map_of_SomeD by fastforce
    qed
    have "each zero_buf (\<lambda>n. get (the (map_of parsed n))) names w1 = (w', res)"
      using assms c Inr by (simp add: both_loops_def)
    from each_get[OF this] obtain fs where fs: "w_events w' = w_events w1 @ fs" "w_fs w' = w_fs w1"
      "list_all (\<lambda>e. \<exists>n\<in>set names. fetches_ref (the (map_of parsed n)) e) fs" by blast
    then have "\<forall>e\<in>set fs. \<exists>ref. fetches_ref ref e \<and> list_ex (allows_ref ref) as"
      using p unfolding list_all_iff by blast
    then show ?thesis using as(1-3) fs(1,2) m(3) by (intro conjI exI[of _ as] exI[of _ fs]) simp_all
  qed
qed

end

text \<open>What the checks of \<open>exec\<close> and of the mount grant.\<close>

definition exec_granted :: "'a host \<Rightarrow> profile \<Rightarrow> string \<Rightarrow> string \<Rightarrow> event \<Rightarrow> bool" where
  "exec_granted h prof identity name e \<longleftrightarrow>
     (\<exists>ref r. ParseRef (the (map_of (pf_Secrets prof) name)) = Inr ref \<and> e = EAuth r True \<and> q_Ref r = sr_Raw ref \<and>
        q_Identity r = identity \<and> q_Mode r = ModeExec \<and> q_Agent r = agentContext (h_getenv h) \<and> permitted h r)"

definition mount_granted :: "'a host \<Rightarrow> cred_file \<Rightarrow> profile \<Rightarrow> string \<Rightarrow> string \<Rightarrow> event \<Rightarrow> bool" where
  "mount_granted h c prof caller name e \<longleftrightarrow>
     (\<exists>ref r. ParseRef (the (map_of (pf_Secrets prof) name)) = Inr ref \<and> e = EAuth r True \<and> q_Ref r = sr_Raw ref \<and>
        q_Identity r = cf_identity c \<and> q_Mode r = ModeMount \<and> q_Agent r = cf_agent c \<and> q_Caller r = caller \<and>
        permitted h r)"

lemma retrieve_fetches:
  assumes "retrieve h ref w = (w', res)"
  shows "w_fs w' = w_fs w \<and> (\<exists>fs. w_events w' = w_events w @ fs \<and> list_all (fetches_ref ref) fs)"
  using assms by (cases rule: retrieve_cases) (auto simp: fetches_ref_def)

interpretation ex: gated_loops "exec_check h profileName prof identity" "exec_get h" "exec_granted h prof identity"
  for h :: "'a host" and profileName prof identity
proof unfold_locales
  fix n w w' e
  assume "exec_check h profileName prof identity n w = (w', Inl e)"
  then show "\<exists>as. w_events w' = w_events w @ as \<and> (\<forall>a\<in>set as. \<exists>r ok. a = EAuth r ok)"
    by (auto simp: exec_check_def split: sum.splits prod.splits option.splits elim!: authorize_cases)
next
  fix n w w' r
  assume "exec_check h profileName prof identity n w = (w', Inr r)"
  then show "\<exists>a. w_events w' = w_events w @ [a] \<and> exec_granted h prof identity n a \<and> allows_ref r a"
    by (auto simp: exec_check_def exec_granted_def allows_ref_def split: sum.splits prod.splits option.splits elim!: authorize_cases)
next
  fix n w w' and res :: "cmd_error + secret_ref"
  assume "exec_check h profileName prof identity n w = (w', res)"
  then show "w_fs w' = w_fs w"
    by (auto simp: exec_check_def split: sum.splits prod.splits option.splits elim!: authorize_cases)
next
  fix r w w' and res :: "cmd_error + string"
  assume "exec_get h r w = (w', res)"
  then obtain res' where "retrieve h r w = (w', res')" by (auto simp: exec_get_def split: prod.splits sum.splits)
  then show "w_fs w' = w_fs w \<and> (\<exists>fs. w_events w' = w_events w @ fs \<and> list_all (fetches_ref r) fs)"
    by (rule retrieve_fetches)
qed

interpretation mnt: gated_loops "mount_check h c prof now caller" "mount_get h" "mount_granted h c prof caller"
  for h :: "'a host" and c prof now caller
proof unfold_locales
  fix n w w' e
  assume "mount_check h c prof now caller n w = (w', Inl e)"
  then show "\<exists>as. w_events w' = w_events w @ as \<and> (\<forall>a\<in>set as. \<exists>r ok. a = EAuth r ok)"
    by (auto simp: mount_check_def split: sum.splits prod.splits option.splits dest!: policy_authorize_cases)
next
  fix n w w' r
  assume "mount_check h c prof now caller n w = (w', Inr r)"
  then show "\<exists>a. w_events w' = w_events w @ [a] \<and> mount_granted h c prof caller n a \<and> allows_ref r a"
    by (auto simp: mount_check_def mount_granted_def allows_ref_def split: sum.splits prod.splits option.splits
        dest!: policy_authorize_cases)
next
  fix n w w' and res :: "errno + secret_ref"
  assume "mount_check h c prof now caller n w = (w', res)"
  then show "w_fs w' = w_fs w"
    by (auto simp: mount_check_def split: sum.splits prod.splits option.splits dest!: policy_authorize_cases)
next
  fix r w w' and res :: "errno + string"
  assume "mount_get h r w = (w', res)"
  then obtain res' where "retrieve h r w = (w', res')" by (auto simp: mount_get_def split: prod.splits sum.splits)
  then show "w_fs w' = w_fs w \<and> (\<exists>fs. w_events w' = w_events w @ fs \<and> list_all (fetches_ref r) fs)"
    by (rule retrieve_fetches)
qed


subsection \<open>The stages of \<open>exec\<close>\<close>

definition is_auth :: "event \<Rightarrow> bool" where
  "is_auth e \<longleftrightarrow> (\<exists>r ok. e = EAuth r ok)"

definition is_fetch :: "event \<Rightarrow> bool" where
  "is_fetch e \<longleftrightarrow> (\<exists>ref f. e = EFetch ref f)"

lemma exec_stages:
  assumes "runExec h parse args w = (w', res)"
  obtains (early) "w' = w" "res \<noteq> None"
  | (loops) pre cmd fl prof w1 r1 where
      "splitAtDashDash args = Inr (pre, cmd)" "parse pre = Inr fl" "h_profile h (hd (xf_args fl)) = Inr prof"
      "both_loops (exec_check h (hd (xf_args fl)) prof (resolveIdentity (h_getenv h) (xf_as fl))) (exec_get h)
         (sortedKeys (pf_Secrets prof)) w = (w1, r1)"
      "(w' = w1 \<and> isl r1 \<and> res \<noteq> None) \<or>
       (\<exists>secrets. r1 = Inr secrets \<and> exec_rendered h prof cmd secrets w1 = (w', res))"
proof (cases "splitAtDashDash args")
  case (Inl e)
  then show thesis using assms early by (auto simp: runExec_def)
next
  case (Inr pc)
  obtain pre cmd where s: "splitAtDashDash args = Inr (pre, cmd)" using Inr by (cases pc) auto
  show thesis
  proof (cases "parse pre")
    case (Inl e)
    then show thesis using assms early s by (auto simp: runExec_def)
  next
    case (Inr fl)
    show thesis
    proof (cases "length (xf_args fl) \<noteq> 1 \<or> isl (h_profile h (hd (xf_args fl)))")
      case True
      then show thesis using assms early s Inr by (auto simp: runExec_def Let_def split: if_splits sum.splits)
    next
      case False
      then obtain prof where p: "h_profile h (hd (xf_args fl)) = Inr prof" "length (xf_args fl) = 1"
        by (cases "h_profile h (hd (xf_args fl))") auto
      obtain w1 r1 where b: "both_loops (exec_check h (hd (xf_args fl)) prof (resolveIdentity (h_getenv h) (xf_as fl)))
          (exec_get h) (sortedKeys (pf_Secrets prof)) w = (w1, r1)" by (metis surj_pair)
      have "(w' = w1 \<and> isl r1 \<and> res \<noteq> None) \<or>
          (\<exists>secrets. r1 = Inr secrets \<and> exec_rendered h prof cmd secrets w1 = (w', res))"
        using assms s Inr p b by (auto simp: runExec_def Let_def split: sum.splits)
      then show thesis using loops[OF s Inr p(1) b] by blast
    qed
  qed
qed

lemma exec_rendered_cases:
  assumes "exec_rendered h prof cmd secrets w = (w', res)"
  obtains (unrendered) "w' = zero_secrets secrets w" "res \<noteq> None" "\<forall>sig. res \<noteq> Some (Interrupted sig)"
  | (delivered) body w1 where "Render (h_engine h) prof secrets = Inr body"
      "deliver h (pf_Inject prof) cmd body (hold body w) = (w1, res)"
      "w_events w' = w_events w1" "w_fs w' = w_fs w1"
      "(\<forall>sig. res \<noteq> Some (Interrupted sig)) \<longrightarrow> w' = zero_secrets secrets (zero_buf body w1)"
proof (cases "Render (h_engine h) prof secrets")
  case (Inl e)
  then show thesis using assms by (intro unrendered) (auto simp: exec_rendered_def)
next
  case (Inr body)
  obtain w1 r1 where d: "deliver h (pf_Inject prof) cmd body (hold body w) = (w1, r1)" by (metis surj_pair)
  then show thesis
    using assms Inr by (intro delivered[OF Inr, of w1]) (auto simp: exec_rendered_def split: option.splits cmd_error.splits)
qed

lemma wipe_events: "w_events (wipe h dir w) = w_events w @ [EWipe dir]"
  by (simp add: wipe_def emit_def)

lemma run_child_events:
  "run_child h ij cmd p dir w = (w', res) \<Longrightarrow> \<exists>a e. w_events w' = w_events w @ [EChild a e, EWipe dir]"
  by (auto simp: run_child_def Let_def wipe_events emit_def split: prod.splits)

lemma newDir_events: "newDir h w = (w', res) \<Longrightarrow> w_events w' = w_events w"
  by (auto simp: newDir_def Let_def split: option.splits if_splits)

lemma finite_upd: "finite (dom f) \<Longrightarrow> finite (dom (f(x := y)))"
  by (cases y) (auto simp: dom_fun_upd)

lemma WriteFile_finite: "WriteFile pa op wr cl dir name b st = (st', res) \<Longrightarrow> finite (dom st) \<Longrightarrow> finite (dom st')"
  by (auto simp: WriteFile_def Let_def split: if_splits intro!: finite_upd)

lemma newDir_finite: "newDir h w = (w', res) \<Longrightarrow> finite (dom (w_fs w)) \<Longrightarrow> finite (dom (w_fs w'))"
  by (auto simp: newDir_def Let_def split: if_splits option.splits intro!: finite_upd)

lemma deliver_events:
  assumes "deliver h ij cmd body w = (w', res)"
  obtains (none) "w' = w" "res \<noteq> None"
  | (unwritten) dir where "w_events w' = w_events w @ [EWipe dir]" "res \<noteq> None"
  | (written) dir p a e w1 where "w_events w' = w_events w @ [ECred p body, EChild a e, EWipe dir]"
      "contains_path dir p" "run_child h ij cmd p dir w1 = (w', res)"
      "finite (dom (w_fs w)) \<longrightarrow> finite (dom (w_fs w1))"
proof -
  obtain w1 r1 where n: "newDir h w = (w1, r1)" by (metis surj_pair)
  show thesis
  proof (cases r1)
    case (Inl e)
    then have "w1 = w" using n by (auto simp: newDir_def Let_def split: option.splits if_splits)
    then show thesis using assms n Inl none by (auto simp: deliver_def)
  next
    case (Inr dir)
    obtain pa op wr cl where c: "h_file_calls h = (pa, op, wr, cl)" by (metis surj_pair)
    obtain fs r2 where f: "WriteFile pa op wr cl dir (FileName ij) body (w_fs w1) = (fs, r2)" by (metis surj_pair)
    show thesis
    proof (cases r2)
      case (Inl e)
      then show thesis
        using assms n Inr c f newDir_events[OF n] by (intro unwritten[of dir]) (auto simp: deliver_def wipe_events)
    next
      case (Inr p)
      then have d: "run_child h ij cmd p dir (emit (ECred p body) (w1\<lparr>w_fs := fs\<rparr>)) = (w', res)"
        using assms n \<open>r1 = Inr dir\<close> c f by (simp add: deliver_def)
      have "contains_path dir p" using f Inr by (auto simp: WriteFile_def Let_def split: if_splits)
      moreover have "finite (dom (w_fs w)) \<longrightarrow> finite (dom fs)"
        using newDir_finite[OF n] WriteFile_finite[OF f] by blast
      moreover obtain a e where "w_events w' = w_events w @ [ECred p body, EChild a e, EWipe dir]"
        using run_child_events[OF d] newDir_events[OF n] by (auto simp: emit_def)
      ultimately show thesis using d by (intro written) (auto simp: emit_def)
    qed
  qed
qed

lemma zeroFile_new: "zeroFile st p q \<noteq> None \<Longrightarrow> st q \<noteq> None"
  by (auto simp: zeroFile_def split: option.splits enode.splits if_splits)

lemma zero_all_new:
  "fold (\<lambda>p s. if s p = Some EDir then s else zeroFile s p) es st q \<noteq> None \<Longrightarrow> st q \<noteq> None"
proof (induction es arbitrary: st)
  case (Cons e es)
  then have "(if st e = Some EDir then st else zeroFile st e) q \<noteq> None" by simp
  then show ?case using zeroFile_new by (metis (full_types))
qed simp

text \<open>What \<open>WalkDir\<close> promises: it visits everything below the directory.\<close>

definition walks :: "'a host \<Rightarrow> bool" where
  "walks h \<longleftrightarrow> (\<forall>st d p. finite (dom st) \<and> st p \<noteq> None \<and> contains_path d p \<longrightarrow> p \<in> set (h_walk h st d))"

definition child_finite :: "'a host \<Rightarrow> bool" where
  "child_finite h \<longleftrightarrow> (\<forall>args environ st. finite (dom st) \<longrightarrow> finite (dom (fst (h_child h args environ st))))"

lemma wipe_empties:
  assumes "walks h" "finite (dom (w_fs w))" "contains_path dir q"
  shows "w_fs (wipe h dir w) q = None"
proof (cases "w_fs w q = None")
  case True
  then show ?thesis using zero_all_new by (fastforce simp: wipe_def emit_def Cleanup_def Let_def)
next
  case False
  then have "q \<in> set (h_walk h (w_fs w) dir)" using assms unfolding walks_def by blast
  then show ?thesis by (simp add: wipe_def emit_def Cleanup_def Let_def)
qed

lemma run_child_wipes:
  assumes "run_child h ij cmd p dir w = (w', res)" "walks h" "child_finite h" "finite (dom (w_fs w))"
    "contains_path dir q"
  shows "w_fs w' q = None"
proof -
  let ?a = "substituteCred cmd p dir" and ?e = "child_env h ij p dir"
  obtain fs r where c: "h_child h ?a ?e (w_fs w) = (fs, r)" by (metis surj_pair)
  then have "finite (dom fs)" using assms(3,4) unfolding child_finite_def by (metis fst_conv)
  moreover have "w' = wipe h dir ((emit (EChild ?a ?e) w)\<lparr>w_fs := fs\<rparr>)"
    using assms(1) c by (simp add: run_child_def Let_def emit_def)
  ultimately show ?thesis using wipe_empties[OF assms(2) _ assms(5)] by simp
qed


subsection \<open>Example host\<close>

definition demo_profile :: profile where
  "demo_profile =
     \<lparr>pf_Description = [], pf_Secrets = [(''token'', ''op://v/gitea/token'')], pf_Template = ''{{.token}}'',
      pf_Inject = \<lparr>inj_Env = ''TOKEN_FILE'', inj_EnvDir = [], inj_Filename = []\<rparr>\<rparr>"

definition demo_host :: "getenv \<Rightarrow> string \<Rightarrow> unit host" where
  "demo_host getenv secret =
     \<lparr>h_getenv = getenv,
      h_env = \<lparr>env_PARZIVAL_CONFIG_HOME = ''/etc/p'', env_XDG_CONFIG_HOME = [], env_XDG_STATE_HOME = [],
               env_XDG_RUNTIME_DIR = ''/run/u'', env_home = ''/home/me''\<rparr>,
      h_load = (\<lambda>_. Inr (Some \<lparr>p_Schema = 1, p_Rules = [allow_rule [''op://v/gitea/*''] [] []]\<rparr>)),
      h_now = (\<lambda>_. example_day), h_cfg = no_config, h_perform = (\<lambda>_ _ _. Inr secret),
      h_profile = (\<lambda>_. Inr demo_profile),
      h_engine = \<lparr>te_Parse = (\<lambda>_. Inr ()), te_Execute = (\<lambda>_ m. Inr (concat (map snd m)))\<rparr>,
      h_shm = False, h_uid = 1000, h_mkbase = True, h_random = Some ''0a'', h_mkdir = True,
      h_file_calls = (True, True, True, True), h_walk = (\<lambda>_ _. []), h_child = (\<lambda>_ _ st. (st, ChildExit 7)),
      h_environ = [''HOME=/home/me''], h_stdout_regular = Some False, h_write = (\<lambda>_ _. True)\<rparr>"

definition no_env :: getenv where "no_env = (\<lambda>_. [])"

definition start_world :: world where
  "start_world = \<lparr>w_log = Some [], w_loads = 0, w_fs = (\<lambda>_. None), w_events = [], w_mem = []\<rparr>"

subsection \<open>Properties\<close>

text \<open>What \<open>exec\<close> fetches, one reference at a time.\<close>

lemma exec_fetches_granted:
  assumes "runExec h parse args w = (w', res)"
  shows "\<exists>as rest. w_events w' = w_events w @ as @ rest \<and> list_all is_auth as \<and>
    (\<forall>ref f. EFetch ref f \<in> set rest \<longrightarrow>
      (\<exists>r. EAuth r True \<in> set as \<and> q_Ref r = sr_Raw ref \<and> q_Mode r = ModeExec \<and> permitted h r))"
  using assms
proof (cases rule: exec_stages)
  case early
  then show ?thesis by (intro exI[of _ "[]"]) simp
next
  case (loops pre cmd fl prof w1 r1)
  from ex.gate[OF loops(4)] obtain as fs where g: "w_events w1 = w_events w @ as @ fs"
    "\<forall>a\<in>set as. \<exists>r ok. a = EAuth r ok" "\<forall>e\<in>set fs. \<exists>ref. fetches_ref ref e \<and> list_ex (allows_ref ref) as"
    "fs \<noteq> [] \<or> \<not> isl r1 \<longrightarrow>
       list_all2 (exec_granted h prof (resolveIdentity (h_getenv h) (xf_as fl))) (sortedKeys (pf_Secrets prof)) as"
    by blast
  have k: "\<exists>r. EAuth r True \<in> set as \<and> q_Ref r = sr_Raw ref \<and> q_Mode r = ModeExec \<and> permitted h r"
    if e: "EFetch ref f \<in> set fs" for ref f
  proof -
    obtain r where r: "EAuth r True \<in> set as" "q_Ref r = sr_Raw ref"
      using bspec[OF g(3) e] by (auto simp: list_ex_iff allows_ref_def fetches_ref_def)
    have "\<exists>n. exec_granted h prof (resolveIdentity (h_getenv h) (xf_as fl)) n (EAuth r True)"
      using g(4) e r(1) by (metis empty_iff empty_set in_set_conv_nth list_all2_conv_all_nth)
    then show ?thesis using r by (auto simp: exec_granted_def)
  qed
  have "\<exists>ds. w_events w' = w_events w1 @ ds \<and> (\<forall>ref f. EFetch ref f \<notin> set ds)"
    using loops(5)
  proof
    assume "\<exists>secrets. r1 = Inr secrets \<and> exec_rendered h prof cmd secrets w1 = (w', res)"
    then obtain secrets where "exec_rendered h prof cmd secrets w1 = (w', res)" by blast
    then show ?thesis
    proof (cases rule: exec_rendered_cases)
      case (delivered body w2)
      from delivered(2,3) show ?thesis by (cases rule: deliver_events) auto
    qed simp
  qed simp
  then obtain ds where ds: "w_events w' = w_events w1 @ ds" "\<forall>ref f. EFetch ref f \<notin> set ds" by blast
  show ?thesis
    using g(1,2) k ds by (intro exI[of _ as] exI[of _ "fs @ ds"]) (auto simp: list_all_iff is_auth_def)
qed

text \<open>
  (C2) \<open>exec\<close> is all or nothing: whatever it does comes after a run of policy decisions,
  and if it does anything more, then those decisions are one permission per secret of the
  profile, in the sorted order of their names, each given by a policy that was loaded, for the
  identity, the mode \<open>exec\<close> and the detected agent. So a refused secret leaves every other
  secret in its store and no file, child or directory behind.
\<close>

theorem exec_authorizes_all_first:
  assumes "runExec h parse args w = (w', res)"
  shows "\<exists>as rest. w_events w' = w_events w @ as @ rest \<and> list_all is_auth as \<and> \<not> list_ex is_auth rest \<and>
    (\<forall>ref f. EFetch ref f \<in> set rest \<longrightarrow> list_ex (allows_ref ref) as) \<and>
    (rest \<noteq> [] \<or> res = None \<longrightarrow>
      (\<exists>pre cmd fl prof. splitAtDashDash args = Inr (pre, cmd) \<and> parse pre = Inr fl \<and>
         h_profile h (hd (xf_args fl)) = Inr prof \<and>
         list_all2 (exec_granted h prof (resolveIdentity (h_getenv h) (xf_as fl))) (sortedKeys (pf_Secrets prof)) as))"
  using assms
proof (cases rule: exec_stages)
  case early
  then show ?thesis by (intro exI[of _ "[]"]) auto
next
  case (loops pre cmd fl prof w1 r1)
  from ex.gate[OF loops(4)] obtain as fs where g: "w_events w1 = w_events w @ as @ fs"
    "\<forall>a\<in>set as. \<exists>r ok. a = EAuth r ok" "\<forall>e\<in>set fs. \<exists>ref. fetches_ref ref e \<and> list_ex (allows_ref ref) as"
    "fs \<noteq> [] \<or> \<not> isl r1 \<longrightarrow>
       list_all2 (exec_granted h prof (resolveIdentity (h_getenv h) (xf_as fl))) (sortedKeys (pf_Secrets prof)) as"
    by blast
  have k: "list_all is_auth as" "\<not> list_ex is_auth fs" "\<And>ref f. EFetch ref f \<in> set fs \<Longrightarrow> list_ex (allows_ref ref) as"
    using g(2,3) by (auto simp: list_all_iff list_ex_iff is_auth_def fetches_ref_def)
  from loops(5) show ?thesis
  proof
    assume "w' = w1 \<and> isl r1 \<and> res \<noteq> None"
    then show ?thesis using g k loops(1-3) by (intro exI[of _ as] exI[of _ fs]) auto
  next
    assume "\<exists>secrets. r1 = Inr secrets \<and> exec_rendered h prof cmd secrets w1 = (w', res)"
    then obtain secrets where d: "\<not> isl r1" "exec_rendered h prof cmd secrets w1 = (w', res)" by auto
    from d(2) obtain ds where ds: "w_events w' = w_events w1 @ ds" "\<not> list_ex is_auth ds" "\<And>ref f. EFetch ref f \<notin> set ds"
    proof (cases rule: exec_rendered_cases)
      case (delivered body w2)
      from delivered(2,3) that show thesis by (cases rule: deliver_events) (auto simp: is_auth_def)
    qed simp
    then show ?thesis using g k d loops(1-3) by (intro exI[of _ as] exI[of _ "fs @ ds"]) auto
  qed
qed

definition exec_parse :: "string list \<Rightarrow> string + exec_flags" where
  "exec_parse pre = Inr \<lparr>xf_as = ''ci'', xf_args = pre\<rparr>"

theorem exec_authorizes_all_first_witness:
  "\<exists>as rest. w_events (fst (runExec (demo_host no_env ''s3'') exec_parse [''tea'', ''--'', ''tea'', ''login''] start_world)) =
     as @ rest \<and> list_all is_auth as \<and> \<not> list_ex is_auth rest"
  using exec_authorizes_all_first[OF prod.collapse[symmetric],
      of "demo_host no_env ''s3''" exec_parse "[''tea'', ''--'', ''tea'', ''login'']" start_world]
  by (auto simp: start_world_def)

text \<open>
  The mount keeps the same discipline on every open: no secret of a profile is fetched
  before each has been allowed for the mode \<open>mount\<close>, with the identity and the agent of the mount
  and the opening process recorded; an open that succeeds gives the rendered template; an open
  for writing does nothing; and an open leaves the files as they are.
\<close>

theorem mount_open_gated:
  assumes "Open h readlink fc c flags w = (w', res)"
  shows "w_fs w' = w_fs w \<and> (flags AND 3 \<noteq> 0 \<longrightarrow> w' = w \<and> res = Inl EACCES) \<and>
    (\<exists>as fs. w_events w' = w_events w @ as @ fs \<and> list_all is_auth as \<and> list_all is_fetch fs \<and>
      (\<forall>ref f. EFetch ref f \<in> set fs \<longrightarrow> list_ex (allows_ref ref) as) \<and>
      (fs \<noteq> [] \<or> \<not> isl res \<longrightarrow>
        (\<exists>prof. h_profile h (cf_profileName c) = Inr prof \<and>
           list_all2 (mount_granted h c prof (callerString readlink fc)) (sortedKeys (pf_Secrets prof)) as)))"
proof (cases "flags AND 3 \<noteq> 0 \<or> isl (h_profile h (cf_profileName c))")
  case True
  moreover have o: "O_WRONLY OR O_RDWR = 3" by (simp add: O_WRONLY_def O_RDWR_def)
  ultimately have "w' = w" "isl res" "flags AND 3 \<noteq> 0 \<longrightarrow> res = Inl EACCES"
    using assms by (auto simp: Open_def materialize_def o split: if_splits sum.splits)
  then show ?thesis by simp
next
  case False
  moreover have o: "O_WRONLY OR O_RDWR = 3" by (simp add: O_WRONLY_def O_RDWR_def)
  ultimately obtain prof where p: "flags AND 3 = 0" "h_profile h (cf_profileName c) = Inr prof"
    by (cases "h_profile h (cf_profileName c)") auto
  obtain w1 r1 where b: "both_loops (mount_check h c prof (h_now h (w_loads w)) (callerString readlink fc)) (mount_get h)
      (sortedKeys (pf_Secrets prof)) w = (w1, r1)" by (metis surj_pair)
  have m: "w_events w' = w_events w1" "w_fs w' = w_fs w1" "\<not> isl res \<longrightarrow> \<not> isl r1"
    using assms p b o by (auto simp: Open_def materialize_def split: sum.splits)
  from mnt.gate[OF b] obtain as fs where g: "w_fs w1 = w_fs w" "w_events w1 = w_events w @ as @ fs"
    "\<forall>a\<in>set as. \<exists>r ok. a = EAuth r ok" "\<forall>e\<in>set fs. \<exists>ref. fetches_ref ref e \<and> list_ex (allows_ref ref) as"
    "fs \<noteq> [] \<or> \<not> isl r1 \<longrightarrow>
       list_all2 (mount_granted h c prof (callerString readlink fc)) (sortedKeys (pf_Secrets prof)) as"
    by blast
  then have "list_all is_auth as" "list_all is_fetch fs" "\<forall>ref f. EFetch ref f \<in> set fs \<longrightarrow> list_ex (allows_ref ref) as"
    by (auto simp: list_all_iff is_auth_def is_fetch_def fetches_ref_def)
  then show ?thesis using g m p by auto
qed

definition demo_file :: cred_file where
  "demo_file = \<lparr>cf_profileName = ''tea'', cf_identity = ''ci'', cf_agent = []\<rparr>"

theorem mount_open_gated_witness:
  "w_fs (fst (Open (demo_host no_env ''s3'') (\<lambda>_. []) None demo_file 0 start_world)) = w_fs start_world \<and>
   snd (Open (demo_host no_env ''s3'') (\<lambda>_. []) None demo_file 0 start_world) = Inr ''s3''"
proof
  show "w_fs (fst (Open (demo_host no_env ''s3'') (\<lambda>_. []) None demo_file 0 start_world)) = w_fs start_world"
    using mount_open_gated[OF prod.collapse[symmetric], of "demo_host no_env ''s3''" "\<lambda>_. []" None demo_file 0 start_world]
    by blast
  have m: "snd (materialize (demo_host no_env ''s3'') (\<lambda>_. []) None demo_file start_world) = Inr ''s3''" by code_simp
  then show "snd (Open (demo_host no_env ''s3'') (\<lambda>_. []) None demo_file 0 start_world) = Inr ''s3''"
    by (simp add: Open_def)
qed



definition walking_host :: "unit host" where
  "walking_host =
     (demo_host no_env ''s3'')\<lparr>h_walk := (\<lambda>st d. sorted_list_of_set {p \<in> dom st. contains_path d p})\<rparr>"

lemma walking_host_ok: "walks walking_host" "child_finite walking_host"
  by (auto simp: walks_def child_finite_def walking_host_def demo_host_def)

text \<open>A run of \<open>exec\<close> does not look at \<open>h_walk\<close> before it wipes.\<close>

lemma steps_ignore_walk:
  "authorize (h\<lparr>h_walk := x\<rparr>) = authorize h" "retrieve (h\<lparr>h_walk := x\<rparr>) = retrieve h"
  by (simp_all add: fun_eq_iff step_defs cong: sum.case_cong)

lemma loops_ignore_walk:
  "exec_check (h\<lparr>h_walk := x\<rparr>) = exec_check h" "exec_get (h\<lparr>h_walk := x\<rparr>) = exec_get h"
  unfolding exec_check_def exec_get_def steps_ignore_walk by simp_all

lemma run_child_ignores_walk:
  "w_events (fst (run_child (h\<lparr>h_walk := x\<rparr>) ij cmd p dir w)) = w_events (fst (run_child h ij cmd p dir w))"
proof -
  have e: "child_env (h\<lparr>h_walk := x\<rparr>) ij p dir = child_env h ij p dir" by (simp add: child_env_def)
  obtain fs r where "h_child h (substituteCred cmd p dir) (child_env h ij p dir) (w_fs w) = (fs, r)"
    by (metis surj_pair)
  then show ?thesis by (simp add: run_child_def Let_def wipe_events e emit_def)
qed

lemma deliver_ignores_walk:
  "w_events (fst (deliver (h\<lparr>h_walk := x\<rparr>) ij cmd body w)) = w_events (fst (deliver h ij cmd body w))"
proof -
  obtain w1 r1 where n: "newDir h w = (w1, r1)" by (metis surj_pair)
  then have n': "newDir (h\<lparr>h_walk := x\<rparr>) w = (w1, r1)" by (simp add: newDir_def cong: option.case_cong if_cong)
  obtain pa op wr cl where c: "h_file_calls h = (pa, op, wr, cl)" by (metis surj_pair)
  show ?thesis
  proof (cases r1)
    case (Inr dir)
    obtain fs r2 where f: "WriteFile pa op wr cl dir (FileName ij) body (w_fs w1) = (fs, r2)" by (metis surj_pair)
    show ?thesis
      by (cases r2) (simp_all add: deliver_def n n' Inr c f wipe_events run_child_ignores_walk)
  qed (simp add: deliver_def n n')
qed

lemma exec_rendered_ignores_walk:
  "w_events (fst (exec_rendered (h\<lparr>h_walk := x\<rparr>) prof cmd secrets w)) = w_events (fst (exec_rendered h prof cmd secrets w))"
proof (cases "Render (h_engine h) prof secrets")
  case (Inr body)
  have t: "w_events (fst (case p of (w1, Some (Interrupted sig)) \<Rightarrow> (w1, Some (Interrupted sig))
      | (w1, res) \<Rightarrow> (zero_secrets secrets (zero_buf body w1), res))) = w_events (fst p)" for p :: "world \<times> cmd_error option"
    by (simp split: prod.splits option.splits cmd_error.splits)
  show ?thesis using Inr deliver_ignores_walk by (simp add: exec_rendered_def t)
qed (simp add: exec_rendered_def)

lemma runExec_ignores_walk:
  "w_events (fst (runExec (h\<lparr>h_walk := x\<rparr>) parse args w)) = w_events (fst (runExec h parse args w))"
  by (simp add: runExec_def loops_ignore_walk exec_rendered_ignores_walk Let_def split: sum.splits prod.splits)


text \<open>What a \<open>fetch\<close> that asked with \<open>r\<close> has done, by its outcome.\<close>

definition fetched :: "'a host \<Rightarrow> secret_ref \<Rightarrow> request \<Rightarrow> world \<Rightarrow> world \<Rightarrow> cmd_error + string \<Rightarrow> bool" where
  "fetched h ref r w w' x \<longleftrightarrow>
     (w_events w' = w_events w @ [EAuth r False] \<and> isl x \<or>
      permitted h r \<and>
        (w_events w' = w_events w @ [EAuth r True] \<and> isl x \<or>
         (\<exists>b f. Get b ref = Inr f \<and> w_events w' = w_events w @ [EAuth r True, EFetch ref f] \<and>
            (case x of Inl _ \<Rightarrow> True | Inr v \<Rightarrow> \<exists>out. h_perform h b ref f = Inr out \<and> v = backend_value f out))))"

lemma fetch_events:
  assumes "fetch h ref identity mode w = (w', x)"
  shows "\<exists>r. q_Ref r = sr_Raw ref \<and> q_Mode r = mode \<and> q_Identity r = identity \<and> fetched h ref r w w' x"
proof -
  obtain w1 e1 where a: "authorize h ref identity mode w = (w1, e1)" by (metis surj_pair)
  define r where "r = \<lparr>q_Ref = sr_Raw ref, q_Identity = identity, q_Mode = mode, q_Time = h_now h (w_loads w),
      q_Caller = [], q_Agent = agentContext (h_getenv h)\<rparr>"
  have r: "w_events w1 = w_events w @ [EAuth r (e1 = None)]" "e1 = None \<longrightarrow> permitted h r"
    using policy_authorize_cases[OF a[unfolded authorize_def, folded r_def]] by simp_all
  have "fetched h ref r w w' x"
  proof (cases e1)
    case (Some e)
    then show ?thesis using assms a r by (auto simp: fetch_def fetched_def)
  next
    case None
    obtain w2 y where t: "retrieve h ref w1 = (w2, y)" by (metis surj_pair)
    have x: "w' = w2" "x = (case y of Inl e \<Rightarrow> Inl (FetchFailed e) | Inr v \<Rightarrow> Inr v)"
      using assms a t None by (auto simp: fetch_def split: sum.splits)
    from t show ?thesis
    proof (cases rule: retrieve_cases)
      case 1
      then show ?thesis using x r None by (auto simp: fetched_def split: sum.splits)
    next
      case (2 b f)
      then show ?thesis using x r None by (auto simp: fetched_def emit_def split: sum.splits)
    qed
  qed
  then show ?thesis by (intro exI[of _ r]) (simp add: r_def)
qed




text \<open>Two answers of a backend that a probe reports alike.\<close>

definition same_verdict :: "fetch \<Rightarrow> string + string \<Rightarrow> string + string \<Rightarrow> bool" where
  "same_verdict f x y =
     (case (x, y) of
        (Inl _, Inl _) \<Rightarrow> True
      | (Inr a, Inr b) \<Rightarrow> (backend_value f a = []) = (backend_value f b = [])
      | _ \<Rightarrow> False)"

lemma probe_verdict_same:
  assumes "\<And>b f. same_verdict f (p1 b ref f) (p2 b ref f)"
  shows "probe_verdict (h\<lparr>h_perform := p1\<rparr>) ref mode reason w = probe_verdict (h\<lparr>h_perform := p2\<rparr>) ref mode reason w"
proof (cases "Resolve (h_getenv h) (h_cfg h) ref")
  case (Inr b)
  show ?thesis
  proof (cases "Get b ref")
    case (Inr f)
    then show ?thesis
      using assms[of f b] \<open>Resolve _ _ _ = Inr b\<close>
      by (cases "p1 b ref f"; cases "p2 b ref f") (simp_all add: probe_verdict_def backend_Get_def same_verdict_def)
  qed (simp add: probe_verdict_def backend_Get_def Inr)
qed (simp add: probe_verdict_def)


definition probe_token :: "string + probe_flags" where
  "probe_token = Inr \<lparr>pf_as = ''ci'', pf_args = [''op://v/gitea/token'']\<rparr>"


text \<open>The events of the last part of a probe.\<close>

lemma probe_verdict_events:
  assumes "probe_verdict h ref mode reason w = (w', res)"
  shows "\<exists>evs. w_events w' = w_events w @ evs \<and> list_all (\<lambda>e. fetches_ref ref e \<or> (\<exists>s. e = EPrint s)) evs \<and>
    exit_code res \<in> {0, 3, 5} \<and> (exit_code res \<in> {0, 3} \<longrightarrow> list_ex is_fetch evs)"
proof (cases "Resolve (h_getenv h) (h_cfg h) ref")
  case (Inl e)
  then show ?thesis
    using assms by (auto simp: probe_verdict_def printf_def emit_def exit_code_def probeExitError_def)
next
  case (Inr b)
  obtain w1 r1 where g: "backend_Get h b ref w = (w1, r1)" by (metis surj_pair)
  obtain fs where fs: "w_events w1 = w_events w @ fs" "list_all (fetches_ref ref) fs" "\<not> isl r1 \<longrightarrow> fs \<noteq> []"
    using g by (cases rule: backend_Get_cases) (auto simp: emit_def fetches_ref_def)
  then have x: "list_all (\<lambda>e. fetches_ref ref e \<or> (\<exists>s. e = EPrint s)) (fs @ [EPrint s])"
      "\<not> isl r1 \<longrightarrow> list_ex is_fetch (fs @ [EPrint s])" for s
    by (auto simp: list_all_iff list_ex_iff neq_Nil_conv is_fetch_def fetches_ref_def)
  have "\<exists>s. w_events w' = w_events w @ fs @ [EPrint s] \<and> exit_code res \<in> {0, 3, 5} \<and>
      (exit_code res \<in> {0, 3} \<longrightarrow> \<not> isl r1)"
    using assms Inr g fs(1)
    by (auto simp: probe_verdict_def printf_def emit_def exit_code_def probeExitError_def probeExitEmpty_def
        split: sum.splits if_splits)
  then show ?thesis using x by blast
qed

lemma prints_events:
  "w_events (fold (\<lambda>m. println (f m)) ms w) = w_events w @ map EPrint (map (\<lambda>m. f m @ newline) ms)"
  by (induction ms arbitrary: w) (simp_all add: println_def printf_def emit_def)

text \<open>The three shapes of a probe: only lines, a refusal on record, a permission and its fetch.\<close>

lemma probe_shapes:
  assumes "runProbe h parsed w = (w', res)"
  obtains (silent) ps where "w_events w' = w_events w @ map EPrint ps" "exit_code res \<in> {1, 4}"
  | (denied) ps r ok qs where "w_events w' = w_events w @ map EPrint ps @ EAuth r ok # map EPrint qs"
      "q_Caller r = ''probe''" "exit_code res = 4"
  | (allowed) ps r ref vs where "w_events w' = w_events w @ map EPrint ps @ EAuth r True # vs"
      "q_Caller r = ''probe''" "permitted h r" "q_Ref r = sr_Raw ref" "q_Mode r \<in> set probeModeOrder"
      "list_all (\<lambda>e. fetches_ref ref e \<or> (\<exists>s. e = EPrint s)) vs"
      "exit_code res \<in> {0, 3, 5}" "exit_code res \<in> {0, 3} \<longrightarrow> list_ex is_fetch vs"
proof (cases "\<exists>fl ref p. parsed = Inr fl \<and> length (pf_args fl) = 1 \<and> ParseRef (hd (pf_args fl)) = Inr ref \<and>
      h_load h (w_loads w) = Inr (Some p)")
  case False
  then have "w_events w' = w_events w \<and> exit_code res = 1 \<or>
      (\<exists>s1 s2 s3. w_events w' = w_events w @ map EPrint [s1, s2, s3] \<and> exit_code res = 4)"
    using assms by (auto simp: runProbe_def Let_def exit_code_def probeExitDenied_def step_defs
        split: sum.splits if_splits option.splits)
  then show thesis
  proof
    assume "w_events w' = w_events w \<and> exit_code res = 1"
    then show thesis by (intro silent[of "[]"]) simp_all
  next
    assume "\<exists>s1 s2 s3. w_events w' = w_events w @ map EPrint [s1, s2, s3] \<and> exit_code res = 4"
    then obtain s1 s2 s3 where "w_events w' = w_events w @ map EPrint [s1, s2, s3]" "exit_code res = 4" by blast
    then show thesis by (intro silent[of "[s1, s2, s3]"]) simp_all
  qed
next
  case True
  then obtain fl ref p where t: "parsed = Inr fl" "length (pf_args fl) = 1" "ParseRef (hd (pf_args fl)) = Inr ref"
      "h_load h (w_loads w) = Inr (Some p)" by blast
  let ?id = "resolveIdentity (h_getenv h) (pf_as fl)" and ?ag = "agentContext (h_getenv h)"
    and ?now = "h_now h (w_loads w)"
  define w1 where "w1 = println (''Identity: '' @ identityLabel ?id)
      (println (''Ref:      '' @ sr_Raw ref) (w\<lparr>w_loads := Suc (w_loads w)\<rparr>))"
  have w1: "\<exists>ps. w_events w1 = w_events w @ map EPrint ps"
    by (intro exI[of _ "[''Ref:      '' @ sr_Raw ref @ newline, ''Identity: '' @ identityLabel ?id @ newline]"])
      (simp add: w1_def step_defs)
  show thesis
  proof (cases "probeReachableMode p (sr_Raw ref) ?id ?ag ?now")
    case None
    let ?f = "\<lambda>m. ''  '' @ pad_right 5 m @ ''  '' @ d_Reason (Evaluate p (probe_request (sr_Raw ref) ?id ?ag ?now m))"
    define w3 where "w3 = fold (\<lambda>m. println (?f m)) probeModeOrder
        (println (newline @ ''Reached:  no mode '' @ emdash @ '' get, exec and mount are all denied'')
          (println (newline @ ''DENIED'') w1))"
    have r: "w' = fst (logProbeDecision h (sr_Raw ref) ?id ModeGet ?ag ?now w3)" "res = Some (ExitStatus probeExitDenied)"
      using assms t None by (simp_all add: runProbe_def Let_def w3_def w1_def)
    obtain ps where "w_events w1 = w_events w @ map EPrint ps" using w1 by blast
    then have w3: "w_events w3 = w_events w @ map EPrint (ps @ [newline @ ''DENIED'' @ newline,
        newline @ ''Reached:  no mode '' @ emdash @ '' get, exec and mount are all denied'' @ newline] @
        map (\<lambda>m. ?f m @ newline) probeModeOrder)" (is "_ = _ @ map EPrint ?ps")
      unfolding w3_def prints_events by (simp add: step_defs)
    define rq where "rq = \<lparr>q_Ref = sr_Raw ref, q_Identity = ?id, q_Mode = ModeGet, q_Time = ?now, q_Caller = ''probe'',
        q_Agent = ?ag\<rparr>"
    obtain w4 e where l: "policy_authorize h rq w3 = (w4, e)" by (metis surj_pair)
    then have "w' = w4" using r(1) by (simp add: logProbeDecision_def rq_def)
    then show thesis
      using policy_authorize_cases[OF l] w3 r(2)
      by (intro denied[of ?ps rq "e = None" "[]"]) (simp_all add: exit_code_def probeExitDenied_def rq_def)
  next
    case (Some mr)
    obtain mode reason where mr: "mr = (mode, reason)" by (cases mr)
    have m: "mode \<in> set probeModeOrder"
      using Some mr by (auto simp: probeReachableMode_def find_Some_iff split: option.splits)
    obtain ps where ps: "w_events w1 = w_events w @ map EPrint ps" using w1 by blast
    define rq where "rq = \<lparr>q_Ref = sr_Raw ref, q_Identity = ?id, q_Mode = mode, q_Time = ?now, q_Caller = ''probe'',
        q_Agent = ?ag\<rparr>"
    obtain w2 e where l: "policy_authorize h rq w1 = (w2, e)" by (metis surj_pair)
    have run: "(w', res) = (case e of Some _ \<Rightarrow> (println (newline @ ''DENIED'') w2, Some (ExitStatus probeExitDenied))
        | None \<Rightarrow> probe_verdict h ref mode reason w2)"
      using assms t Some mr l by (simp add: runProbe_def Let_def w1_def logProbeDecision_def rq_def split: option.splits)
    show thesis
    proof (cases e)
      case None
      then obtain vs where "w_events w' = w_events w2 @ vs" "list_all (\<lambda>e. fetches_ref ref e \<or> (\<exists>s. e = EPrint s)) vs"
          "exit_code res \<in> {0, 3, 5}" "exit_code res \<in> {0, 3} \<longrightarrow> list_ex is_fetch vs"
        using run probe_verdict_events[of h ref mode reason w2 w' res] by auto
      then show thesis
        using policy_authorize_cases[OF l] ps None m by (intro allowed[of ps rq vs ref]) (simp_all add: rq_def)
    next
      case (Some err)
      then show thesis
        using run policy_authorize_cases[OF l] ps
        by (intro denied[of ps rq False "[newline @ ''DENIED'' @ newline]"])
          (simp_all add: step_defs exit_code_def probeExitDenied_def rq_def)
    qed
  qed
qed

text \<open>
  A probe delivers nothing and is on record: what it does is print, write at most one
  line to the audit log, marked as a probe, and fetch only after that line recorded a
  permission. The exit statuses 0 and 3 mean that the fetch took place, and 4 that it did not.
\<close>

theorem probe_audits_once:
  assumes "runProbe h parsed w = (w', res)"
  shows "\<exists>evs. w_events w' = w_events w @ evs \<and>
    list_all (\<lambda>e. is_auth e \<or> is_fetch e \<or> (\<exists>s. e = EPrint s)) evs \<and> length (filter is_auth evs) \<le> 1 \<and>
    (list_ex is_fetch evs \<longrightarrow>
       (\<exists>r. filter is_auth evs = [EAuth r True] \<and> q_Caller r = ''probe'' \<and> permitted h r)) \<and>
    (exit_code res \<in> {0, probeExitEmpty} \<longrightarrow> list_ex is_fetch evs) \<and>
    (exit_code res = probeExitDenied \<longrightarrow> \<not> list_ex is_fetch evs)"
proof -
  have codes: "probeExitEmpty = 3" "probeExitDenied = 4" by (simp_all add: probeExitEmpty_def probeExitDenied_def)
  have prints: "filter is_auth (map EPrint ps) = []" "\<not> list_ex is_fetch (map EPrint ps)"
    "list_all (\<lambda>e. is_auth e \<or> is_fetch e \<or> (\<exists>s. e = EPrint s)) (map EPrint ps)" for ps
    by (auto simp: is_auth_def is_fetch_def filter_empty_conv list_ex_iff list_all_iff)
  have auth: "is_auth (EAuth r ok)" "\<not> is_fetch (EAuth r ok)" for r ok by (simp_all add: is_auth_def is_fetch_def)
  from assms show ?thesis
  proof (cases rule: probe_shapes)
    case (silent ps)
    then show ?thesis using prints[of ps] codes by (intro exI[of _ "map EPrint ps"]) auto
  next
    case (denied ps r ok qs)
    then show ?thesis
      using prints auth codes by (intro exI[of _ "map EPrint ps @ EAuth r ok # map EPrint qs"]) simp
  next
    case (allowed ps r ref vs)
    have "filter is_auth vs = []" "list_all (\<lambda>e. is_auth e \<or> is_fetch e \<or> (\<exists>s. e = EPrint s)) vs"
      using allowed(6) by (auto simp: is_auth_def is_fetch_def fetches_ref_def filter_empty_conv list_all_iff)
    then show ?thesis
      using allowed prints auth codes by (intro exI[of _ "map EPrint ps @ EAuth r True # vs"]) auto
  qed
qed

theorem probe_audits_once_witness:
  "exit_code (snd (runProbe (demo_host no_env ''s3'') probe_token start_world)) = 0 \<and>
   list_ex is_fetch (w_events (fst (runProbe (demo_host no_env ''s3'') probe_token start_world)))"
proof -
  let ?r = "runProbe (demo_host no_env ''s3'') probe_token start_world"
  have "exit_code (snd ?r) = 0" by code_simp
  then show ?thesis
    using probe_audits_once[OF prod.collapse[symmetric], of "demo_host no_env ''s3''" probe_token start_world]
    by (auto simp: start_world_def)
qed

lemma Read_at:
  assumes "length data < 2 ^ 62" "n < 2 ^ 62" "i < 2 ^ 62"
  shows "Read data n (of_nat i) = Some (take n (drop i data))"
proof -
  have s: "sint (of_nat k :: 64 word) = int k" if "k < 2 ^ 63" for k
    using that by (simp add: signed_of_nat signed_take_bit_int_eq_self)
  have "(of_nat i :: 64 word) + of_nat n = of_nat (i + n)" by simp
  then have e: "sint ((of_nat i :: 64 word) + of_nat n) = int (i + n)" using s[of "i + n"] assms by simp
  show ?thesis
    using assms s[of i] s[of "length data"] e by (auto simp: Read_def Let_def)
qed

lemma concat_pieces: "concat (map (\<lambda>k. take n (drop (k * n) xs)) [0..<m]) = take (m * n) xs"
proof (induction m)
  case (Suc m)
  have "take (Suc m * n) xs = take (m * n) xs @ take n (drop (m * n) xs)"
    using take_add[of "m * n" n xs] by (simp add: add.commute)
  then show ?case using Suc by simp
qed simp

text \<open>
  Reading a mounted file from its start in pieces of any positive length gives back
  exactly the rendered bytes, ends after the last piece, and no read panics, for data and
  pieces that fit in the width of an offset.
\<close>

theorem mount_read_reassembles:
  assumes "0 < n" "n < 2 ^ 61" "length data < 2 ^ 61"
  shows "map (\<lambda>k. Read data n (of_nat (k * n))) [0..<Suc (length data div n)] =
      map (\<lambda>k. Some (take n (drop (k * n) data))) [0..<Suc (length data div n)] \<and>
    concat (map (\<lambda>k. the (Read data n (of_nat (k * n)))) [0..<Suc (length data div n)]) = data \<and>
    Read data n (of_nat (length data)) = Some []"
proof -
  have b: "k * n < 2 ^ 62" if "k < Suc (length data div n)" for k
  proof -
    have "k * n \<le> length data div n * n" using that by simp
    also have "\<dots> \<le> length data" by simp
    finally show ?thesis using assms(3) by simp
  qed
  have r: "Read data n (of_nat (k * n)) = Some (take n (drop (k * n) data))" if "k < Suc (length data div n)" for k
    using Read_at[of data n "k * n"] b[OF that] assms by simp
  have "length data < Suc (length data div n) * n"
    using assms(1) by (metis dividend_less_div_times mult.commute mult_Suc_right add.commute mult_Suc)
  then have "concat (map (\<lambda>k. take n (drop (k * n) data)) [0..<Suc (length data div n)]) = data"
    unfolding concat_pieces by simp
  moreover have "map (\<lambda>k. the (Read data n (of_nat (k * n)))) [0..<Suc (length data div n)] =
      map (\<lambda>k. take n (drop (k * n) data)) [0..<Suc (length data div n)]"
    using r by (intro map_cong) auto
  ultimately have "concat (map (\<lambda>k. the (Read data n (of_nat (k * n)))) [0..<Suc (length data div n)]) = data"
    by (simp only:)
  moreover have "Read data n (of_nat (length data)) = Some []"
    using Read_at[of data n "length data"] assms by simp
  moreover have "map (\<lambda>k. Read data n (of_nat (k * n))) [0..<Suc (length data div n)] =
      map (\<lambda>k. Some (take n (drop (k * n) data))) [0..<Suc (length data div n)]"
    using r by (intro map_cong) auto
  ultimately show ?thesis by blast
qed

theorem mount_read_reassembles_witness:
  "concat (map (\<lambda>k. the (Read ''s3cr3t'' 4 (of_nat (k * 4)))) [0..<2]) = ''s3cr3t''"
proof -
  have "length ''s3cr3t'' < (2::nat) ^ 61" "(4::nat) < 2 ^ 61" "Suc (length ''s3cr3t'' div 4) = 2" by simp_all
  then show ?thesis using mount_read_reassembles[of 4 "''s3cr3t''"] by (metis zero_less_numeral)
qed

end
