(* ===== verification/Enforcement.thy ===== *)
theory Enforcement
  imports Transaction Delivery
begin

text \<open>
  The two halves of the program together: \<open>policy grant\<close> and \<open>policy apply\<close> install a policy by
  \<open>runTransaction\<close>, and the delivery commands of later processes read it back with \<open>LoadFile\<close> and
  decide by it. What is installed is what was approved, and nothing but it decides what leaves the
  stores.
\<close>

subsection \<open>Deliveries\<close>

text \<open>One command, or one open of a mounted file, with the modes it may be allowed for.\<close>

inductive delivery :: "'a host \<Rightarrow> string list \<Rightarrow> world \<Rightarrow> world \<Rightarrow> bool" where
  by_get: "runGet h got w = (w', res) \<Longrightarrow> delivery h [ModeGet] w w'"
| by_probe: "runProbe h prb w = (w', res) \<Longrightarrow> delivery h probeModeOrder w w'"
| by_exec: "runExec h parse args w = (w', res) \<Longrightarrow> delivery h [ModeExec] w w'"
| by_open: "Open h readlink fc c flags w = (w', opened) \<Longrightarrow> delivery h [ModeMount] w w'"

text \<open>Before each fetch a request for its reference was allowed by the policy loaded.\<close>

definition backed :: "'a host \<Rightarrow> string list \<Rightarrow> event list \<Rightarrow> bool" where
  "backed h modes evs \<longleftrightarrow>
     (\<forall>before ref f after. evs = before @ EFetch ref f # after \<longrightarrow>
        (\<exists>r. EAuth r True \<in> set before \<and> q_Ref r = sr_Raw ref \<and> q_Mode r \<in> set modes \<and> permitted h r))"

lemma split_append:
  "as @ bs = before @ x # after \<longleftrightarrow>
     (\<exists>us. as = before @ x # us \<and> after = us @ bs) \<or> (\<exists>us. before = as @ us \<and> bs = us @ x # after)"
  by (auto simp: append_eq_append_conv2 append_eq_Cons_conv Cons_eq_append_conv)

lemma backed_append: "backed h modes as \<Longrightarrow> backed h modes bs \<Longrightarrow> backed h modes (as @ bs)"
  unfolding backed_def split_append by fastforce

lemma backed_mono: "backed h modes evs \<Longrightarrow> set modes \<subseteq> set modes' \<Longrightarrow> backed h modes' evs"
  unfolding backed_def by blast

lemma backed_none: "(\<And>ref f. EFetch ref f \<notin> set evs) \<Longrightarrow> backed h modes evs"
  unfolding backed_def by (metis in_set_conv_decomp)

lemma backed_after:
  assumes "\<And>ref f. EFetch ref f \<notin> set as"
    "\<And>ref f. EFetch ref f \<in> set bs \<Longrightarrow>
      \<exists>r. EAuth r True \<in> set as \<and> q_Ref r = sr_Raw ref \<and> q_Mode r \<in> set modes \<and> permitted h r"
  shows "backed h modes (as @ bs)"
  unfolding backed_def
proof (intro allI impI)
  fix before ref f after
  assume "as @ bs = before @ EFetch ref f # after"
  then obtain us where u: "before = as @ us" "bs = us @ EFetch ref f # after"
    using assms(1) by (force simp: split_append)
  then have "EFetch ref f \<in> set bs" by simp
  from assms(2)[OF this] show "\<exists>r. EAuth r True \<in> set before \<and> q_Ref r = sr_Raw ref \<and> q_Mode r \<in> set modes \<and> permitted h r"
    using u(1) by auto
qed

lemma get_backed:
  assumes "runGet h got w = (w', res)"
  shows "\<exists>evs. w_events w' = w_events w @ evs \<and> backed h [ModeGet] evs"
proof (cases "w' = w")
  case False
  then obtain ref id w1 x where f: "fetch h ref id ModeGet w = (w1, x)"
    and run: "\<exists>evs. w_events w' = w_events w1 @ evs \<and> (\<forall>ref f. EFetch ref f \<notin> set evs)"
    using assms by (auto simp: runGet_def write_to_def emit_def split: sum.splits if_splits option.splits prod.splits)
  from fetch_events[OF f] obtain r where r: "q_Ref r = sr_Raw ref" "q_Mode r = ModeGet" "fetched h ref r w w1 x" by blast
  have "backed h [ModeGet] [EAuth r ok]" for ok by (rule backed_none) simp
  moreover have "backed h [ModeGet] ([EAuth r True] @ [EFetch ref f])" if "permitted h r" for f
    using r that by (intro backed_after) auto
  ultimately have "\<exists>evs. w_events w1 = w_events w @ evs \<and> backed h [ModeGet] evs"
    using r(3) by (fastforce simp: fetched_def)
  then show ?thesis using run backed_append backed_none by (metis append_assoc)
qed (auto intro!: exI[of _ "[]"] backed_none)

lemma probe_backed:
  assumes "runProbe h prb w = (w', res)"
  shows "\<exists>evs. w_events w' = w_events w @ evs \<and> backed h probeModeOrder evs"
  using assms
proof (cases rule: probe_shapes)
  case (silent ps)
  then show ?thesis by (intro exI[of _ "map EPrint ps"]) (auto intro: backed_none)
next
  case (denied ps r ok qs)
  then show ?thesis by (intro exI[of _ "map EPrint ps @ EAuth r ok # map EPrint qs"]) (auto intro: backed_none)
next
  case (allowed ps r ref vs)
  have "backed h probeModeOrder ((map EPrint ps @ [EAuth r True]) @ vs)"
    using allowed(3-6) by (intro backed_after) (auto simp: list_all_iff fetches_ref_def)
  then show ?thesis using allowed(1) by auto
qed

lemma open_backed:
  assumes "Open h readlink fc c flags w = (w', opened)"
  shows "\<exists>evs. w_events w' = w_events w @ evs \<and> backed h [ModeMount] evs"
proof -
  from mount_open_gated[OF assms] obtain as fs where g: "w_events w' = w_events w @ as @ fs" "list_all is_auth as"
    "\<forall>ref f. EFetch ref f \<in> set fs \<longrightarrow> list_ex (allows_ref ref) as"
    "fs \<noteq> [] \<longrightarrow> (\<exists>prof ks. list_all2 (mount_granted h c prof (callerString readlink fc)) ks as)"
    by blast
  have "backed h [ModeMount] (as @ fs)"
  proof (rule backed_after)
    show "EFetch ref f \<notin> set as" for ref f using g(2) by (auto simp: list_all_iff is_auth_def)
    fix ref f
    assume e: "EFetch ref f \<in> set fs"
    then obtain r where r: "EAuth r True \<in> set as" "q_Ref r = sr_Raw ref"
      using g(3) by (auto simp: list_ex_iff allows_ref_def)
    obtain prof ks where "list_all2 (mount_granted h c prof (callerString readlink fc)) ks as" using g(4) e by auto
    then have "\<exists>n. mount_granted h c prof (callerString readlink fc) n (EAuth r True)"
      using r(1) by (metis in_set_conv_nth list_all2_conv_all_nth)
    then show "\<exists>r. EAuth r True \<in> set as \<and> q_Ref r = sr_Raw ref \<and> q_Mode r \<in> set [ModeMount] \<and> permitted h r"
      using r by (auto simp: mount_granted_def)
  qed
  then show ?thesis using g(1) by blast
qed

lemma exec_backed:
  assumes "runExec h parse args w = (w', res)"
  shows "\<exists>evs. w_events w' = w_events w @ evs \<and> backed h [ModeExec] evs"
proof -
  from exec_fetches_granted[OF assms] obtain as rest where g: "w_events w' = w_events w @ as @ rest" "list_all is_auth as"
    "\<forall>ref f. EFetch ref f \<in> set rest \<longrightarrow>
      (\<exists>r. EAuth r True \<in> set as \<and> q_Ref r = sr_Raw ref \<and> q_Mode r = ModeExec \<and> permitted h r)" by blast
  have "backed h [ModeExec] (as @ rest)" by (rule backed_after) (use g(2,3) in \<open>auto simp: list_all_iff is_auth_def\<close>)
  then show ?thesis using g(1) by blast
qed

lemma delivery_backed:
  "delivery h modes w w' \<Longrightarrow> \<exists>evs. w_events w' = w_events w @ evs \<and> backed h modes evs"
  by (induction rule: delivery.induct) (rule get_backed probe_backed exec_backed open_backed; assumption)+

definition some_delivery :: "'a host \<Rightarrow> world \<Rightarrow> world \<Rightarrow> bool" where
  "some_delivery h w w' \<longleftrightarrow> (\<exists>modes. delivery h modes w w')"

lemma delivery_modes: "delivery h modes w w' \<Longrightarrow> set modes \<subseteq> set probeModeOrder"
  by (induction rule: delivery.induct) (auto simp: probeModeOrder_def)

lemma deliveries_backed:
  "(some_delivery h)\<^sup>*\<^sup>* w w' \<Longrightarrow> \<exists>evs. w_events w' = w_events w @ evs \<and> backed h probeModeOrder evs"
proof (induction rule: rtranclp_induct)
  case base
  show ?case by (intro exI[of _ "[]"]) (simp add: backed_none)
next
  case (step w1 w2)
  then obtain es modes where es: "w_events w1 = w_events w @ es" "backed h probeModeOrder es" "delivery h modes w1 w2"
    by (auto simp: some_delivery_def)
  obtain ds where ds: "w_events w2 = w_events w1 @ ds" "backed h probeModeOrder ds"
    using delivery_backed[OF es(3)] backed_mono delivery_modes[OF es(3)] by blast
  then show ?case using es backed_append by (intro exI[of _ "es @ ds"]) simp
qed

subsection \<open>What a transaction leaves to be read\<close>

lemma transaction_installs:
  assumes "we_temp (te_cand env) \<noteq> Some (tx_livePath t)" "we_temp (te_install env) \<noteq> Some (tx_livePath t)"
    "we_temp (te_restore env) \<noteq> Some (tx_livePath t)" "tx_apply t"
    "runTransaction marshal decode env t fs = (tr, None)"
  shows "\<exists>approved installed. tx_ready marshal decode env t approved \<and> marshal installed = marshal approved \<and>
    LoadFile decode True (last tr) (tx_livePath t) = Inr (Some installed)"
proof -
  let ?c = "WriteCandidate marshal decode (te_cand env) (tx_candidate t) fs"
  note cand = candidate_path_safe[OF assms(1), where marshal = marshal and decode = decode and fs = fs]
  from runTransaction_cases[of marshal decode env t fs] assms(4,5) obtain candPath reread where
    c: "snd ?c = Inr candPath" "tx_ready marshal decode env t reread"
    and r: "(tr, None) = (fst ?c @ fst (tx_commit marshal decode env t candPath reread (last (fst ?c))),
       snd (tx_commit marshal decode env t candPath reread (last (fst ?c))))"
    by auto
  let ?t = "tx_commit marshal decode env t candPath reread (last (fst ?c))"
  have "fst ?t \<noteq> []"
    using Backup_states[of "te_backup env" "te_stamp env" "tx_livePath t" "last (fst ?c)"] WriteAtomic_not_Nil Restore_not_Nil
    by (auto simp: tx_commit_def split: prod.splits sum.splits option.splits)
  then have l: "last tr = last (fst ?t)" "snd ?t = None" using r by auto
  have "outcome_ok marshal decode (tx_livePath t) reread (last (fst ?c)) ?t"
    using tx_commit_outcome[OF assms(2,3)] cand c(1) by blast
  then obtain f p where "last tr (tx_livePath t) = Some f" "Parse decode (fl_data f) = Inr p" "marshal p = marshal reread"
    using l by (auto simp: outcome_ok_def)
  then show ?thesis using c(2) by (intro exI[of _ reread] exI[of _ p]) (simp add: LoadFile_def)
qed

subsection \<open>Property\<close>

text \<open>
  (C5) What was approved is what decides. After an install that reported success, the policy every
  later command loads is written exactly as the one that was rendered, analysed, compared and
  confirmed; and whatever sequence of \<open>get\<close>, \<open>probe\<close>, \<open>exec\<close> and opens of a mount follows, no
  store is asked for a reference before that policy was asked for it and allowed it.
\<close>

theorem approved_policy_is_enforced:
  assumes "we_temp (te_cand env) \<noteq> Some (tx_livePath t)" "we_temp (te_install env) \<noteq> Some (tx_livePath t)"
    "we_temp (te_restore env) \<noteq> Some (tx_livePath t)" "tx_apply t"
    and "runTransaction marshal decode env t fs = (tr, None)"
    and "\<And>k. h_load h k = map_sum text_of id (LoadFile decode True (last tr) (tx_livePath t))"
    and "(some_delivery h)\<^sup>*\<^sup>* w w'"
  shows "\<exists>approved installed evs. tx_ready marshal decode env t approved \<and> marshal installed = marshal approved \<and>
    LoadFile decode True (last tr) (tx_livePath t) = Inr (Some installed) \<and> w_events w' = w_events w @ evs \<and>
    (\<forall>before ref f after. evs = before @ EFetch ref f # after \<longrightarrow>
      (\<exists>r. EAuth r True \<in> set before \<and> q_Ref r = sr_Raw ref \<and> q_Mode r \<in> set probeModeOrder \<and>
         d_Allow (Evaluate installed r)))"
proof -
  obtain approved installed where i: "tx_ready marshal decode env t approved" "marshal installed = marshal approved"
    "LoadFile decode True (last tr) (tx_livePath t) = Inr (Some installed)"
    using transaction_installs[OF assms(1-5)] by blast
  then have p: "permitted h r \<Longrightarrow> d_Allow (Evaluate installed r)" for r by (auto simp: permitted_def assms(6))
  obtain evs where "w_events w' = w_events w @ evs" "backed h probeModeOrder evs"
    using deliveries_backed[OF assms(7)] by blast
  then show ?thesis using i p unfolding backed_def by blast
qed

text \<open>
  An install of a policy with one rule over an empty one, in the codec that writes the number of
  rules, and then \<open>exec\<close> of a profile whose one secret the rule allows.
\<close>

definition gitea_rule :: rule where
  "gitea_rule = allow_rule [''op://v/gitea/*''] [] [''exec'']"

definition gitea_decode :: decoder where
  "gitea_decode data =
     (case atoi data of
        None \<Rightarrow> Inl ''invalid character''
      | Some n \<Rightarrow> Inr (\<lparr>p_Schema = 1, p_Rules = replicate (nat n) gitea_rule\<rparr>, False))"

definition gitea_tx :: transaction where
  "gitea_tx = example_tx\<lparr>tx_candidate := \<lparr>p_Schema = 1, p_Rules = [gitea_rule]\<rparr>, tx_expected := None\<rparr>"

definition gitea_host :: "unit host" where
  "gitea_host = (demo_host no_env ''s3'')\<lparr>h_load := (\<lambda>_. map_sum (\<lambda>_. ''unreadable'') id (LoadFile gitea_decode True
     (last (fst (runTransaction toy_marshal gitea_decode example_tenv gitea_tx example_fs))) ''p''))\<rparr>"

theorem approved_policy_is_enforced_witness:
  "\<exists>approved installed before ref f after r. tx_ready toy_marshal gitea_decode example_tenv gitea_tx approved \<and>
     toy_marshal installed = toy_marshal approved \<and>
     w_events (fst (runExec gitea_host exec_parse [''tea'', ''--'', ''tea'', ''login''] start_world)) =
       before @ EFetch ref f # after \<and>
     EAuth r True \<in> set before \<and> q_Ref r = sr_Raw ref \<and> d_Allow (Evaluate installed r)"
proof -
  let ?r = "runTransaction toy_marshal gitea_decode example_tenv gitea_tx example_fs"
  let ?x = "runExec gitea_host exec_parse [''tea'', ''--'', ''tea'', ''login''] start_world"
  have n: "snd ?r = None" by code_simp
  have "list_ex (\<lambda>e. case e of EFetch ref f \<Rightarrow> True | _ \<Rightarrow> False) (w_events (fst ?x))" by code_simp
  then obtain v where v: "v \<in> set (w_events (fst ?x))" "case v of EFetch ref f \<Rightarrow> True | _ \<Rightarrow> False"
    unfolding list_ex_iff by blast
  obtain ref f where "v = EFetch ref f" using v(2) by (cases v) simp_all
  then have "EFetch ref f \<in> set (w_events (fst ?x))" using v(1) by simp
  then obtain before after where e: "w_events (fst ?x) = before @ EFetch ref f # after" by (meson split_list)
  have "some_delivery gitea_host start_world (fst ?x)"
    unfolding some_delivery_def by (intro exI[of _ "[ModeExec]"] by_exec[OF prod.collapse[symmetric]])
  then have d: "(some_delivery gitea_host)\<^sup>*\<^sup>* start_world (fst ?x)" by blast
  have "\<exists>approved installed evs. tx_ready toy_marshal gitea_decode example_tenv gitea_tx approved \<and>
      toy_marshal installed = toy_marshal approved \<and>
      LoadFile gitea_decode True (last (fst ?r)) (tx_livePath gitea_tx) = Inr (Some installed) \<and>
      w_events (fst ?x) = w_events start_world @ evs \<and>
      (\<forall>before ref f after. evs = before @ EFetch ref f # after \<longrightarrow>
        (\<exists>r. EAuth r True \<in> set before \<and> q_Ref r = sr_Raw ref \<and> q_Mode r \<in> set probeModeOrder \<and>
           d_Allow (Evaluate installed r)))"
    by (rule approved_policy_is_enforced[OF _ _ _ _ _ _ d, of example_tenv gitea_tx toy_marshal gitea_decode example_fs "fst ?r"
          "\<lambda>_. ''unreadable''"])
      (use n in \<open>simp_all add: example_tenv_def gitea_tx_def example_tx_def good_wenv_def gitea_host_def prod_eq_iff\<close>)
  then show ?thesis using e by (auto simp: start_world_def) blast
qed

end
