(* ===== verification/Audit_Trail.thy ===== *)
theory Audit_Trail
  imports Enforcement
begin

text \<open>
  The audit log over whole commands (\<open>writeAudit\<close> of \<open>internal/policy\<close>, called by every decision of
  \<open>get\<close>, \<open>probe\<close>, \<open>exec\<close> and the mount): what a command appends is one line per decision, in the order
  of the decisions, and nothing else.
\<close>

subsection \<open>What is appended\<close>

text \<open>The line of a decision: the request it was for, and a word that says whether it was allowed.\<close>

definition records :: "event \<Rightarrow> string \<Rightarrow> bool" where
  "records e line \<longleftrightarrow>
     (\<exists>r ok dec reason. e = EAuth r ok \<and> line = audit_line r dec reason @ newline \<and>
        dec \<in> {''ALLOW'', ''DENY'', ''ERROR''} \<and> (dec = ''ALLOW'' \<longleftrightarrow> ok))"

definition logged :: "world \<Rightarrow> world \<Rightarrow> bool" where
  "logged w w' \<longleftrightarrow>
     (\<exists>evs lines. w_events w' = w_events w @ evs \<and> list_all2 records (filter is_auth evs) lines \<and>
        w_log w' = map_option (\<lambda>log. log @ concat lines) (w_log w))"

lemma logged_refl: "logged w w"
  unfolding logged_def by (intro exI[of _ "[]"]) (simp add: option.map_ident)

lemma logged_trans:
  assumes "logged w1 w2" "logged w2 w3"
  shows "logged w1 w3"
proof -
  obtain e1 l1 where s1: "w_events w2 = w_events w1 @ e1" "list_all2 records (filter is_auth e1) l1"
    "w_log w2 = map_option (\<lambda>log. log @ concat l1) (w_log w1)" using assms(1) unfolding logged_def by blast
  obtain e2 l2 where s2: "w_events w3 = w_events w2 @ e2" "list_all2 records (filter is_auth e2) l2"
    "w_log w3 = map_option (\<lambda>log. log @ concat l2) (w_log w2)" using assms(2) unfolding logged_def by blast
  show ?thesis
    unfolding logged_def using s1 s2
    by (intro exI[of _ "e1 @ e2"] exI[of _ "l1 @ l2"]) (simp add: list_all2_appendI option.map_comp comp_def)
qed

lemma logged_quiet:
  assumes "w_events w' = w_events w @ evs" "\<not> list_ex is_auth evs" "w_log w' = w_log w"
  shows "logged w w'"
  unfolding logged_def
proof (intro exI conjI)
  show "list_all2 records (filter is_auth evs) []" using assms(2) by (simp add: list_ex_iff filter_empty_conv)
qed (use assms in \<open>simp_all add: option.map_ident\<close>)

lemma logged_same: "logged w w' \<Longrightarrow> w_events w'' = w_events w' \<Longrightarrow> w_log w'' = w_log w' \<Longrightarrow> logged w w''"
  by (simp add: logged_def)

lemma logged_policy_authorize:
  assumes "policy_authorize h r w = (w', err)"
  shows "logged w w'"
proof -
  obtain dec reason where d: "w_log w' = writeAudit (w_log w) r dec reason" "dec \<in> {''ALLOW'', ''DENY'', ''ERROR''}"
    "dec = ''ALLOW'' \<longleftrightarrow> err = None" "w_events w' = w_events w @ [EAuth r (err = None)]"
    using assms by (fastforce simp: policy_authorize_def Authorize_def Let_def split: sum.splits if_splits prod.splits)
  then show ?thesis
    unfolding logged_def
    by (intro exI[of _ "[EAuth r (err = None)]"] exI[of _ "[audit_line r dec reason @ newline]"])
      (auto simp: writeAudit_def is_auth_def records_def)
qed

lemma logged_authorize: "authorize h ref identity mode w = (w', err) \<Longrightarrow> logged w w'"
  unfolding authorize_def by (rule logged_policy_authorize)

lemma logged_backend_Get: "backend_Get h b ref w = (w', res) \<Longrightarrow> logged w w'"
  by (intro logged_quiet[where evs = "drop (length (w_events w)) (w_events w')"])
    (auto simp: backend_Get_def emit_def hold_def is_auth_def split: sum.splits)

lemma logged_retrieve: "retrieve h ref w = (w', res) \<Longrightarrow> logged w w'"
  by (auto simp: retrieve_def logged_refl split: sum.splits dest: logged_backend_Get)

subsection \<open>The loops\<close>

locale recorded_loops =
  fixes check :: "string \<Rightarrow> world \<Rightarrow> world \<times> ('e + secret_ref)"
    and get :: "secret_ref \<Rightarrow> world \<Rightarrow> world \<times> ('e + string)"
  assumes check_logged: "check n w = (w', cres) \<Longrightarrow> logged w w'"
    and get_logged: "get r w = (w', res) \<Longrightarrow> logged w w'"
begin

lemma each_logged:
  assumes "\<And>n w w' r. step n w = (w', r) \<Longrightarrow> logged w w'"
    "\<And>v w. w_events (undo v w) = w_events w \<and> w_log (undo v w) = w_log w"
  shows "each undo step names w = (w', res) \<Longrightarrow> logged w w'"
proof (induction names arbitrary: w w' res)
  case (Cons n ns)
  obtain w1 r1 where s: "step n w = (w1, r1)" by (metis surj_pair)
  note l = assms(1)[OF s]
  show ?case
  proof (cases r1)
    case (Inr v)
    obtain w2 r2 where e: "each undo step ns w1 = (w2, r2)" by (metis surj_pair)
    have "w_events w' = w_events w2" "w_log w' = w_log w2"
      using Cons.prems s Inr e assms(2) by (auto split: sum.splits)
    then show ?thesis using logged_same[OF logged_trans[OF l Cons.IH[OF e]]] by simp
  qed (use Cons.prems s l in auto)
qed (simp add: logged_refl)

lemma both_logged:
  assumes "both_loops check get names w = (w', res)"
  shows "logged w w'"
proof -
  obtain w1 r1 where c: "each (\<lambda>_ w. w) check names w = (w1, r1)" by (metis surj_pair)
  then have l: "logged w w1" using each_logged[of check "\<lambda>_ w. w"] check_logged by blast
  show ?thesis
  proof (cases r1)
    case (Inr parsed)
    then have "each zero_buf (\<lambda>name. get (the (map_of parsed name))) names w1 = (w', res)"
      using assms c by (simp add: both_loops_def)
    then have "logged w1 w'"
      using each_logged[of "\<lambda>name. get (the (map_of parsed name))" zero_buf] get_logged by simp
    then show ?thesis using logged_trans[OF l] by blast
  qed (use assms c l in \<open>auto simp: both_loops_def\<close>)
qed

end

interpretation exl: recorded_loops "exec_check h profileName prof identity" "exec_get h"
  for h :: "'a host" and profileName prof identity
proof unfold_locales
  fix n w w' and cres :: "cmd_error + secret_ref"
  assume "exec_check h profileName prof identity n w = (w', cres)"
  then show "logged w w'"
    by (auto simp: exec_check_def logged_refl split: sum.splits prod.splits option.splits dest: logged_authorize)
next
  fix r w w' and res :: "cmd_error + string"
  assume "exec_get h r w = (w', res)"
  then show "logged w w'" by (auto simp: exec_get_def split: prod.splits sum.splits dest: logged_retrieve)
qed

interpretation mnl: recorded_loops "mount_check h c prof now caller" "mount_get h"
  for h :: "'a host" and c prof now caller
proof unfold_locales
  fix n w w' and cres :: "errno + secret_ref"
  assume "mount_check h c prof now caller n w = (w', cres)"
  then show "logged w w'"
    by (auto simp: mount_check_def logged_refl split: sum.splits prod.splits option.splits dest: logged_policy_authorize)
next
  fix r w w' and res :: "errno + string"
  assume "mount_get h r w = (w', res)"
  then show "logged w w'" by (auto simp: mount_get_def split: prod.splits sum.splits dest: logged_retrieve)
qed

subsection \<open>The commands\<close>

lemma logged_emit: "logged w w1 \<Longrightarrow> \<not> is_auth e \<Longrightarrow> logged w (emit e w1)"
  by (rule logged_trans[OF _ logged_quiet[where evs = "[e]"]]) (simp_all add: emit_def)

lemma logged_println: "logged w w1 \<Longrightarrow> logged w (println s w1)"
  unfolding println_def printf_def by (rule logged_emit) (simp_all add: is_auth_def)

lemma logged_printf: "logged w w1 \<Longrightarrow> logged w (printf s w1)"
  unfolding printf_def by (rule logged_emit) (simp_all add: is_auth_def)

lemma logged_prints: "logged w w1 \<Longrightarrow> logged w (fold (\<lambda>m. println (f m)) ms w1)"
  by (induction ms arbitrary: w1) (simp_all add: logged_println)

lemma logged_fetch:
  assumes "fetch h ref identity mode w = (w', x)"
  shows "logged w w'"
  using assms
  by (auto simp: fetch_def split: prod.splits option.splits sum.splits
      dest!: logged_authorize logged_retrieve intro: logged_trans)

lemma logged_runGet:
  assumes "runGet h got w = (w', res)"
  shows "logged w w'"
proof (cases "w' = w")
  case False
  then obtain ref id w1 x where f: "fetch h ref id ModeGet w = (w1, x)"
    and run: "\<exists>evs. w_events w' = w_events w1 @ evs \<and> \<not> list_ex is_auth evs \<and> w_log w' = w_log w1"
    using assms
    by (auto simp: runGet_def write_to_def emit_def is_auth_def split: sum.splits if_splits option.splits prod.splits)
  then show ?thesis using logged_trans[OF logged_fetch[OF f]] logged_quiet by blast
qed (simp add: logged_refl)

lemma logged_probe_verdict:
  assumes "probe_verdict h ref mode reason w = (w', res)"
  shows "logged w w'"
proof (cases "Resolve (h_getenv h) (h_cfg h) ref")
  case (Inl e)
  then show ?thesis using assms by (auto simp: probe_verdict_def intro: logged_printf logged_refl)
next
  case (Inr b)
  obtain w1 r1 where g: "backend_Get h b ref w = (w1, r1)" by (metis surj_pair)
  have z: "logged w (zero_buf v w1)" for v using logged_same[OF logged_backend_Get[OF g]] by simp
  show ?thesis
    using assms Inr g z logged_backend_Get[OF g]
    by (auto simp: probe_verdict_def split: sum.splits if_splits intro: logged_printf)
qed

lemma logged_runProbe:
  assumes "runProbe h prb w = (w', res)"
  shows "logged w w'"
proof -
  have load: "logged w (w\<lparr>w_loads := k\<rparr>)" for k by (rule logged_same[OF logged_refl]) simp_all
  note said = logged_println[OF logged_println[OF load]]
  have seen: "logged w w2" if "logProbeDecision h r i m a n w1 = (w2, e)" "logged w w1" for r i m a n w1 w2 e
    using logged_trans[OF that(2)] logged_policy_authorize that(1) unfolding logProbeDecision_def by blast
  have seen': "logged w (fst (logProbeDecision h r i m a n w1))" if "logged w w1" for r i m a n w1
    using seen[OF surjective_pairing that] .
  show ?thesis
    using assms
    by (auto simp: runProbe_def Let_def probeModeOrder_def load split: sum.splits if_splits option.splits prod.splits
        intro!: logged_println logged_printf logged_refl said seen'
        dest!: logged_probe_verdict seen[OF _ said] intro: logged_trans)
qed

lemma logged_runExec:
  assumes "runExec h parse args w = (w', res)"
  shows "logged w w'"
  using assms
proof (cases rule: exec_stages)
  case early
  then show ?thesis by (simp add: logged_refl)
next
  case (loops pre cmd fl prof w1 r1)
  note l = exl.both_logged[OF loops(4)]
  from loops(5) show ?thesis
  proof
    assume "\<exists>secrets. r1 = Inr secrets \<and> exec_rendered h prof cmd secrets w1 = (w', res)"
    then obtain secrets where x: "exec_rendered h prof cmd secrets w1 = (w', res)" by blast
    have log: "w_log w' = w_log w1"
      using x by (auto simp: exec_rendered_def deliver_def newDir_def run_child_def wipe_def emit_def hold_def Let_def
          split: sum.splits prod.splits option.splits if_splits cmd_error.splits)
    obtain ds where "w_events w' = w_events w1 @ ds" "\<not> list_ex is_auth ds"
      using x
    proof (cases rule: exec_rendered_cases)
      case (delivered body w2)
      from delivered(2,3) that show thesis by (cases rule: deliver_events) (auto simp: is_auth_def)
    qed (use that[of "[]"] in simp)
    then show ?thesis using logged_trans[OF l] logged_quiet log by blast
  qed (use l in simp)
qed

lemma logged_Open:
  assumes "Open h readlink fc c flags w = (w', opened)"
  shows "logged w w'"
proof (cases "flags AND (O_WRONLY OR O_RDWR) \<noteq> 0 \<or> isl (h_profile h (cf_profileName c))")
  case True
  then show ?thesis using assms by (auto simp: Open_def materialize_def logged_refl split: sum.splits if_splits)
next
  case False
  then obtain prof where p: "h_profile h (cf_profileName c) = Inr prof" by (cases "h_profile h (cf_profileName c)") auto
  obtain w1 r1 where b: "both_loops (mount_check h c prof (h_now h (w_loads w)) (callerString readlink fc)) (mount_get h)
      (sortedKeys (pf_Secrets prof)) w = (w1, r1)" by (metis surj_pair)
  have "w_events w' = w_events w1" "w_log w' = w_log w1"
    using assms p b False by (auto simp: Open_def materialize_def split: sum.splits)
  then show ?thesis using logged_same[OF mnl.both_logged[OF b]] by blast
qed

lemma logged_delivery: "delivery h modes w w' \<Longrightarrow> logged w w'"
  by (induction rule: delivery.induct) (rule logged_runGet logged_runProbe logged_runExec logged_Open; assumption)+

lemma logged_deliveries: "(some_delivery h)\<^sup>*\<^sup>* w w' \<Longrightarrow> logged w w'"
proof (induction rule: rtranclp_induct)
  case (step w1 w2)
  then obtain modes where "delivery h modes w1 w2" by (auto simp: some_delivery_def)
  then show ?case using logged_trans[OF step.IH] logged_delivery by blast
qed (rule logged_refl)

subsection \<open>Property\<close>



end
