(* ===== verification/Consumer.thy ===== *)
theory Consumer
  imports Paths "HOL-Library.AList"
begin

text \<open>
  Consumer definitions (\<open>internal/consumer/consumer.go\<close>): their validation, and the only path
  from a client's operation and inputs to an argument vector. A Go map is an association list
  (see the prelude); where a loop ranges over a map in no given order, it takes the order of
  the list. The package \<open>regexp\<close> is a parameter: which expressions compile, and which strings a
  compiled expression matches.
\<close>

subsection \<open>Data\<close>

record regexps =
  re_Compile :: "string \<Rightarrow> bool"
  re_MatchString :: "string \<Rightarrow> string \<Rightarrow> bool"

record input =
  in_Pattern :: string
  in_MaxLength :: int
  in_Optional :: bool
  in_AllowLeadingDash :: bool
  in_re :: "string option"

record operation =
  op_Argv :: "string list"
  op_Inputs :: "(string \<times> input) list"
  op_Response :: string
  op_TimeoutSeconds :: int
  op_ResponseConfig :: "(string \<times> string) list"

record consumer_def =
  cd_Schema :: int
  cd_Name :: string
  cd_Executable :: string
  cd_Profile :: string
  cd_Operations :: "(string \<times> operation) list"

definition consumer_SchemaVersion :: int where "consumer_SchemaVersion = 1"
definition ResponseJSON :: string where "ResponseJSON = ''json''"
definition ResponseText :: string where "ResponseText = ''text''"
definition defaultMaxInputLength :: int where "defaultMaxInputLength = 256"
definition maxResponseConfigValue :: nat where "maxResponseConfigValue = 1024"

subsection \<open>Names, placeholders, control characters\<close>

text \<open>\<open>nameRE\<close>: \<open>^[a-z0-9][a-z0-9_-]*$\<close>.\<close>

definition name_start :: "char \<Rightarrow> bool" where
  "name_start c \<longleftrightarrow> (CHR ''a'' \<le> c \<and> c \<le> CHR ''z'') \<or> is_digit c"

definition name_char :: "char \<Rightarrow> bool" where
  "name_char c \<longleftrightarrow> name_start c \<or> c = CHR ''_'' \<or> c = CHR ''-''"

definition validName :: "string \<Rightarrow> bool" where
  "validName s \<longleftrightarrow> (case s of [] \<Rightarrow> False | c # cs \<Rightarrow> name_start c \<and> list_all name_char cs)"

datatype placeholder_error = Unterminated | BadPlaceholder string | NoValue string

function placeholders :: "string \<Rightarrow> placeholder_error + string list" where
  "placeholders s =
     (case s of
        [] \<Rightarrow> Inr []
      | c # rest \<Rightarrow>
          if c \<noteq> CHR ''$'' \<or> rest = [] \<or> hd rest \<noteq> CHR ''{'' then placeholders rest
          else (case index_byte (tl rest) CHR ''}'' of
                  None \<Rightarrow> Inl Unterminated
                | Some end' \<Rightarrow>
                    let name = take end' (tl rest) in
                    if \<not> validName name then Inl (BadPlaceholder name)
                    else (case placeholders (drop (Suc end') (tl rest)) of
                            Inl e \<Rightarrow> Inl e
                          | Inr names \<Rightarrow> Inr (name # names))))"
  by pat_completeness auto
termination by (relation "measure length") auto

function substitute :: "string \<Rightarrow> (string \<times> string) list \<Rightarrow> placeholder_error + string" where
  "substitute s values =
     (case s of
        [] \<Rightarrow> Inr []
      | c # rest \<Rightarrow>
          if c \<noteq> CHR ''$'' \<or> rest = [] \<or> hd rest \<noteq> CHR ''{'' then
            (case substitute rest values of Inl e \<Rightarrow> Inl e | Inr out \<Rightarrow> Inr (c # out))
          else (case index_byte (tl rest) CHR ''}'' of
                  None \<Rightarrow> Inl Unterminated
                | Some end' \<Rightarrow>
                    let name = take end' (tl rest) in
                    (case map_of values name of
                       None \<Rightarrow> Inl (NoValue name)
                     | Some v \<Rightarrow>
                         (case substitute (drop (Suc end') (tl rest)) values of
                            Inl e \<Rightarrow> Inl e
                          | Inr out \<Rightarrow> Inr (v @ out)))))"
  by pat_completeness auto
termination by (relation "measure (\<lambda>(s, values). length s)") auto

declare placeholders.simps [simp del] substitute.simps [simp del]

text \<open>
  \<open>unicode.IsControl\<close> over the runes of a string: the ASCII control bytes, and the runes
  U+0080 to U+009F, whose encoding is the byte C2 and one of 80 to 9F. The byte C2 always
  starts a rune, so these are exactly the places where such a rune is decoded.
\<close>

definition ascii_control :: "char \<Rightarrow> bool" where
  "ascii_control c \<longleftrightarrow> c < CHR 0x20 \<or> c = CHR 0x7F"

definition starts_control :: "string \<Rightarrow> bool" where
  "starts_control s \<longleftrightarrow>
     s \<noteq> [] \<and> (ascii_control (hd s) \<or>
       (hd s = CHR 0xC2 \<and> tl s \<noteq> [] \<and> CHR 0x80 \<le> hd (tl s) \<and> hd (tl s) \<le> CHR 0x9F))"

subsection \<open>Inputs\<close>

datatype input_error =
    PatternRequired | NegativeMaxLength int | PatternNoCompile string
  | NotCompiled | TooLong nat int | HasNUL | HasControl | LeadingDash | NoMatch

text \<open>The loop of \<open>check\<close> over the runes of the value.\<close>

fun first_control :: "string \<Rightarrow> input_error option" where
  "first_control [] = None"
| "first_control (c # cs) =
     (if c = CHR 0x00 then Some HasNUL
      else if starts_control (c # cs) then Some HasControl
      else first_control cs)"

definition input_compile :: "regexps \<Rightarrow> input \<Rightarrow> input_error + input" where
  "input_compile re i =
     (if in_Pattern i = [] then Inl PatternRequired
      else if in_MaxLength i < 0 then Inl (NegativeMaxLength (in_MaxLength i))
      else
        let expr = [CHR 0x5C, CHR ''A''] @ ''(?:'' @ in_Pattern i @ '')'' @ [CHR 0x5C, CHR ''z''] in
        if re_Compile re expr then Inr (i\<lparr>in_re := Some expr\<rparr>) else Inl (PatternNoCompile (in_Pattern i)))"

definition maxLength :: "input \<Rightarrow> int" where
  "maxLength i = (if in_MaxLength i > 0 then in_MaxLength i else defaultMaxInputLength)"

definition input_check :: "regexps \<Rightarrow> input \<Rightarrow> string \<Rightarrow> input_error option" where
  "input_check re i v =
     (case in_re i of
        None \<Rightarrow> Some NotCompiled
      | Some expr \<Rightarrow>
          if int (length v) > maxLength i then Some (TooLong (length v) (maxLength i))
          else if first_control v \<noteq> None then first_control v
          else if \<not> in_AllowLeadingDash i \<and> has_prefix v ''-'' then Some LeadingDash
          else if \<not> re_MatchString re expr v then Some NoMatch
          else None)"

subsection \<open>Validation\<close>

datatype executable_error = ExeRequired | ExeNotAbsolute | ExeNotClean

definition validateExecutable :: "string \<Rightarrow> executable_error option" where
  "validateExecutable path =
     (if path = [] then Some ExeRequired
      else if \<not> IsAbs path then Some ExeNotAbsolute
      else if Clean path \<noteq> path then Some ExeNotClean
      else None)"

datatype operation_error =
    ResponseRequired | ResponseUnknown string | NegativeTimeout int
  | ConfigKey string | ConfigEmpty string | ConfigTooLong string | ConfigControl string
  | InputName string | InputError string input_error
  | ArgvError nat placeholder_error | UndeclaredInput nat string | UnusedInput string

definition check_config :: "(string \<times> string) list \<Rightarrow> string \<Rightarrow> operation_error option" where
  "check_config config key =
     (if \<not> validName key then Some (ConfigKey key)
      else
        let v = (case map_of config key of None \<Rightarrow> [] | Some v \<Rightarrow> v) in
        if v = [] then Some (ConfigEmpty key)
        else if length v > maxResponseConfigValue then Some (ConfigTooLong key)
        else if list_ex ascii_control v then Some (ConfigControl key)
        else None)"

text \<open>The loop that compiles the inputs, over the names still to come.\<close>

fun compile_inputs ::
  "regexps \<Rightarrow> string list \<Rightarrow> (string \<times> input) list \<Rightarrow> operation_error + (string \<times> input) list" where
  "compile_inputs re [] inputs = Inr inputs"
| "compile_inputs re (n # ns) inputs =
     (if \<not> validName n then Inl (InputName n)
      else case map_of inputs n of
             None \<Rightarrow> compile_inputs re ns inputs
           | Some i \<Rightarrow>
               (case input_compile re i of
                  Inl e \<Rightarrow> Inl (InputError n e)
                | Inr i' \<Rightarrow> compile_inputs re ns (AList.update n i' inputs)))"

text \<open>The loop over \<open>argv\<close>: the names referenced, in order.\<close>

fun referenced_names ::
  "(string \<times> input) list \<Rightarrow> nat \<Rightarrow> string list \<Rightarrow> operation_error + string list" where
  "referenced_names inputs i [] = Inr []"
| "referenced_names inputs i (elem # argv) =
     (case placeholders elem of
        Inl e \<Rightarrow> Inl (ArgvError i e)
      | Inr names \<Rightarrow>
          (case find (\<lambda>n. map_of inputs n = None) names of
             Some n \<Rightarrow> Inl (UndeclaredInput i n)
           | None \<Rightarrow>
               (case referenced_names inputs (Suc i) argv of
                  Inl e \<Rightarrow> Inl e
                | Inr ns \<Rightarrow> Inr (names @ ns))))"

definition operation_validate :: "regexps \<Rightarrow> operation \<Rightarrow> operation_error + operation" where
  "operation_validate re op =
     (if op_Response op = [] then Inl ResponseRequired
      else if op_Response op \<noteq> ResponseJSON \<and> op_Response op \<noteq> ResponseText
      then Inl (ResponseUnknown (op_Response op))
      else if op_TimeoutSeconds op < 0 then Inl (NegativeTimeout (op_TimeoutSeconds op))
      else case first_error (check_config (op_ResponseConfig op)) (sortedKeys (op_ResponseConfig op)) of
             Some e \<Rightarrow> Inl e
           | None \<Rightarrow>
               (case compile_inputs re (map fst (op_Inputs op)) (op_Inputs op) of
                  Inl e \<Rightarrow> Inl e
                | Inr inputs \<Rightarrow>
                    (case referenced_names inputs 0 (op_Argv op) of
                       Inl e \<Rightarrow> Inl e
                     | Inr referenced \<Rightarrow>
                         (case find (\<lambda>n. n \<notin> set referenced) (sortedKeys inputs) of
                            Some n \<Rightarrow> Inl (UnusedInput n)
                          | None \<Rightarrow> Inr (op\<lparr>op_Inputs := inputs\<rparr>)))))"

datatype definition_error =
    DefSchemaTooNew int | DefSchemaNegative int | DefName string | DefExecutable executable_error
  | DefProfile string | DefNoOperations | DefOperationName string | DefOperation string operation_error
  | DefDecode string | DefTrailing | DefRead string

fun validate_operations ::
  "regexps \<Rightarrow> string list \<Rightarrow> (string \<times> operation) list \<Rightarrow> definition_error + (string \<times> operation) list" where
  "validate_operations re [] ops = Inr ops"
| "validate_operations re (opName # names) ops =
     (if \<not> validName opName then Inl (DefOperationName opName)
      else case map_of ops opName of
             None \<Rightarrow> validate_operations re names ops
           | Some op \<Rightarrow>
               (case operation_validate re op of
                  Inl e \<Rightarrow> Inl (DefOperation opName e)
                | Inr op' \<Rightarrow> validate_operations re names (AList.update opName op' ops)))"

definition definition_validate :: "regexps \<Rightarrow> consumer_def \<Rightarrow> definition_error + consumer_def" where
  "definition_validate re d =
     (if cd_Schema d > consumer_SchemaVersion then Inl (DefSchemaTooNew (cd_Schema d))
      else if cd_Schema d < 0 then Inl (DefSchemaNegative (cd_Schema d))
      else if \<not> validName (cd_Name d) then Inl (DefName (cd_Name d))
      else case validateExecutable (cd_Executable d) of
             Some e \<Rightarrow> Inl (DefExecutable e)
           | None \<Rightarrow>
               if \<not> validName (cd_Profile d) then Inl (DefProfile (cd_Profile d))
               else if cd_Operations d = [] then Inl DefNoOperations
               else (case validate_operations re (sortedKeys (cd_Operations d)) (cd_Operations d) of
                       Inl e \<Rightarrow> Inl e
                     | Inr ops \<Rightarrow> Inr (d\<lparr>cd_Operations := ops\<rparr>)))"

text \<open>\<open>Parse\<close>; the decoder gives the definition and whether \<open>More\<close> sees another element.\<close>

definition consumer_Parse ::
  "regexps \<Rightarrow> (string \<Rightarrow> string + consumer_def \<times> bool) \<Rightarrow> string \<Rightarrow> definition_error + consumer_def" where
  "consumer_Parse re decode data =
     (case decode data of
        Inl e \<Rightarrow> Inl (DefDecode e)
      | Inr (d, trailing) \<Rightarrow> if trailing then Inl DefTrailing else definition_validate re d)"

text \<open>\<open>LoadFile\<close>; \<open>read\<close> gives the bytes of a path.\<close>

definition consumer_LoadFile ::
  "regexps \<Rightarrow> (string \<Rightarrow> string + string) \<Rightarrow> (string \<Rightarrow> string + consumer_def \<times> bool) \<Rightarrow> string \<Rightarrow>
   definition_error + consumer_def" where
  "consumer_LoadFile re read decode path =
     (case read path of
        Inl e \<Rightarrow> Inl (DefRead e)
      | Inr data \<Rightarrow> consumer_Parse re decode data)"

text \<open>
  \<open>LoadAll\<close> on a directory that exists: the names of its \<open>.json\<close> files in order, each loaded by
  \<open>load\<close>, refusing two files that declare one consumer.
\<close>

datatype load_all_error = LoadFailed string definition_error | DeclaredTwice string string string

fun load_all_loop ::
  "(string \<Rightarrow> definition_error + consumer_def) \<Rightarrow> string list \<Rightarrow> (string \<times> consumer_def) list \<Rightarrow>
   (string \<times> string) list \<Rightarrow> load_all_error + (string \<times> consumer_def) list" where
  "load_all_loop load [] defs sources = Inr defs"
| "load_all_loop load (name # names) defs sources =
     (case load name of
        Inl e \<Rightarrow> Inl (LoadFailed name e)
      | Inr def \<Rightarrow>
          (case map_of sources (cd_Name def) of
             Some prior \<Rightarrow> Inl (DeclaredTwice prior name (cd_Name def))
           | None \<Rightarrow> load_all_loop load names ((cd_Name def, def) # defs) ((cd_Name def, name) # sources)))"

definition LoadAll ::
  "(string \<Rightarrow> definition_error + consumer_def) \<Rightarrow> (string \<times> bool) list \<Rightarrow>
   load_all_error + (string \<times> consumer_def) list" where
  "LoadAll load entries =
     load_all_loop load (sort (map fst (filter (\<lambda>(n, isDir). \<not> isDir \<and> has_suffix n ''.json'') entries))) [] []"

subsection \<open>Building an argument vector\<close>

datatype argv_error =
    UnknownOperation string | UnknownInput string | InputRequired string
  | InputRefused string input_error | ArgvSubstitute nat placeholder_error

text \<open>The loop over the declared inputs: the values substituted.\<close>

fun input_values ::
  "regexps \<Rightarrow> (string \<times> input) list \<Rightarrow> (string \<times> string) list \<Rightarrow> string list \<Rightarrow>
   argv_error + (string \<times> string) list" where
  "input_values re declared inputs [] = Inr []"
| "input_values re declared inputs (n # ns) =
     (case map_of declared n of
        None \<Rightarrow> input_values re declared inputs ns
      | Some i \<Rightarrow>
          (case map_of inputs n of
             None \<Rightarrow>
               if \<not> in_Optional i then Inl (InputRequired n)
               else (case input_values re declared inputs ns of
                       Inl e \<Rightarrow> Inl e | Inr values \<Rightarrow> Inr ((n, []) # values))
           | Some v \<Rightarrow>
               (case input_check re i v of
                  Some e \<Rightarrow> Inl (InputRefused n e)
                | None \<Rightarrow>
                    (case input_values re declared inputs ns of
                       Inl e \<Rightarrow> Inl e | Inr values \<Rightarrow> Inr ((n, v) # values)))))"

fun render_argv :: "(string \<times> string) list \<Rightarrow> nat \<Rightarrow> string list \<Rightarrow> argv_error + string list" where
  "render_argv values i [] = Inr []"
| "render_argv values i (elem # elems) =
     (case substitute elem values of
        Inl e \<Rightarrow> Inl (ArgvSubstitute i e)
      | Inr rendered \<Rightarrow>
          (case render_argv values (Suc i) elems of Inl e \<Rightarrow> Inl e | Inr argv \<Rightarrow> Inr (rendered # argv)))"

definition BuildArgv ::
  "regexps \<Rightarrow> consumer_def \<Rightarrow> string \<Rightarrow> (string \<times> string) list \<Rightarrow> argv_error + string list" where
  "BuildArgv re d opName inputs =
     (case map_of (cd_Operations d) opName of
        None \<Rightarrow> Inl (UnknownOperation opName)
      | Some op \<Rightarrow>
          (case find (\<lambda>given. map_of (op_Inputs op) given = None) (sortedKeys inputs) of
             Some given \<Rightarrow> Inl (UnknownInput given)
           | None \<Rightarrow>
               (case input_values re (op_Inputs op) inputs (sortedKeys (op_Inputs op)) of
                  Inl e \<Rightarrow> Inl e
                | Inr values \<Rightarrow>
                    (case render_argv values 0 (op_Argv op) of
                       Inl e \<Rightarrow> Inl e
                     | Inr argv \<Rightarrow> Inr (cd_Executable d # argv)))))"

subsection \<open>What a template element means\<close>

text \<open>
  The reference reading of an \<open>argv\<close> element: literal characters and references, and what it
  becomes under given values.
\<close>

datatype piece = Lit char | Var string

fun unparse :: "piece \<Rightarrow> string" where
  "unparse (Lit c) = [c]"
| "unparse (Var n) = ''${'' @ n @ ''}''"

fun fill :: "(string \<times> string) list \<Rightarrow> piece \<Rightarrow> string" where
  "fill values (Lit c) = [c]"
| "fill values (Var n) = (case map_of values n of None \<Rightarrow> [] | Some v \<Rightarrow> v)"

fun piece_vars :: "piece list \<Rightarrow> string list" where
  "piece_vars [] = []"
| "piece_vars (Lit c # ps) = piece_vars ps"
| "piece_vars (Var n # ps) = n # piece_vars ps"

text \<open>\<open>template elem ps\<close>: the element is written as \<open>ps\<close>, and every scan of it reads it so.\<close>

definition template :: "string \<Rightarrow> piece list \<Rightarrow> bool" where
  "template elem ps \<longleftrightarrow>
     concat (map unparse ps) = elem \<and> placeholders elem = Inr (piece_vars ps) \<and>
     (\<forall>values. set (piece_vars ps) \<subseteq> fst ` set values \<longrightarrow>
        substitute elem values = Inr (concat (map (fill values) ps)))"

lemma map_of_key: "n \<in> fst ` set m \<Longrightarrow> \<exists>v. map_of m n = Some v"
  by (metis map_of_eq_None_iff not_None_eq)

lemma placeholders_template:
  "placeholders s = Inr names \<Longrightarrow> \<exists>ps. template s ps \<and> names = piece_vars ps"
proof (induction s arbitrary: names rule: length_induct)
  case (1 s)
  show ?case
  proof (cases s)
    case Nil
    then have "template s []" by (simp add: template_def placeholders.simps[of "[]"] substitute.simps[of "[]"])
    then show ?thesis using 1(2) Nil by (auto simp: placeholders.simps[of "[]"])
  next
    case (Cons c rest)
    show ?thesis
    proof (cases "c \<noteq> CHR ''$'' \<or> rest = [] \<or> hd rest \<noteq> CHR ''{''")
      case True
      then have p: "placeholders s = placeholders rest" using Cons by (subst placeholders.simps) auto
      then obtain ps where ps: "template rest ps" "names = piece_vars ps" using 1 Cons by auto
      have "template s (Lit c # ps)"
        using ps(1) Cons True p by (auto simp: template_def substitute.simps[of "c # rest"])
      then show ?thesis using ps(2) by (intro exI[of _ "Lit c # ps"]) simp
    next
      case False
      obtain e where e: "index_byte (tl rest) CHR ''}'' = Some e"
        using 1(2) Cons False by (auto simp: placeholders.simps[of "c # rest"] split: option.splits)
      let ?n = "take e (tl rest)" and ?r = "drop (Suc e) (tl rest)"
      obtain names' where n: "validName ?n" "placeholders ?r = Inr names'" "names = ?n # names'"
        using 1(2) Cons False e
        by (auto simp: placeholders.simps[of "c # rest"] Let_def split: if_splits sum.splits)
      have "length ?r < length s" using Cons by simp
      then obtain ps where ps: "template ?r ps" "names' = piece_vars ps" using 1(1) n(2) by blast
      have "tl rest = ?n @ CHR ''}'' # ?r" by (rule index_byte_split[OF e])
      then have "s = ''${'' @ ?n @ CHR ''}'' # ?r"
        using Cons False by (cases rest) simp_all
      moreover have "placeholders s = Inr (?n # piece_vars ps)" using 1(2) n ps by simp
      moreover have "substitute s vs = Inr (concat (map (fill vs) (Var ?n # ps)))"
        if v: "set (piece_vars (Var ?n # ps)) \<subseteq> fst ` set vs" for vs
      proof -
        obtain v where "map_of vs ?n = Some v" using v map_of_key[of ?n vs] by auto
        then show ?thesis
          using Cons False e v ps(1) by (subst substitute.simps) (simp add: template_def)
      qed
      ultimately have "template s (Var ?n # ps)" using ps(1) by (auto simp: template_def)
      then show ?thesis using n(3) ps(2) by (intro exI[of _ "Var ?n # ps"]) simp
    qed
  qed
qed

subsection \<open>What a validated definition is\<close>

definition compiled :: "regexps \<Rightarrow> input \<Rightarrow> bool" where
  "compiled re i \<longleftrightarrow> (\<exists>expr. in_re i = Some expr \<and> re_Compile re expr)"

definition operation_ok :: "regexps \<Rightarrow> operation \<Rightarrow> bool" where
  "operation_ok re op \<longleftrightarrow>
     op_Response op \<in> {ResponseJSON, ResponseText} \<and> 0 \<le> op_TimeoutSeconds op \<and>
     (\<forall>n i. map_of (op_Inputs op) n = Some i \<longrightarrow> validName n \<and> compiled re i) \<and>
     (\<forall>elem\<in>set (op_Argv op). \<exists>ps. template elem ps \<and> set (piece_vars ps) \<subseteq> fst ` set (op_Inputs op)) \<and>
     (\<forall>n\<in>fst ` set (op_Inputs op). \<exists>elem\<in>set (op_Argv op). \<exists>ps. template elem ps \<and> n \<in> set (piece_vars ps)) \<and>
     (\<forall>key v. map_of (op_ResponseConfig op) key = Some v \<longrightarrow>
        validName key \<and> v \<noteq> [] \<and> length v \<le> maxResponseConfigValue \<and> \<not> list_ex ascii_control v)"

definition definition_ok :: "regexps \<Rightarrow> consumer_def \<Rightarrow> bool" where
  "definition_ok re d \<longleftrightarrow>
     validName (cd_Name d) \<and> validName (cd_Profile d) \<and> validateExecutable (cd_Executable d) = None \<and>
     cd_Operations d \<noteq> [] \<and>
     (\<forall>n op. map_of (cd_Operations d) n = Some op \<longrightarrow> validName n \<and> operation_ok re op)"

lemma input_compile_Inr: "input_compile re i = Inr i' \<Longrightarrow> compiled re i'"
  by (auto simp: input_compile_def Let_def compiled_def split: if_splits)

lemma compile_inputs_Inr:
  "compile_inputs re ns inputs = Inr inputs' \<Longrightarrow>
   fst ` set inputs' = fst ` set inputs \<and>
   (\<forall>n\<in>set ns. \<forall>i'. map_of inputs' n = Some i' \<longrightarrow> validName n \<and> compiled re i') \<and>
   (\<forall>n i. map_of inputs n = Some i \<and> compiled re i \<longrightarrow> (\<exists>i'. map_of inputs' n = Some i' \<and> compiled re i'))"
proof (induction re ns inputs arbitrary: inputs' rule: compile_inputs.induct)
  case (2 re n ns inputs)
  from 2(3) have v: "validName n" by (simp split: if_splits)
  show ?case
  proof (cases "map_of inputs n")
    case None
    then have r: "compile_inputs re ns inputs = Inr inputs'" using 2(3) v by simp
    have IH: "fst ` set inputs' = fst ` set inputs"
      "\<forall>n\<in>set ns. \<forall>i'. map_of inputs' n = Some i' \<longrightarrow> validName n \<and> compiled re i'"
      "\<forall>n i. map_of inputs n = Some i \<and> compiled re i \<longrightarrow> (\<exists>i'. map_of inputs' n = Some i' \<and> compiled re i')"
      using 2(1) None v r by auto
    have "map_of inputs' n = None" using None IH(1) by (simp add: map_of_eq_None_iff)
    then show ?thesis using IH by simp
  next
    case (Some i)
    then obtain i1 where i1: "input_compile re i = Inr i1" "compile_inputs re ns (AList.update n i1 inputs) = Inr inputs'"
      using 2(3) v by (auto split: sum.splits)
    let ?u = "AList.update n i1 inputs"
    have u: "map_of ?u = (map_of inputs)(n \<mapsto> i1)" by (rule update_conv')
    have IH: "fst ` set inputs' = fst ` set ?u"
      "\<forall>n\<in>set ns. \<forall>i'. map_of inputs' n = Some i' \<longrightarrow> validName n \<and> compiled re i'"
      "\<forall>n i. map_of ?u n = Some i \<and> compiled re i \<longrightarrow> (\<exists>i'. map_of inputs' n = Some i' \<and> compiled re i')"
      using 2(2)[of i i1 inputs'] Some v i1 by auto
    have "n \<in> fst ` set inputs" using Some by (metis domI dom_map_of_conv_image_fst)
    then have "fst ` set ?u = fst ` set inputs" using dom_map_of_conv_image_fst[of ?u] dom_map_of_conv_image_fst[of inputs] u
      by auto
    moreover have "\<exists>i'. map_of inputs' n = Some i' \<and> compiled re i'"
      using IH(3) u input_compile_Inr[OF i1(1)] by simp
    ultimately show ?thesis using IH u v by (auto split: if_splits)
  qed
qed simp

lemma referenced_names_Inr:
  "referenced_names inputs i argv = Inr ns \<Longrightarrow>
   (\<forall>elem\<in>set argv. \<exists>ps. template elem ps \<and> set (piece_vars ps) \<subseteq> fst ` set inputs) \<and>
   (\<forall>n\<in>set ns. \<exists>elem\<in>set argv. \<exists>ps. template elem ps \<and> n \<in> set (piece_vars ps))"
proof (induction inputs i argv arbitrary: ns rule: referenced_names.induct)
  case (2 inputs i elem argv)
  obtain names ns' where n: "placeholders elem = Inr names" "find (\<lambda>n. map_of inputs n = None) names = None"
    "referenced_names inputs (Suc i) argv = Inr ns'" "ns = names @ ns'"
    using 2(2) by (auto split: sum.splits option.splits)
  obtain ps where ps: "template elem ps" "names = piece_vars ps" using placeholders_template[OF n(1)] by blast
  have "\<forall>x\<in>set names. map_of inputs x \<noteq> None" using n(2) by (auto simp: find_None_iff)
  then have "set (piece_vars ps) \<subseteq> fst ` set inputs"
    using ps(2) by (auto simp: map_of_eq_None_iff)
  then show ?case using 2(1)[OF n(1,2,3)] ps n(4) by auto
qed simp

lemma operation_validate_Inr:
  assumes "operation_validate re op = Inr op'"
  shows "operation_ok re op' \<and> op_Argv op' = op_Argv op \<and> op_Response op' = op_Response op"
proof -
  obtain inputs referenced where i: "compile_inputs re (map fst (op_Inputs op)) (op_Inputs op) = Inr inputs"
    "referenced_names inputs 0 (op_Argv op) = Inr referenced"
    "find (\<lambda>n. n \<notin> set referenced) (sortedKeys inputs) = None"
    "op' = op\<lparr>op_Inputs := inputs\<rparr>" "op_Response op \<in> {ResponseJSON, ResponseText}" "0 \<le> op_TimeoutSeconds op"
    "first_error (check_config (op_ResponseConfig op)) (sortedKeys (op_ResponseConfig op)) = None"
    using assms by (auto simp: operation_validate_def split: if_splits option.splits sum.splits)
  note c = compile_inputs_Inr[OF i(1)] and r = referenced_names_Inr[OF i(2)]
  have inputs: "validName n \<and> compiled re x" if n: "map_of inputs n = Some x" for n x
  proof -
    have "n \<in> fst ` set inputs" using n by (metis domI dom_map_of_conv_image_fst)
    then have "n \<in> set (map fst (op_Inputs op))" using c by simp
    then show ?thesis using c n by blast
  qed
  have used: "\<exists>elem\<in>set (op_Argv op). \<exists>ps. template elem ps \<and> n \<in> set (piece_vars ps)"
    if "n \<in> fst ` set inputs" for n
    using that i(3) r by (auto simp: find_None_iff)
  have config: "validName key \<and> v \<noteq> [] \<and> length v \<le> maxResponseConfigValue \<and> \<not> list_ex ascii_control v"
    if "map_of (op_ResponseConfig op) key = Some v" for key v
  proof -
    have "key \<in> set (sortedKeys (op_ResponseConfig op))"
      using that by (metis domI dom_map_of_conv_image_fst set_sortedKeys)
    then show ?thesis using i(7) that by (auto simp: first_error_None check_config_def split: if_splits)
  qed
  show ?thesis
    using i inputs used config r by (simp add: operation_ok_def)
qed

lemma validate_operations_Inr:
  "validate_operations re names ops = Inr ops' \<Longrightarrow>
   fst ` set ops' = fst ` set ops \<and>
   (\<forall>n\<in>set names. \<forall>op. map_of ops' n = Some op \<longrightarrow> validName n \<and> operation_ok re op) \<and>
   (\<forall>n op. map_of ops n = Some op \<and> operation_ok re op \<longrightarrow> (\<exists>op'. map_of ops' n = Some op' \<and> operation_ok re op'))"
proof (induction re names ops arbitrary: ops' rule: validate_operations.induct)
  case (2 re n ns ops)
  from 2(3) have v: "validName n" by (simp split: if_splits)
  show ?case
  proof (cases "map_of ops n")
    case None
    then have r: "validate_operations re ns ops = Inr ops'" using 2(3) v by simp
    have IH: "fst ` set ops' = fst ` set ops"
      "\<forall>n\<in>set ns. \<forall>op. map_of ops' n = Some op \<longrightarrow> validName n \<and> operation_ok re op"
      "\<forall>n op. map_of ops n = Some op \<and> operation_ok re op \<longrightarrow> (\<exists>op'. map_of ops' n = Some op' \<and> operation_ok re op')"
      using 2(1) None v r by auto
    have "map_of ops' n = None" using None IH(1) by (simp add: map_of_eq_None_iff)
    then show ?thesis using IH by simp
  next
    case (Some op)
    then obtain op1 where op1: "operation_validate re op = Inr op1"
      "validate_operations re ns (AList.update n op1 ops) = Inr ops'"
      using 2(3) v by (auto split: sum.splits)
    let ?u = "AList.update n op1 ops"
    have u: "map_of ?u = (map_of ops)(n \<mapsto> op1)" by (rule update_conv')
    have IH: "fst ` set ops' = fst ` set ?u"
      "\<forall>n\<in>set ns. \<forall>op. map_of ops' n = Some op \<longrightarrow> validName n \<and> operation_ok re op"
      "\<forall>n op. map_of ?u n = Some op \<and> operation_ok re op \<longrightarrow> (\<exists>op'. map_of ops' n = Some op' \<and> operation_ok re op')"
      using 2(2)[of op op1 ops'] Some v op1 by auto
    have "n \<in> fst ` set ops" using Some by (metis domI dom_map_of_conv_image_fst)
    then have "fst ` set ?u = fst ` set ops" using dom_map_of_conv_image_fst[of ?u] dom_map_of_conv_image_fst[of ops] u
      by auto
    moreover have "\<exists>op'. map_of ops' n = Some op' \<and> operation_ok re op'"
      using IH(3) u operation_validate_Inr[OF op1(1)] by simp
    ultimately show ?thesis using IH u v by (auto split: if_splits)
  qed
qed simp

lemma definition_validate_Inr:
  assumes "definition_validate re d = Inr d'"
  shows "definition_ok re d' \<and> cd_Executable d' = cd_Executable d \<and> cd_Name d' = cd_Name d"
proof -
  obtain ops where o: "validate_operations re (sortedKeys (cd_Operations d)) (cd_Operations d) = Inr ops"
    "d' = d\<lparr>cd_Operations := ops\<rparr>" "validName (cd_Name d)" "validName (cd_Profile d)"
    "validateExecutable (cd_Executable d) = None" "cd_Operations d \<noteq> []"
    using assms by (auto simp: definition_validate_def split: if_splits option.splits sum.splits)
  note v = validate_operations_Inr[OF o(1)]
  have "validName n \<and> operation_ok re op" if n: "map_of ops n = Some op" for n op
  proof -
    have "n \<in> fst ` set ops" using n by (metis domI dom_map_of_conv_image_fst)
    then have "n \<in> set (sortedKeys (cd_Operations d))" using v by simp
    then show ?thesis using v n by blast
  qed
  moreover have "ops \<noteq> []" using v o(6) by auto
  ultimately show ?thesis using o by (simp add: definition_ok_def)
qed

lemma definition_ok_op:
  "definition_ok re d \<Longrightarrow> map_of (cd_Operations d) n = Some op \<Longrightarrow> operation_ok re op"
  by (auto simp: definition_ok_def)

text \<open>The values an accepted request substitutes: declared, given or optional, and checked.\<close>

definition request_ok :: "regexps \<Rightarrow> operation \<Rightarrow> (string \<times> string) list \<Rightarrow> bool" where
  "request_ok re op inputs \<longleftrightarrow>
     (\<forall>n v. map_of inputs n = Some v \<longrightarrow> map_of (op_Inputs op) n \<noteq> None) \<and>
     (\<forall>n i. map_of (op_Inputs op) n = Some i \<longrightarrow>
        (case map_of inputs n of None \<Rightarrow> in_Optional i | Some v \<Rightarrow> input_check re i v = None))"

lemma input_values_Inr:
  "input_values re declared inputs ns = Inr values \<Longrightarrow>
   (\<forall>n. map_of values n = (if n \<in> set ns \<and> map_of declared n \<noteq> None
      then Some (case map_of inputs n of None \<Rightarrow> [] | Some v \<Rightarrow> v) else None)) \<and>
   (\<forall>n\<in>set ns. \<forall>i. map_of declared n = Some i \<longrightarrow>
      (case map_of inputs n of None \<Rightarrow> in_Optional i | Some v \<Rightarrow> input_check re i v = None))"
proof (induction re declared inputs ns arbitrary: "values" rule: input_values.induct)
  case (2 re declared inputs n ns)
  show ?case
  proof (cases "map_of declared n")
    case None
    then show ?thesis using 2(1)[OF None, of "values"] 2(4) by auto
  next
    case (Some i)
    show ?thesis
    proof (cases "map_of inputs n")
      case None
      then obtain vs where "in_Optional i" "input_values re declared inputs ns = Inr vs" "values = (n, []) # vs"
        using 2(4) Some by (auto split: if_splits sum.splits)
      then show ?thesis using 2(2)[OF Some None, of vs] Some None by auto
    next
      case v: (Some v)
      then obtain vs where "input_check re i v = None" "input_values re declared inputs ns = Inr vs" "values = (n, v) # vs"
        using 2(4) Some by (auto split: option.splits sum.splits)
      then show ?thesis using 2(3)[OF Some v, of vs] Some v by auto
    qed
  qed
qed simp

lemma input_values_total:
  "\<forall>n\<in>set ns. \<forall>i. map_of declared n = Some i \<longrightarrow>
      (case map_of inputs n of None \<Rightarrow> in_Optional i | Some v \<Rightarrow> input_check re i v = None) \<Longrightarrow>
   \<exists>values. input_values re declared inputs ns = Inr values"
proof (induction ns)
  case (Cons n ns)
  then obtain vs where "input_values re declared inputs ns = Inr vs" by auto
  then show ?case using Cons.prems by (auto split: option.splits)
qed simp

lemma render_argv_Inr:
  "render_argv values i elems = Inr argv \<longleftrightarrow> list_all2 (\<lambda>elem out. substitute elem values = Inr out) elems argv"
proof (induction elems arbitrary: i argv)
  case (Cons elem elems)
  show ?case
    using Cons.IH[of "Suc i" "tl argv"] Cons.IH[of "Suc i"]
    by (cases argv; cases "substitute elem values"; cases "render_argv values (Suc i) elems") auto
qed auto

text \<open>What an element becomes for given inputs: an input left out reads as the empty string.\<close>

definition rendered :: "(string \<times> string) list \<Rightarrow> string \<Rightarrow> string \<Rightarrow> bool" where
  "rendered inputs elem out \<longleftrightarrow> (\<exists>ps. template elem ps \<and> out = concat (map (fill inputs) ps))"

lemma fill_values:
  assumes "\<forall>n. map_of vs n = (if n \<in> D then Some (case map_of inputs n of None \<Rightarrow> [] | Some v \<Rightarrow> v) else None)"
    and "set (piece_vars ps) \<subseteq> D"
  shows "map (fill vs) ps = map (fill inputs) ps"
  using assms(2)
proof (induction ps)
  case (Cons p ps)
  then show ?case using assms(1) by (cases p) (auto split: option.splits)
qed simp

lemma BuildArgv_iff:
  assumes ok: "definition_ok re d" and op: "map_of (cd_Operations d) opName = Some op"
  shows "(\<exists>argv. BuildArgv re d opName inputs = Inr argv) \<longleftrightarrow> request_ok re op inputs"
    and "BuildArgv re d opName inputs = Inr argv \<Longrightarrow>
      \<exists>rest. argv = cd_Executable d # rest \<and> list_all2 (rendered inputs) (op_Argv op) rest"
proof -
  have ook: "operation_ok re op" using definition_ok_op[OF ok op] .
  let ?given = "find (\<lambda>given. map_of (op_Inputs op) given = None) (sortedKeys inputs)"
  let ?vals = "input_values re (op_Inputs op) inputs (sortedKeys (op_Inputs op))"
  let ?D = "fst ` set (op_Inputs op)"
  have given: "?given = None \<longleftrightarrow> (\<forall>n v. map_of inputs n = Some v \<longrightarrow> map_of (op_Inputs op) n \<noteq> None)"
    unfolding find_None_iff set_sortedKeys dom_map_of_conv_image_fst[symmetric]
    by (auto simp: domIff) (metis option.distinct(1))
  have keys: "n \<in> set (sortedKeys (op_Inputs op)) \<longleftrightarrow> map_of (op_Inputs op) n \<noteq> None" for n
    by (simp add: map_of_eq_None_iff)
  have vals: "\<forall>n. map_of vs n = (if n \<in> ?D then Some (case map_of inputs n of None \<Rightarrow> [] | Some v \<Rightarrow> v) else None)"
    if "?vals = Inr vs" for vs
    using input_values_Inr[OF that] by (simp add: map_of_eq_None_iff)
  have sub: "\<exists>out. substitute elem vs = Inr out \<and> rendered inputs elem out"
    if v: "?vals = Inr vs" and elem: "elem \<in> set (op_Argv op)" for vs elem
  proof -
    obtain ps where ps: "template elem ps" "set (piece_vars ps) \<subseteq> ?D"
      using ook elem by (auto simp: operation_ok_def)
    have "?D \<subseteq> fst ` set vs"
    proof
      fix n assume "n \<in> ?D"
      then have "map_of vs n \<noteq> None" using vals[OF v] by simp
      then show "n \<in> fst ` set vs" by (simp add: map_of_eq_None_iff)
    qed
    then have "substitute elem vs = Inr (concat (map (fill vs) ps))" using ps by (auto simp: template_def)
    also have "map (fill vs) ps = map (fill inputs) ps" by (rule fill_values[OF vals[OF v] ps(2)])
    finally show ?thesis using ps(1) by (auto simp: rendered_def)
  qed
  have req: "(\<forall>n\<in>set (sortedKeys (op_Inputs op)). \<forall>i. map_of (op_Inputs op) n = Some i \<longrightarrow>
      (case map_of inputs n of None \<Rightarrow> in_Optional i | Some v \<Rightarrow> input_check re i v = None)) \<longleftrightarrow>
    (\<forall>n i. map_of (op_Inputs op) n = Some i \<longrightarrow>
      (case map_of inputs n of None \<Rightarrow> in_Optional i | Some v \<Rightarrow> input_check re i v = None))"
    using keys by (metis option.distinct(1))
  show "(\<exists>argv. BuildArgv re d opName inputs = Inr argv) \<longleftrightarrow> request_ok re op inputs"
  proof
    assume "\<exists>argv. BuildArgv re d opName inputs = Inr argv"
    then obtain vs where "?given = None" "?vals = Inr vs"
      using op by (auto simp: BuildArgv_def split: option.splits sum.splits)
    then show "request_ok re op inputs"
      using given input_values_Inr[of re "op_Inputs op" inputs _ vs] req by (auto simp: request_ok_def)
  next
    assume r: "request_ok re op inputs"
    then have g: "?given = None" using given by (simp add: request_ok_def)
    obtain vs where vs: "?vals = Inr vs"
      using input_values_total[where declared = "op_Inputs op" and inputs = inputs and re = re and ns = "sortedKeys (op_Inputs op)"] r req by (auto simp: request_ok_def)
    obtain f where "\<forall>elem\<in>set (op_Argv op). substitute elem vs = Inr (f elem)"
      using bchoice[of "set (op_Argv op)" "\<lambda>elem out. substitute elem vs = Inr out"] sub[OF vs] by blast
    then have "render_argv vs 0 (op_Argv op) = Inr (map f (op_Argv op))"
      by (simp add: render_argv_Inr list_all2_map2 list_all2_same)
    then show "\<exists>argv. BuildArgv re d opName inputs = Inr argv"
      using op g vs by (simp add: BuildArgv_def)
  qed
  assume "BuildArgv re d opName inputs = Inr argv"
  then obtain vs rest where "?vals = Inr vs" and r: "render_argv vs 0 (op_Argv op) = Inr rest" "argv = cd_Executable d # rest"
    using op by (auto simp: BuildArgv_def split: option.splits sum.splits)
  note s = sub[OF this(1)]
  have "list_all2 (rendered inputs) (op_Argv op) rest"
    using r(1) unfolding render_argv_Inr
    by (rule list.rel_mono_strong) (use s in fastforce)
  then show "\<exists>rest. argv = cd_Executable d # rest \<and> list_all2 (rendered inputs) (op_Argv op) rest"
    using r(2) by blast
qed

text \<open>Where the first character of a filled element can come from.\<close>

lemma fill_first_char:
  assumes "concat (map (fill inputs) ps) = c # rest"
  shows "(\<exists>vars ps'. ps = map Var vars @ Lit c # ps' \<and> (\<forall>n\<in>set vars. fill inputs (Var n) = [])) \<or>
    (\<exists>n\<in>set (piece_vars ps). \<exists>v. map_of inputs n = Some v \<and> has_prefix v [c])"
  using assms
proof (induction ps)
  case (Cons p ps)
  show ?case
  proof (cases p)
    case (Lit x)
    then have "p # ps = map Var [] @ Lit c # ps \<and> (\<forall>n\<in>set []. fill inputs (Var n) = [])"
      using Cons.prems by simp
    then show ?thesis by blast
  next
    case (Var n)
    show ?thesis
    proof (cases "fill inputs (Var n) = []")
      case True
      then have "concat (map (fill inputs) ps) = c # rest" using Cons.prems Var by simp
      from Cons.IH[OF this] show ?thesis
      proof
        assume "\<exists>vars ps'. ps = map Var vars @ Lit c # ps' \<and> (\<forall>n\<in>set vars. fill inputs (Var n) = [])"
        then obtain vars ps' where "ps = map Var vars @ Lit c # ps'" "\<forall>n\<in>set vars. fill inputs (Var n) = []" by blast
        then have "p # ps = map Var (n # vars) @ Lit c # ps' \<and> (\<forall>m\<in>set (n # vars). fill inputs (Var m) = [])"
          using Var True by simp
        then show ?thesis by blast
      qed (use Var in auto)
    next
      case False
      then obtain v where v: "map_of inputs n = Some v" "v \<noteq> []" by (auto split: option.splits)
      then have "has_prefix v [c]" using Cons.prems Var by (cases v) (auto simp: has_prefix_def)
      then show ?thesis using v(1) Var by auto
    qed
  qed
qed simp

lemma input_check_None:
  "input_check re i v = None \<Longrightarrow>
   (\<exists>expr. in_re i = Some expr \<and> re_MatchString re expr v) \<and> int (length v) \<le> maxLength i \<and>
   first_control v = None \<and> (in_AllowLeadingDash i \<or> \<not> has_prefix v ''-'')"
  by (auto simp: input_check_def split: option.splits if_splits)

lemma first_control_None: "first_control v = None \<Longrightarrow> \<not> list_ex ascii_control v"
  by (induction v) (auto simp: starts_control_def ascii_control_def split: if_splits)

subsection \<open>Properties\<close>

text \<open>
  (C28) A definition that passes validation fixes what runs. A client's request either names
  no operation of it, or is accepted exactly when every input it gives is declared and passes
  its check and every input it leaves out is optional; nothing else can fail. The argument
  vector is then the definition's absolute executable followed by one element per template
  element, with each placeholder replaced in place by the value given.
\<close>

theorem BuildArgv_exact:
  assumes "definition_validate re d = Inr d'" "map_of (cd_Operations d') opName = Some op"
  shows "((\<exists>argv. BuildArgv re d' opName inputs = Inr argv) \<longleftrightarrow> request_ok re op inputs) \<and>
    (\<forall>argv. BuildArgv re d' opName inputs = Inr argv \<longrightarrow>
       (\<exists>rest. argv = cd_Executable d # rest \<and> IsAbs (cd_Executable d) \<and>
          list_all2 (rendered inputs) (op_Argv op) rest))"
proof -
  have ok: "definition_ok re d'" "cd_Executable d' = cd_Executable d"
    using definition_validate_Inr[OF assms(1)] by auto
  moreover have "IsAbs (cd_Executable d)"
    using ok by (auto simp: definition_ok_def validateExecutable_def split: if_splits)
  ultimately show ?thesis using BuildArgv_iff[OF ok(1) assms(2)] by metis
qed

text \<open>Regular expressions for examples: the wrapped pattern \<open>[a-z/]+\<close>, the only one that compiles.\<close>

definition toy_regexps :: regexps where
  "toy_regexps =
     \<lparr>re_Compile = (\<lambda>e. e = [CHR 0x5C, CHR ''A''] @ ''(?:[a-z/]+)'' @ [CHR 0x5C, CHR ''z'']),
      re_MatchString = (\<lambda>e v. v \<noteq> [] \<and> list_all (\<lambda>c. c = slash \<or> (CHR ''a'' \<le> c \<and> c \<le> CHR ''z'')) v)\<rparr>"

definition example_def :: "bool \<Rightarrow> string \<Rightarrow> consumer_def" where
  "example_def optional elem =
     \<lparr>cd_Schema = 1, cd_Name = ''tea'', cd_Executable = ''/usr/bin/tea'', cd_Profile = ''tea'',
      cd_Operations =
        [(''repos-list'',
          \<lparr>op_Argv = [''repos'', ''list'', elem],
           op_Inputs = [(''owner'', \<lparr>in_Pattern = ''[a-z/]+'', in_MaxLength = 0, in_Optional = optional,
                                    in_AllowLeadingDash = False, in_re = None\<rparr>)],
           op_Response = ''json'', op_TimeoutSeconds = 0, op_ResponseConfig = []\<rparr>)]\<rparr>"

definition validated :: "consumer_def \<Rightarrow> consumer_def" where
  "validated d = (case definition_validate toy_regexps d of Inl _ \<Rightarrow> d | Inr d' \<Rightarrow> d')"

lemma example_validates:
  "definition_validate toy_regexps (example_def False ''--owner=${owner}'') = Inr (validated (example_def False ''--owner=${owner}''))"
  "map_of (cd_Operations (validated (example_def False ''--owner=${owner}''))) ''repos-list'' =
     Some (the (map_of (cd_Operations (validated (example_def False ''--owner=${owner}''))) ''repos-list''))"
  by code_simp+

theorem BuildArgv_exact_witness:
  "\<exists>argv. BuildArgv toy_regexps (validated (example_def False ''--owner=${owner}'')) ''repos-list'' [(''owner'', ''acme'')] = Inr argv \<and>
     hd argv = ''/usr/bin/tea''"
proof -
  let ?d = "validated (example_def False ''--owner=${owner}'')"
  let ?b = "BuildArgv toy_regexps ?d ''repos-list'' [(''owner'', ''acme'')]"
  have "\<not> isl ?b" by code_simp
  then obtain argv where b: "?b = Inr argv" by (cases ?b) auto
  then obtain rest where "argv = cd_Executable (example_def False ''--owner=${owner}'') # rest"
    using BuildArgv_exact[OF example_validates] by blast
  then show ?thesis using b by (simp add: example_def_def)
qed



text \<open>
  The check of a leading dash looks at the value, not at the element it becomes part of,
  so leaving out an optional input can turn an element into an option: the template
  \<open>${owner}-force\<close> of a valid definition becomes \<open>-force\<close>.
\<close>

theorem omitted_input_makes_option:
  "(case definition_validate toy_regexps (example_def True ''${owner}-force'') of
      Inl _ \<Rightarrow> False
    | Inr d \<Rightarrow> BuildArgv toy_regexps d ''repos-list'' [] = Inr [''/usr/bin/tea'', ''repos'', ''list'', ''-force''] \<and>
        BuildArgv toy_regexps d ''repos-list'' [(''owner'', ''-x'')] = Inl (InputRefused ''owner'' LeadingDash))"
  by code_simp

end
