(* ===== verification/Broker_Protocol.thy ===== *)
theory Broker_Protocol
  imports Consumer "HOL-Library.Word"
begin

text \<open>
  The wire protocol of the broker (\<open>internal/broker/protocol.go\<close>) and its one-call client
  (\<open>internal/broker/client.go\<close>): frames with a big-endian 32-bit length, operation references,
  requests and responses. A raw JSON value is its text.
\<close>

subsection \<open>Constants, requests and responses\<close>

definition ProtocolVersion :: int where "ProtocolVersion = 1"
definition MaxRequestBytes :: nat where "MaxRequestBytes = 65536"
definition MaxResponseBytes :: nat where "MaxResponseBytes = 1048576"

record brequest =
  rq_Protocol :: int
  rq_Operation :: string
  rq_Inputs :: "(string \<times> string) list"

record error_body =
  eb_Code :: string
  eb_Message :: string

record response =
  rs_Protocol :: int
  rs_Status :: string
  rs_Result :: "string option"
  rs_Error :: "error_body option"

definition StatusOK :: string where "StatusOK = ''OK''"
definition StatusDenied :: string where "StatusDenied = ''DENIED''"
definition StatusInvalid :: string where "StatusInvalid = ''INVALID''"
definition StatusError :: string where "StatusError = ''ERROR''"
definition StatusUnavailable :: string where "StatusUnavailable = ''UNAVAILABLE''"

definition okResponse :: "string \<Rightarrow> response" where
  "okResponse result = \<lparr>rs_Protocol = ProtocolVersion, rs_Status = StatusOK, rs_Result = Some result, rs_Error = None\<rparr>"

definition errResponse :: "string \<Rightarrow> string \<Rightarrow> string \<Rightarrow> response" where
  "errResponse status code message =
     \<lparr>rs_Protocol = ProtocolVersion, rs_Status = status, rs_Result = None,
      rs_Error = Some \<lparr>eb_Code = code, eb_Message = message\<rparr>\<rparr>"

definition respDenied :: response where
  "respDenied = errResponse StatusDenied ''not_authorized'' ''operation not permitted for this client''"

definition respMalformed :: response where
  "respMalformed = errResponse StatusInvalid ''malformed_request'' ''malformed request''"

definition respUnsupportedProtocol :: response where
  "respUnsupportedProtocol = errResponse StatusInvalid ''unsupported_protocol'' ''unsupported protocol version''"

definition respInvalidInput :: "string \<Rightarrow> response" where
  "respInvalidInput reason = errResponse StatusInvalid ''invalid_input'' (''invalid input: '' @ reason)"

definition respConsumerFailed :: response where
  "respConsumerFailed = errResponse StatusError ''consumer_failed'' ''operation failed''"

definition respResultTooLarge :: response where
  "respResultTooLarge = errResponse StatusError ''result_too_large'' ''result exceeded the response size bound''"

definition respTimeout :: response where
  "respTimeout = errResponse StatusError ''timeout'' ''operation timed out''"

definition respUnavailable :: response where
  "respUnavailable = errResponse StatusUnavailable ''broker_unavailable'' ''broker unavailable''"

lemmas resp_defs =
  respDenied_def respMalformed_def respUnsupportedProtocol_def respInvalidInput_def respConsumerFailed_def
  respResultTooLarge_def respTimeout_def respUnavailable_def errResponse_def okResponse_def
  StatusOK_def StatusDenied_def StatusInvalid_def StatusError_def StatusUnavailable_def

subsection \<open>Operation references\<close>

text \<open>\<open>operationRE\<close>: two names of the shape of a consumer name around one dot.\<close>

definition splitOperationRef :: "string \<Rightarrow> (string \<times> string) option" where
  "splitOperationRef s =
     (case cut s CHR ''.'' of
        None \<Rightarrow> None
      | Some (a, b) \<Rightarrow> if validName a \<and> validName b then Some (a, b) else None)"

lemma validName_no_dot: "validName s \<Longrightarrow> CHR ''.'' \<notin> set s"
  by (auto simp: validName_def name_char_def name_start_def is_digit_def less_eq_char_def list_all_iff
      split: list.splits)

lemma validName_no_space: "validName s \<Longrightarrow> CHR 0x0A \<notin> set s \<and> CHR 0x09 \<notin> set s"
  by (auto simp: validName_def name_char_def name_start_def is_digit_def less_eq_char_def list_all_iff
      split: list.splits)

lemma splitOperationRef_iff:
  "splitOperationRef s = Some (a, b) \<longleftrightarrow> s = a @ CHR ''.'' # b \<and> validName a \<and> validName b"
proof
  assume "splitOperationRef s = Some (a, b)"
  then have "cut s CHR ''.'' = Some (a, b)" "validName a" "validName b"
    by (auto simp: splitOperationRef_def split: option.splits if_splits)
  then show "s = a @ CHR ''.'' # b \<and> validName a \<and> validName b" by (simp add: cut_Some_iff)
next
  assume r: "s = a @ CHR ''.'' # b \<and> validName a \<and> validName b"
  then have "cut s CHR ''.'' = Some (a, b)" using validName_no_dot[of a] by (simp add: cut_Some_iff)
  then show "splitOperationRef s = Some (a, b)" using r by (simp add: splitOperationRef_def)
qed

subsection \<open>Decoding\<close>

text \<open>
  \<open>decodeExactlyOne\<close>: the decoder gives the value, or the text of its error, and whether the
  second \<open>Decode\<close> returns \<open>io.EOF\<close>.
\<close>

datatype decode_error = BadJSON string | TrailingJSON

definition decodeExactlyOne :: "(string \<Rightarrow> string + 'a \<times> bool) \<Rightarrow> string \<Rightarrow> decode_error + 'a" where
  "decodeExactlyOne decode data =
     (case decode data of
        Inl e \<Rightarrow> Inl (BadJSON e)
      | Inr (v, eof) \<Rightarrow> if eof then Inr v else Inl TrailingJSON)"

definition decodeRequest :: "(string \<Rightarrow> string + brequest \<times> bool) \<Rightarrow> string \<Rightarrow> decode_error + brequest" where
  "decodeRequest decode body = decodeExactlyOne decode body"

subsection \<open>Frames\<close>

text \<open>\<open>binary.BigEndian\<close> on four bytes.\<close>

definition byte_of :: "32 word \<Rightarrow> nat \<Rightarrow> char" where
  "byte_of w i = char_of (unat (drop_bit (8 * i) w) mod 256)"

definition PutUint32 :: "32 word \<Rightarrow> string" where
  "PutUint32 w = [byte_of w 3, byte_of w 2, byte_of w 1, byte_of w 0]"

definition char_word :: "char \<Rightarrow> 32 word" where
  "char_word c = word_of_nat (of_char c)"

definition Uint32 :: "string \<Rightarrow> 32 word" where
  "Uint32 b =
     push_bit 24 (char_word (b ! 0)) + push_bit 16 (char_word (b ! 1)) +
     push_bit 8 (char_word (b ! 2)) + char_word (b ! 3)"

datatype frame_error = ShortLength | TooLongFrame "32 word" "32 word" | ShortBody | BodyTooLarge nat

text \<open>\<open>readFrame\<close> on the bytes a connection still delivers: the frame and the bytes after it.\<close>

definition readFrame :: "string \<Rightarrow> 32 word \<Rightarrow> frame_error + string \<times> string" where
  "readFrame r max' =
     (if length r < 4 then Inl ShortLength
      else
        let n = Uint32 (take 4 r); rest = drop 4 r in
        if n > max' then Inl (TooLongFrame n max')
        else if length rest < unat n then Inl ShortBody
        else Inr (take (unat n) rest, drop (unat n) rest))"

definition writeFrame :: "string \<Rightarrow> frame_error + string" where
  "writeFrame body =
     (if length body > 4294967295 then Inl (BodyTooLarge (length body))
      else Inr (PutUint32 (word_of_nat (length body)) @ body))"

text \<open>\<open>writeResponse\<close> with \<open>json.Marshal\<close> as \<open>marshal\<close>.\<close>

definition writeResponse :: "(response \<Rightarrow> string) \<Rightarrow> response \<Rightarrow> frame_error + string" where
  "writeResponse marshal resp = writeFrame (marshal resp)"

lemma digits_256:
  fixes n :: nat
  shows "n mod 256 + 256 * (n div 256 mod 256) + 65536 * (n div 65536 mod 256) + 16777216 * (n div 16777216)
    = n"
proof -
  have d: "n div 65536 = n div 256 div 256" "n div 16777216 = n div 256 div 256 div 256"
    by (simp_all add: div_mult2_eq[symmetric])
  have "n = 256 * (n div 256) + n mod 256" "n div 256 = 256 * (n div 256 div 256) + n div 256 mod 256"
    "n div 256 div 256 = 256 * (n div 256 div 256 div 256) + n div 256 div 256 mod 256"
    by simp_all
  then show ?thesis unfolding d by linarith
qed

lemma char_word_byte: "char_word (byte_of w i) = word_of_nat (unat w div 2 ^ (8 * i) mod 256)"
proof -
  have "of_char (char_of (n mod 256 :: nat) :: char) = n mod 256" for n :: nat
    by (simp add: of_char_of take_bit_eq_mod)
  then show ?thesis
    unfolding char_word_def byte_of_def unat_drop_bit_eq by (simp add: drop_bit_eq_div)
qed

lemma Uint32_PutUint32: "Uint32 (PutUint32 w) = w"
proof -
  let ?n = "unat w"
  have top: "?n div 16777216 mod 256 = ?n div 16777216"
  proof -
    have "?n < 2 ^ 32" by (rule order_less_le_trans[OF unsigned_less]) simp
    then show ?thesis by (intro mod_less) (simp add: less_mult_imp_div_less)
  qed
  have p: "push_bit k (word_of_nat m :: 32 word) = word_of_nat (2 ^ k * m)" for k m
    by (simp add: push_bit_eq_mult mult.commute)
  have "Uint32 (PutUint32 w) =
    word_of_nat (16777216 * (?n div 16777216 mod 256)) + word_of_nat (65536 * (?n div 65536 mod 256)) +
    word_of_nat (256 * (?n div 256 mod 256)) + word_of_nat (?n mod 256)"
    unfolding Uint32_def PutUint32_def by (simp add: char_word_byte p del: of_nat_mult)
  also have "\<dots> = word_of_nat (?n mod 256 + 256 * (?n div 256 mod 256) + 65536 * (?n div 65536 mod 256) +
      16777216 * (?n div 16777216))"
    unfolding top of_nat_add[symmetric] by (simp only: add_ac)
  also have "\<dots> = w" unfolding digits_256 by simp
  finally show ?thesis .
qed

lemma length_PutUint32: "length (PutUint32 w) = 4"
  by (simp add: PutUint32_def)

subsection \<open>The client\<close>

datatype call_error = AlreadyUsed | CallFrame frame_error | CallRead frame_error | CallDecode string

record client =
  cl_used :: bool

text \<open>
  \<open>Call\<close>: the client afterwards, the bytes sent, and the result. \<open>reply\<close> is what the
  connection delivers; the JSON codec is \<open>marshal\<close> and \<open>unmarshal\<close>.
\<close>

definition Call ::
  "(brequest \<Rightarrow> string) \<Rightarrow> (string \<Rightarrow> string + response) \<Rightarrow> client \<Rightarrow> string \<Rightarrow> (string \<times> string) list \<Rightarrow> string \<Rightarrow>
   client \<times> string \<times> (call_error + response)" where
  "Call marshal unmarshal c operation inputs reply =
     (if cl_used c then (c, [], Inl AlreadyUsed)
      else
        let c' = c\<lparr>cl_used := True\<rparr>;
            body = marshal \<lparr>rq_Protocol = ProtocolVersion, rq_Operation = operation, rq_Inputs = inputs\<rparr>
        in case writeFrame body of
             Inl e \<Rightarrow> (c', [], Inl (CallFrame e))
           | Inr bytes \<Rightarrow>
               (case readFrame reply (word_of_nat (MaxResponseBytes + 4096)) of
                  Inl e \<Rightarrow> (c', bytes, Inl (CallRead e))
                | Inr (respBody, _) \<Rightarrow>
                    (case unmarshal respBody of
                       Inl e \<Rightarrow> (c', bytes, Inl (CallDecode e))
                     | Inr resp \<Rightarrow> (c', bytes, Inr resp))))"

lemma frame_read:
  assumes "writeFrame body = Inr bytes"
  shows "readFrame (bytes @ rest) max' =
      (if unat max' < length body then Inl (TooLongFrame (word_of_nat (length body)) max') else Inr (body, rest)) \<and>
    (\<forall>k<length bytes. isl (readFrame (take k bytes) max'))"
proof -
  let ?n = "word_of_nat (length body) :: 32 word"
  have b: "bytes = PutUint32 ?n @ body" "length body \<le> 4294967295"
    using assms by (auto simp: writeFrame_def split: if_splits)
  have n: "unat ?n = length body" using b(2) by (simp add: unat_of_nat take_bit_eq_mod)
  have t: "take 4 (bytes @ rest) = PutUint32 ?n" "drop 4 (bytes @ rest) = body @ rest"
    using b(1) length_PutUint32[of ?n] by simp_all
  have gt: "max' < ?n \<longleftrightarrow> unat max' < length body" by (simp add: word_less_nat_alt n)
  have "isl (readFrame (take k bytes) max')" if k: "k < length bytes" for k
  proof (cases "k < 4")
    case True
    then have "length (take k bytes) < 4" by (simp add: min_def)
    then show ?thesis unfolding readFrame_def by (simp only: if_True sum.disc)
  next
    case False
    then have "take 4 (take k bytes) = PutUint32 ?n" "length (drop 4 (take k bytes)) < unat ?n"
      using b(1) k length_PutUint32[of ?n] n by (auto simp: min_def)
    then show ?thesis unfolding readFrame_def by (simp only: Let_def Uint32_PutUint32) simp
  qed
  moreover have "readFrame (bytes @ rest) max' =
      (if unat max' < length body then Inl (TooLongFrame ?n max') else Inr (body, rest))"
  proof -
    have "\<not> length (bytes @ rest) < 4" using b(1) length_PutUint32[of ?n] by simp
    then show ?thesis
      unfolding readFrame_def t Uint32_PutUint32 Let_def gt n by simp
  qed
  ultimately show ?thesis by blast
qed

subsection \<open>Properties\<close>

text \<open>
  (C39) Frames survive the wire: what \<open>writeFrame\<close> sends, \<open>readFrame\<close> reads back exactly,
  whatever follows on the connection, if the body is within the reader's bound, and refuses
  before reading the body if it is not; a connection cut anywhere inside the frame is an error
  and never a shorter frame.
\<close>

theorem frame_roundtrip:
  assumes "writeFrame body = Inr bytes"
  shows "readFrame (bytes @ rest) max' =
      (if unat max' < length body then Inl (TooLongFrame (word_of_nat (length body)) max') else Inr (body, rest)) \<and>
    (\<forall>k<length bytes. isl (readFrame (take k bytes) max'))"
  by (rule frame_read[OF assms])

theorem frame_roundtrip_witness:
  "readFrame (CHR 0x00 # CHR 0x00 # CHR 0x00 # CHR 0x02 # ''{}'' @ ''x'') (word_of_nat MaxRequestBytes) = Inr (''{}'', ''x'')"
proof -
  have w: "writeFrame ''{}'' = Inr (CHR 0x00 # CHR 0x00 # CHR 0x00 # CHR 0x02 # ''{}'')"
    by (simp add: writeFrame_def PutUint32_def byte_of_def) code_simp
  have "\<not> unat (word_of_nat MaxRequestBytes :: 32 word) < length ''{}''" by (simp add: MaxRequestBytes_def)
  then show ?thesis
    using frame_roundtrip[OF w, of "''x''" "word_of_nat MaxRequestBytes"] by simp
qed

text \<open>
  An operation reference splits in one way only: it is accepted exactly when it is two
  valid names around a dot, and joining the parts gives it back; it holds no white space that
  could break an audit line.
\<close>

theorem splitOperationRef_exact:
  "(splitOperationRef s = Some (a, b) \<longleftrightarrow> s = a @ ''.'' @ b \<and> validName a \<and> validName b) \<and>
   (validName a \<and> validName b \<longrightarrow> splitOperationRef (a @ ''.'' @ b) = Some (a, b) \<and>
      CHR 0x0A \<notin> set (a @ ''.'' @ b) \<and> CHR 0x09 \<notin> set (a @ ''.'' @ b))"
  using validName_no_space[of a] validName_no_space[of b] by (auto simp: splitOperationRef_iff)

theorem splitOperationRef_exact_witness:
  "splitOperationRef ''tea.repos-list'' = Some (''tea'', ''repos-list'')"
proof -
  have "validName ''tea'' \<and> validName ''repos-list''" by code_simp
  then show ?thesis using splitOperationRef_exact[of _ "''tea''" "''repos-list''"] by simp
qed

end
