(* ===== verification/Broker_Launch.thy ===== *)
theory Broker_Launch
  imports Broker_Protocol Ephemeral
begin

text \<open>
  What the broker puts around a consumer's run: the environment and the bounded capture of its
  output (\<open>internal/broker/launcher.go\<close>), the check of the variables a profile may claim
  (\<open>internal/broker/broker.go\<close>) and the audit record (\<open>internal/broker/audit.go\<close>).
\<close>

subsection \<open>The environment\<close>

definition minimalEnv :: "string \<Rightarrow> inject \<Rightarrow> string \<Rightarrow> string \<Rightarrow> string list" where
  "minimalEnv homeDir ij credPath credDirPath =
     [''PATH=/usr/bin:/bin'', ''HOME='' @ homeDir, ''LC_ALL=C''] @
     (if inj_Env ij \<noteq> [] then [inj_Env ij @ ''='' @ credPath] else []) @
     (if inj_EnvDir ij \<noteq> [] then [inj_EnvDir ij @ ''='' @ credDirPath] else [])"

definition reservedEnvNames :: "string list" where
  "reservedEnvNames =
     [''PATH'', ''HOME'', ''XDG_RUNTIME_DIR'', ''PARZIVAL_CONFIG_HOME'', ''LD_PRELOAD'', ''LD_LIBRARY_PATH'',
      ''LD_AUDIT'', ''DYLD_INSERT_LIBRARIES'', ''DYLD_LIBRARY_PATH'', ''ENV'', ''BASH_ENV'', ''SHELL'']"

definition reserved_name :: "string \<Rightarrow> bool" where
  "reserved_name name \<longleftrightarrow> name \<in> set reservedEnvNames \<or> has_prefix name ''BAO_'' \<or> has_prefix name ''PARZIVAL_''"

text \<open>\<open>checkReservedInjectVars\<close>: the first reserved name claimed.\<close>

definition checkReservedInjectVars :: "inject \<Rightarrow> string option" where
  "checkReservedInjectVars ij = find (\<lambda>name. name \<noteq> [] \<and> reserved_name name) [inj_Env ij, inj_EnvDir ij]"

text \<open>
  What a process started by \<open>os/exec\<close> finds under a name: an entry is split at its first equals
  sign, and of two entries for one name the last counts.
\<close>

definition entry_of :: "string \<Rightarrow> (string \<times> string) option" where
  "entry_of e = cut e CHR ''=''"

definition env_value :: "string list \<Rightarrow> string \<Rightarrow> string option" where
  "env_value es name = map_of (rev (List.map_filter entry_of es)) name"

lemma entry_of_join: "CHR ''='' \<notin> set n \<Longrightarrow> entry_of (n @ ''='' @ v) = Some (n, v)"
  by (simp add: entry_of_def cut_Some_iff)

lemma env_fixed_entries:
  "entry_of ''PATH=/usr/bin:/bin'' = Some (''PATH'', ''/usr/bin:/bin'')" "entry_of (''HOME='' @ h) = Some (''HOME'', h)"
  "entry_of ''LC_ALL=C'' = Some (''LC_ALL'', ''C'')"
  by (simp_all add: entry_of_def cut_Some_iff)

subsection \<open>Bounded capture\<close>

record bounded_buffer =
  bb_max :: nat
  bb_data :: string
  bb_total :: nat
  bb_truncated :: bool

definition new_buffer :: "nat \<Rightarrow> bounded_buffer" where
  "new_buffer m = \<lparr>bb_max = m, bb_data = [], bb_total = 0, bb_truncated = False\<rparr>"

text \<open>\<open>Write\<close>: the buffer afterwards and the number of bytes reported as written.\<close>

definition buffer_Write :: "bounded_buffer \<Rightarrow> string \<Rightarrow> bounded_buffer \<times> nat" where
  "buffer_Write b p =
     (let b1 = b\<lparr>bb_total := bb_total b + length p\<rparr>;
          room = int (bb_max b1) - int (length (bb_data b1))
      in if room \<le> 0 then
           ((if length p > 0 then b1\<lparr>bb_truncated := True\<rparr> else b1), length p)
         else
           let n = (if int (length p) > room then nat room else length p);
               b2 = (if int (length p) > room then b1\<lparr>bb_truncated := True\<rparr> else b1)
           in (b2\<lparr>bb_data := bb_data b2 @ take n p\<rparr>, length p))"

definition buffer_writes :: "bounded_buffer \<Rightarrow> string list \<Rightarrow> bounded_buffer" where
  "buffer_writes b ps = fold (\<lambda>p b. fst (buffer_Write b p)) ps b"

definition maxStderrCapture :: nat where "maxStderrCapture = 65536"

record launch_result =
  lr_stdout :: string
  lr_truncated :: bool
  lr_stderrLen :: nat
  lr_timedOut :: bool
  lr_exitErr :: bool

text \<open>
  \<open>runConsumer\<close>: the consumer's behaviour is the chunks it writes to each stream, whether it
  failed, and whether the deadline passed.
\<close>

definition runConsumer :: "string list \<Rightarrow> string list \<Rightarrow> bool \<Rightarrow> bool \<Rightarrow> nat \<Rightarrow> launch_result" where
  "runConsumer out err failed deadline maxStdout =
     (let so = buffer_writes (new_buffer maxStdout) out; se = buffer_writes (new_buffer maxStderrCapture) err
      in \<lparr>lr_stdout = bb_data so, lr_truncated = bb_truncated so, lr_stderrLen = bb_total se,
          lr_timedOut = deadline, lr_exitErr = failed\<rparr>)"

definition buffer_of :: "nat \<Rightarrow> string \<Rightarrow> bounded_buffer" where
  "buffer_of m s = \<lparr>bb_max = m, bb_data = take m s, bb_total = length s, bb_truncated = (length s > m)\<rparr>"

lemma buffer_Write_of: "fst (buffer_Write (buffer_of m s) p) = buffer_of m (s @ p)"
  by (cases "length s < m") (auto simp: buffer_Write_def buffer_of_def Let_def min_def nat_diff_distrib')

lemma buffer_writes_of: "buffer_writes (buffer_of m s) ps = buffer_of m (s @ concat ps)"
proof (induction ps arbitrary: s)
  case (Cons p ps)
  then show ?case by (simp add: buffer_writes_def buffer_Write_of)
qed (simp add: buffer_writes_def)

subsection \<open>The audit record\<close>

record audit_record =
  au_Time :: string
  au_PeerUID :: "32 word"
  au_Operation :: string
  au_Decision :: string
  au_Outcome :: string
  au_Duration :: string
  au_InputNames :: "string list"

definition orDash :: "string \<Rightarrow> string" where
  "orDash s = (if s = [] then ''-'' else s)"

definition tabc :: string where "tabc = [CHR 0x09]"

definition audit_text :: "audit_record \<Rightarrow> string" where
  "audit_text rec =
     (let names = (if au_InputNames rec \<noteq> [] then join_with '','' (au_InputNames rec) else ''-'') in
      au_Time rec @ tabc @ ''uid='' @ itoa (int (unat (au_PeerUID rec))) @ tabc @
      ''operation='' @ orDash (au_Operation rec) @ tabc @ ''decision='' @ orDash (au_Decision rec) @ tabc @
      ''outcome='' @ orDash (au_Outcome rec) @ tabc @ ''duration='' @ au_Duration rec @ tabc @
      ''inputs='' @ names @ [CHR 0x0A])"

datatype audit_error = AuditOpen | AuditWrite | AuditSync

text \<open>\<open>Write\<close> of the file writer: the log afterwards, and whether the line is known to be durable.\<close>

definition fileAudit_Write :: "bool \<Rightarrow> nat option \<Rightarrow> bool \<Rightarrow> string \<Rightarrow> audit_record \<Rightarrow> string \<times> audit_error option" where
  "fileAudit_Write opens short syncs log rec =
     (if \<not> opens then (log, Some AuditOpen)
      else case short of
             Some n \<Rightarrow> (log @ take n (audit_text rec), Some AuditWrite)
           | None \<Rightarrow> (log @ audit_text rec, if syncs then None else Some AuditSync))"

subsection \<open>Properties\<close>

text \<open>
  The capture is exact up to its bound: however the output is cut into writes, the buffer
  holds the first bytes of it, counts all of it, and says it was truncated exactly when there
  was more than the bound; every write reports its whole length, so the consumer never blocks.
\<close>

theorem bounded_capture:
  "buffer_writes (new_buffer m) ps = buffer_of m (concat ps) \<and> snd (buffer_Write b p) = length p"
proof -
  have "new_buffer m = buffer_of m []" by (simp add: new_buffer_def buffer_of_def)
  then have "buffer_writes (new_buffer m) ps = buffer_of m (concat ps)" using buffer_writes_of[of m "[]" ps] by simp
  moreover have "snd (buffer_Write b p) = length p" by (simp add: buffer_Write_def Let_def)
  ultimately show ?thesis by blast
qed

text \<open>
  A profile that passes the check and whose variable names hold no equals sign cannot
  change the search path or the home directory its consumer sees. The equals sign is not
  checked, and with one the check is no protection: a name such as \<open>PATH=/tmp/x:\<close> is accepted
  and redefines \<open>PATH\<close>, and \<open>LC_ALL\<close>, which the broker sets too, is not reserved at all.
\<close>

theorem reserved_variables:
  "(checkReservedInjectVars ij = None \<and> CHR ''='' \<notin> set (inj_Env ij) \<and> CHR ''='' \<notin> set (inj_EnvDir ij) \<longrightarrow>
      env_value (minimalEnv home ij cred dir) ''PATH'' = Some ''/usr/bin:/bin'' \<and>
      env_value (minimalEnv home ij cred dir) ''HOME'' = Some home) \<and>
   (let evil = \<lparr>inj_Env = ''PATH=/tmp/x:'', inj_EnvDir = ''LC_ALL'', inj_Filename = []\<rparr> in
      checkReservedInjectVars evil = None \<and>
      env_value (minimalEnv home evil ''/r/c'' ''/r'') ''PATH'' = Some ''/tmp/x:=/r/c'' \<and>
      env_value (minimalEnv home evil ''/r/c'' ''/r'') ''LC_ALL'' = Some ''/r'')"
proof
  show "checkReservedInjectVars ij = None \<and> CHR ''='' \<notin> set (inj_Env ij) \<and> CHR ''='' \<notin> set (inj_EnvDir ij) \<longrightarrow>
      env_value (minimalEnv home ij cred dir) ''PATH'' = Some ''/usr/bin:/bin'' \<and>
      env_value (minimalEnv home ij cred dir) ''HOME'' = Some home"
  proof
    assume a: "checkReservedInjectVars ij = None \<and> CHR ''='' \<notin> set (inj_Env ij) \<and> CHR ''='' \<notin> set (inj_EnvDir ij)"
    then have n: "inj_Env ij \<noteq> ''PATH''" "inj_Env ij \<noteq> ''HOME''" "inj_EnvDir ij \<noteq> ''PATH''" "inj_EnvDir ij \<noteq> ''HOME''"
      by (auto simp: checkReservedInjectVars_def reserved_name_def reservedEnvNames_def split: if_splits)
    show "env_value (minimalEnv home ij cred dir) ''PATH'' = Some ''/usr/bin:/bin'' \<and>
        env_value (minimalEnv home ij cred dir) ''HOME'' = Some home"
      using a n entry_of_join[of "inj_Env ij" cred] entry_of_join[of "inj_EnvDir ij" dir] env_fixed_entries(2)[of home]
      by (simp add: env_value_def minimalEnv_def List.map_filter_simps env_fixed_entries)
  qed
  have e: "entry_of ''PATH=/tmp/x:=/r/c'' = Some (''PATH'', ''/tmp/x:=/r/c'')" "entry_of ''LC_ALL=/r'' = Some (''LC_ALL'', ''/r'')"
    by code_simp+
  have c: "checkReservedInjectVars \<lparr>inj_Env = ''PATH=/tmp/x:'', inj_EnvDir = ''LC_ALL'', inj_Filename = []\<rparr> = None"
    by code_simp
  show "let evil = \<lparr>inj_Env = ''PATH=/tmp/x:'', inj_EnvDir = ''LC_ALL'', inj_Filename = []\<rparr> in
      checkReservedInjectVars evil = None \<and>
      env_value (minimalEnv home evil ''/r/c'' ''/r'') ''PATH'' = Some ''/tmp/x:=/r/c'' \<and>
      env_value (minimalEnv home evil ''/r/c'' ''/r'') ''LC_ALL'' = Some ''/r''"
    using c env_fixed_entries(2)[of home]
    by (simp add: env_value_def minimalEnv_def List.map_filter_simps env_fixed_entries e)
qed

theorem reserved_variables_witness:
  "env_value (minimalEnv ''/r'' \<lparr>inj_Env = ''TOKEN_FILE'', inj_EnvDir = [], inj_Filename = []\<rparr> ''/r/c'' ''/r'') ''PATH'' =
     Some ''/usr/bin:/bin''"
proof -
  let ?i = "\<lparr>inj_Env = ''TOKEN_FILE'', inj_EnvDir = [], inj_Filename = []\<rparr>"
  have "checkReservedInjectVars ?i = None" by code_simp
  then show ?thesis using reserved_variables[of ?i "''/r''" "''/r/c''" "''/r''"] by simp
qed

lemma itoa_no_newline: "0 \<le> n \<Longrightarrow> CHR 0x0A \<notin> set (itoa n)"
proof -
  assume "0 \<le> n"
  then have "itoa n = nat_digits (nat n)" by (simp add: itoa_def)
  moreover have "\<forall>c\<in>set (nat_digits (nat n)). is_digit c" using nat_digits_props[of "nat n"] by (simp add: list_all_iff)
  ultimately show ?thesis by (auto simp: is_digit_def less_eq_char_def)
qed

lemma join_no_newline: "\<forall>x\<in>set xs. CHR 0x0A \<notin> set x \<Longrightarrow> CHR 0x0A \<notin> set (join_with '','' xs)"
  by (induction "'',''" xs rule: join_with.induct) auto

text \<open>
  The audit log has one line per record for requests whose operation is a reference and
  whose input names are valid names. The record is written for malformed and denied requests
  too, with the operation and the input names as the client sent them: there a newline starts a
  line of the client's making.
\<close>

theorem audit_line_forgery:
  "(splitOperationRef (au_Operation rec) \<noteq> None \<and> (\<forall>n\<in>set (au_InputNames rec). validName n) \<and>
    CHR 0x0A \<notin> set (au_Time rec @ au_Decision rec @ au_Outcome rec @ au_Duration rec) \<longrightarrow>
      (\<exists>line. audit_text rec = line @ [CHR 0x0A] \<and> CHR 0x0A \<notin> set line)) \<and>
   (let bad = \<lparr>au_Time = ''T'', au_PeerUID = 1000, au_Operation = ''x'' @ [CHR 0x0A] @ ''T'' @ tabc @ ''uid=0'',
               au_Decision = ''INVALID'', au_Outcome = ''malformed_request'', au_Duration = ''1ms'', au_InputNames = []\<rparr>
    in \<exists>rest. audit_text bad = ''T'' @ tabc @ ''uid=1000'' @ tabc @ ''operation=x'' @ [CHR 0x0A] @
          ''T'' @ tabc @ ''uid=0'' @ tabc @ ''decision=INVALID'' @ rest)"
proof
  show "splitOperationRef (au_Operation rec) \<noteq> None \<and> (\<forall>n\<in>set (au_InputNames rec). validName n) \<and>
    CHR 0x0A \<notin> set (au_Time rec @ au_Decision rec @ au_Outcome rec @ au_Duration rec) \<longrightarrow>
      (\<exists>line. audit_text rec = line @ [CHR 0x0A] \<and> CHR 0x0A \<notin> set line)"
  proof
    assume a: "splitOperationRef (au_Operation rec) \<noteq> None \<and> (\<forall>n\<in>set (au_InputNames rec). validName n) \<and>
      CHR 0x0A \<notin> set (au_Time rec @ au_Decision rec @ au_Outcome rec @ au_Duration rec)"
    then obtain c p where "splitOperationRef (au_Operation rec) = Some (c, p)" by auto
    then have o: "CHR 0x0A \<notin> set (au_Operation rec)"
      using validName_no_space[of c] validName_no_space[of p] by (auto simp: splitOperationRef_iff)
    have "\<forall>n\<in>set (au_InputNames rec). CHR 0x0A \<notin> set n" using a validName_no_space by blast
    then have "CHR 0x0A \<notin> set (join_with '','' (au_InputNames rec))" by (rule join_no_newline)
    then show "\<exists>line. audit_text rec = line @ [CHR 0x0A] \<and> CHR 0x0A \<notin> set line"
      using a o by (simp add: audit_text_def Let_def orDash_def tabc_def itoa_no_newline)
  qed
  have "itoa 1000 = ''1000''" by code_simp
  moreover have "unat (1000 :: 32 word) = 1000" by simp
  ultimately show "let bad = \<lparr>au_Time = ''T'', au_PeerUID = 1000, au_Operation = ''x'' @ [CHR 0x0A] @ ''T'' @ tabc @ ''uid=0'',
               au_Decision = ''INVALID'', au_Outcome = ''malformed_request'', au_Duration = ''1ms'', au_InputNames = []\<rparr>
    in \<exists>rest. audit_text bad = ''T'' @ tabc @ ''uid=1000'' @ tabc @ ''operation=x'' @ [CHR 0x0A] @
          ''T'' @ tabc @ ''uid=0'' @ tabc @ ''decision=INVALID'' @ rest"
    by (simp add: audit_text_def Let_def orDash_def tabc_def)
qed

theorem audit_line_forgery_witness:
  "\<exists>line. audit_text \<lparr>au_Time = ''T'', au_PeerUID = 1000, au_Operation = ''gitea.list'', au_Decision = ''OK'',
      au_Outcome = [], au_Duration = ''1ms'', au_InputNames = [''owner'', ''repo'']\<rparr> = line @ [CHR 0x0A] \<and> CHR 0x0A \<notin> set line"
proof -
  have "splitOperationRef ''gitea.list'' \<noteq> None" "validName ''owner''" "validName ''repo''" by code_simp+
  then show ?thesis
    using audit_line_forgery[of "\<lparr>au_Time = ''T'', au_PeerUID = 1000, au_Operation = ''gitea.list'', au_Decision = ''OK'',
      au_Outcome = [], au_Duration = ''1ms'', au_InputNames = [''owner'', ''repo'']\<rparr>"] by auto
qed

end
