(* ===== verification/Broker_Response.thy ===== *)
theory Broker_Response
  imports Broker_Protocol
begin

text \<open>
  The approved response shapes (\<open>internal/broker/response_*.go\<close>): each operation has a function
  that decodes a consumer's output strictly, checks it against closed sets and renders the typed
  value afresh. The JSON decoder, the renderer and the URL parser are parameters; every
  statement here holds for all of them.
\<close>

subsection \<open>Shapes\<close>

record repo_summary =
  rp_Owner :: string
  rp_Name :: string
  rp_Type :: string
  rp_SSH :: string

record secret_set =
  ss_Name :: string
  ss_Action :: string

record push_mint =
  pm_Created :: bool
  pm_PushURL :: string
  pm_Reason :: string

record push_adopt =
  pa_Result :: "string option"
  pa_OpenBaoWritten :: "bool option"
  pa_StoredMatchesLive :: "bool option"
  pa_storedMatchesLiveSet :: bool

text \<open>What is rendered: for an adoption, the three fields without the presence flag.\<close>

datatype approved =
    Repos "repo_summary list"
  | SecretSet secret_set
  | PushMint push_mint
  | PushAdopt string bool "bool option"

text \<open>
  The packages \<open>encoding/json\<close> and \<open>net/url\<close>. A decoder gives its value and whether a second
  \<open>Decode\<close> would meet the end of the input; \<open>js_value\<close> gives the text of the first JSON value,
  which \<open>UnmarshalJSON\<close> is called with, and \<open>js_keys\<close> the keys of an object.
\<close>

record json_lib =
  js_repos :: "string \<Rightarrow> string + repo_summary list \<times> bool"
  js_secret_set :: "string \<Rightarrow> string + secret_set \<times> bool"
  js_push_mint :: "string \<Rightarrow> string + push_mint \<times> bool"
  js_value :: "string \<Rightarrow> string + string \<times> bool"
  js_keys :: "string \<Rightarrow> string + string list"
  js_push_adopt :: "string \<Rightarrow> string + push_adopt \<times> bool"
  js_Marshal :: "approved \<Rightarrow> string + string"

record url =
  u_Scheme :: string
  u_Opaque :: string
  u_User :: bool
  u_Host :: string
  u_Path :: string
  u_RawPath :: string
  u_ForceQuery :: bool
  u_RawQuery :: string
  u_Fragment :: string
  u_RawFragment :: string

record url_lib =
  ul_Parse :: "string \<Rightarrow> url option"
  ul_ToLower :: "string \<Rightarrow> string"

text \<open>\<open>URL.Hostname\<close> and \<open>URL.Port\<close>: the host is split at its last colon if digits follow it.\<close>

definition validOptionalPort :: "string \<Rightarrow> bool" where
  "validOptionalPort p \<longleftrightarrow> p = [] \<or> (hd p = CHR '':'' \<and> list_all is_digit (tl p))"

definition last_colon :: "string \<Rightarrow> nat option" where
  "last_colon s = (case index_byte (rev s) CHR '':'' of None \<Rightarrow> None | Some k \<Rightarrow> Some (length s - 1 - k))"

definition splitHostPort :: "string \<Rightarrow> string \<times> string" where
  "splitHostPort hostport =
     (let (host, port) =
        (case last_colon hostport of
           None \<Rightarrow> (hostport, [])
         | Some k \<Rightarrow> if validOptionalPort (drop k hostport) then (take k hostport, drop (Suc k) hostport)
                     else (hostport, []))
      in (if has_prefix host ''['' \<and> has_suffix host '']'' then butlast (tl host) else host, port))"

definition Hostname :: "url \<Rightarrow> string" where "Hostname u = fst (splitHostPort (u_Host u))"
definition Port :: "url \<Rightarrow> string" where "Port u = snd (splitHostPort (u_Host u))"

subsection \<open>tea and woodpecker\<close>

datatype shape_error =
    Undecodable decode_error | UnapprovedName | UnapprovedAction | IncoherentCreated | UnapprovedReason
  | MissingField | UnapprovedResult | IncoherentWritten | MatchesMustBeNull | IncoherentMatches
  | MarshalFailed string

definition render_approved :: "json_lib \<Rightarrow> approved \<Rightarrow> shape_error + string" where
  "render_approved js v = (case js_Marshal js v of Inl e \<Rightarrow> Inl (MarshalFailed e) | Inr c \<Rightarrow> Inr c)"

definition canonicalizeTeaReposList :: "json_lib \<Rightarrow> string \<Rightarrow> shape_error + string" where
  "canonicalizeTeaReposList js raw =
     (case decodeExactlyOne (js_repos js) raw of
        Inl e \<Rightarrow> Inl (Undecodable e)
      | Inr repos \<Rightarrow> render_approved js (Repos repos))"

definition woodpeckerSecretNames :: "string list" where
  "woodpeckerSecretNames = [''gitea_user'', ''gitea_token'']"

definition woodpeckerSecretActions :: "string list" where
  "woodpeckerSecretActions = [''created'', ''updated'']"

definition canonicalizeWoodpeckerRepoSecretSet :: "json_lib \<Rightarrow> string \<Rightarrow> shape_error + string" where
  "canonicalizeWoodpeckerRepoSecretSet js raw =
     (case decodeExactlyOne (js_secret_set js) raw of
        Inl e \<Rightarrow> Inl (Undecodable e)
      | Inr result \<Rightarrow>
          if ss_Name result \<notin> set woodpeckerSecretNames then Inl UnapprovedName
          else if ss_Action result \<notin> set woodpeckerSecretActions then Inl UnapprovedAction
          else render_approved js (SecretSet result))"

subsection \<open>kuma\<close>

definition kumaPushOriginKey :: string where "kumaPushOriginKey = ''push_origin''"
definition kumaPushMintPrefix :: string where "kumaPushMintPrefix = ''/api/push/''"
definition kumaPushMintReasons :: "string list" where
  "kumaPushMintReasons = [''already_exists'', ''permission_denied'']"

text \<open>\<open>kumaPushMintTokenRE\<close>.\<close>

definition mint_token :: "string \<Rightarrow> bool" where
  "mint_token s \<longleftrightarrow> length s = 32 \<and> list_all (\<lambda>c. is_digit c \<or> (CHR ''a'' \<le> c \<and> c \<le> CHR ''f'')) s"

datatype origin_error = NotAURL | NotBareOrigin | HostNotLower | BadPort | NotCanonical

text \<open>A Go map lookup: the empty string if the key is missing.\<close>

definition lookup_string :: "(string \<times> string) list \<Rightarrow> string \<Rightarrow> string" where
  "lookup_string m k = (case map_of m k of None \<Rightarrow> [] | Some v \<Rightarrow> v)"

definition canonical_port :: "string \<Rightarrow> bool" where
  "canonical_port p \<longleftrightarrow> (case atoi p of None \<Rightarrow> False | Some n \<Rightarrow> \<not> (n < 1 \<or> n > 65535 \<or> itoa n \<noteq> p))"

definition checkKumaPushOrigin :: "url_lib \<Rightarrow> (string \<times> string) list \<Rightarrow> origin_error option" where
  "checkKumaPushOrigin ul cfg =
     (let origin = lookup_string cfg kumaPushOriginKey in
      case ul_Parse ul origin of
        None \<Rightarrow> Some NotAURL
      | Some u \<Rightarrow>
          if u_Scheme u \<noteq> ''https'' \<or> u_Host u = [] \<or> u_User u \<or> u_Opaque u \<noteq> [] \<or> u_Path u \<noteq> [] \<or>
             u_RawPath u \<noteq> [] \<or> u_RawQuery u \<noteq> [] \<or> u_ForceQuery u \<or> u_Fragment u \<noteq> [] \<or> u_RawFragment u \<noteq> []
          then Some NotBareOrigin
          else if u_Host u \<noteq> ul_ToLower ul (u_Host u) \<or> Hostname u = [] then Some HostNotLower
          else
            let host = (if CHR '':'' \<in> set (Hostname u) then ''['' @ Hostname u @ '']'' else Hostname u);
                canonical = ''https://'' @ host @ (if Port u \<noteq> [] then CHR '':'' # Port u else [])
            in if Port u \<noteq> [] \<and> \<not> canonical_port (Port u) then Some BadPort
               else if origin \<noteq> canonical then Some NotCanonical else None)"

definition validKumaPushMintURL :: "url_lib \<Rightarrow> string \<Rightarrow> string \<Rightarrow> bool" where
  "validKumaPushMintURL ul raw origin =
     (case ul_Parse ul raw of
        None \<Rightarrow> False
      | Some u \<Rightarrow>
          if u_Scheme u \<noteq> ''https'' \<or> u_Scheme u @ ''://'' @ u_Host u \<noteq> origin \<or> u_User u \<or> u_Opaque u \<noteq> [] \<or>
             u_RawQuery u \<noteq> [] \<or> u_ForceQuery u \<or> u_Fragment u \<noteq> [] \<or> u_RawFragment u \<noteq> [] \<or> u_RawPath u \<noteq> []
          then False
          else if \<not> has_prefix (u_Path u) kumaPushMintPrefix then False
          else let token = drop (length kumaPushMintPrefix) (u_Path u) in
               if \<not> mint_token token then False else raw = origin @ kumaPushMintPrefix @ token)"

definition canonicalizeKumaPushMint ::
  "json_lib \<Rightarrow> url_lib \<Rightarrow> string \<Rightarrow> (string \<times> string) list \<Rightarrow> shape_error + string" where
  "canonicalizeKumaPushMint js ul raw cfg =
     (case decodeExactlyOne (js_push_mint js) raw of
        Inl e \<Rightarrow> Inl (Undecodable e)
      | Inr result \<Rightarrow>
          if pm_Created result \<and>
             (pm_Reason result \<noteq> [] \<or> \<not> validKumaPushMintURL ul (pm_PushURL result) (lookup_string cfg kumaPushOriginKey))
          then Inl IncoherentCreated
          else if \<not> pm_Created result \<and> (pm_PushURL result \<noteq> [] \<or> pm_Reason result \<notin> set kumaPushMintReasons)
          then Inl UnapprovedReason
          else render_approved js (PushMint result))"

subsection \<open>kuma-adopt\<close>

record adopt_outcome =
  ao_written :: "bool option"
  ao_matches :: "bool option"
  ao_matchesNull :: bool

definition outcome_of :: "bool option \<Rightarrow> bool option \<Rightarrow> adopt_outcome" where
  "outcome_of w m = \<lparr>ao_written = w, ao_matches = m, ao_matchesNull = (m = None)\<rparr>"

definition adoptOutcomes :: "(string \<times> adopt_outcome) list" where
  "adoptOutcomes =
     [(''adopted'', outcome_of (Some True) (Some True)),
      (''already_adopted'', outcome_of (Some False) (Some True)),
      (''conflict'', outcome_of (Some False) (Some False)),
      (''write_mismatch'', outcome_of (Some True) (Some False)),
      (''write_unverified'', outcome_of (Some True) None),
      (''window_closed'', outcome_of (Some False) None),
      (''not_found'', outcome_of (Some False) None),
      (''not_push'', outcome_of (Some False) None),
      (''no_live_token'', outcome_of (Some False) None),
      (''soft_deleted'', outcome_of (Some False) None),
      (''kuma_unavailable'', outcome_of (Some False) None),
      (''openbao_unavailable'', outcome_of (Some False) None),
      (''kuma_changed_during_adopt'', outcome_of None None)]"

text \<open>\<open>UnmarshalJSON\<close>, and the decoder that calls it.\<close>

definition adopt_UnmarshalJSON :: "json_lib \<Rightarrow> string \<Rightarrow> decode_error + push_adopt" where
  "adopt_UnmarshalJSON js data =
     (case js_keys js data of
        Inl e \<Rightarrow> Inl (BadJSON e)
      | Inr keys \<Rightarrow>
          (case decodeExactlyOne (js_push_adopt js) data of
             Inl e \<Rightarrow> Inl e
           | Inr r \<Rightarrow> Inr (r\<lparr>pa_storedMatchesLiveSet := ''stored_matches_live'' \<in> set keys\<rparr>)))"

definition decode_adopt :: "json_lib \<Rightarrow> string \<Rightarrow> decode_error + push_adopt" where
  "decode_adopt js raw =
     (case js_value js raw of
        Inl e \<Rightarrow> Inl (BadJSON e)
      | Inr (data, eof) \<Rightarrow>
          (case adopt_UnmarshalJSON js data of
             Inl e \<Rightarrow> Inl e
           | Inr r \<Rightarrow> if eof then Inr r else Inl TrailingJSON))"

definition canonicalizeKumaAdoptPushAdopt :: "json_lib \<Rightarrow> string \<Rightarrow> shape_error + string" where
  "canonicalizeKumaAdoptPushAdopt js raw =
     (case decode_adopt js raw of
        Inl e \<Rightarrow> Inl (Undecodable e)
      | Inr r \<Rightarrow>
          (case (pa_Result r, pa_OpenBaoWritten r, pa_storedMatchesLiveSet r) of
             (Some result, Some written, True) \<Rightarrow>
               (case map_of adoptOutcomes result of
                  None \<Rightarrow> Inl UnapprovedResult
                | Some outcome \<Rightarrow>
                    if ao_written outcome \<noteq> None \<and> Some written \<noteq> ao_written outcome then Inl IncoherentWritten
                    else if ao_matchesNull outcome \<and> pa_StoredMatchesLive r \<noteq> None then Inl MatchesMustBeNull
                    else if \<not> ao_matchesNull outcome \<and>
                      (pa_StoredMatchesLive r = None \<or> pa_StoredMatchesLive r \<noteq> ao_matches outcome)
                    then Inl IncoherentMatches
                    else render_approved js (PushAdopt result written (pa_StoredMatchesLive r)))
           | _ \<Rightarrow> Inl MissingField))"

subsection \<open>Choosing the validator\<close>

datatype config_error =
    NoResponseValidator | TakesNoConfig | MissingKey string | UnknownKeys "string list" | BadConfig origin_error

definition checkResponseConfigKeys :: "string list \<Rightarrow> (string \<times> string) list \<Rightarrow> config_error option" where
  "checkResponseConfigKeys want got =
     (case find (\<lambda>k. map_of got k = None) want of
        Some k \<Rightarrow> Some (MissingKey k)
      | None \<Rightarrow>
          (let extra = filter (\<lambda>k. k \<notin> set want) (sortedKeys got) in
           if extra \<noteq> [] then Some (UnknownKeys extra) else None))"

definition responseValidators :: "json_lib \<Rightarrow> (string \<times> (string \<Rightarrow> shape_error + string)) list" where
  "responseValidators js =
     [(''tea.repos-list'', canonicalizeTeaReposList js),
      (''woodpecker.repo-secret-set'', canonicalizeWoodpeckerRepoSecretSet js),
      (''kuma-adopt.push-adopt'', canonicalizeKumaAdoptPushAdopt js)]"

text \<open>The one configured validator is that of \<open>kuma.push-mint\<close>.\<close>

definition validatorFor ::
  "json_lib \<Rightarrow> url_lib \<Rightarrow> string \<Rightarrow> operation \<Rightarrow> config_error + (string \<Rightarrow> shape_error + string)" where
  "validatorFor js ul name op =
     (if name = ''kuma.push-mint'' then
        (case checkResponseConfigKeys [kumaPushOriginKey] (op_ResponseConfig op) of
           Some e \<Rightarrow> Inl e
         | None \<Rightarrow>
             (case checkKumaPushOrigin ul (op_ResponseConfig op) of
                Some e \<Rightarrow> Inl (BadConfig e)
              | None \<Rightarrow> Inr (\<lambda>raw. canonicalizeKumaPushMint js ul raw (op_ResponseConfig op))))
      else
        (case map_of (responseValidators js) name of
           Some v \<Rightarrow> if op_ResponseConfig op \<noteq> [] then Inl TakesNoConfig else Inr v
         | None \<Rightarrow> Inl NoResponseValidator))"

subsection \<open>What an approved shape promises\<close>

text \<open>
  The contract of every validator: the output is the rendering of the decoded value, and it is
  produced exactly for the values of the approved shape.
\<close>

locale approved_shape =
  fixes canon :: "string \<Rightarrow> shape_error + string"
    and decode :: "string \<Rightarrow> decode_error + 'a"
    and shape :: "'a \<Rightarrow> bool"
    and view :: "'a \<Rightarrow> approved"
    and marshal :: "approved \<Rightarrow> string + string"
  assumes canon_iff: "canon raw = Inr c \<longleftrightarrow> (\<exists>v. decode raw = Inr v \<and> shape v \<and> marshal (view v) = Inr c)"
begin

lemma output_of_value: "decode r1 = decode r2 \<Longrightarrow> canon r1 = Inr c1 \<Longrightarrow> canon r2 = Inr c2 \<Longrightarrow> c1 = c2"
  by (auto simp: canon_iff)

lemma outputs_subset:
  assumes "\<And>v. shape v \<Longrightarrow> view v \<in> set vs"
  shows "{c. \<exists>raw. canon raw = Inr c} \<subseteq> projr ` marshal ` set vs"
  using assms by (force simp: canon_iff image_iff)

lemma finite_channel:
  assumes "\<And>v. shape v \<Longrightarrow> view v \<in> set vs"
  shows "finite {c. \<exists>raw. canon raw = Inr c} \<and> card {c. \<exists>raw. canon raw = Inr c} \<le> length vs"
proof -
  have f: "finite (projr ` marshal ` set vs)" by simp
  have "card (projr ` marshal ` set vs) \<le> card (set vs)"
    by (simp add: image_image card_image_le)
  then have "card {c. \<exists>raw. canon raw = Inr c} \<le> card (set vs)"
    using card_mono[OF f outputs_subset[OF assms]] by simp
  then show ?thesis using card_length[of vs] finite_subset[OF outputs_subset[OF assms] f] by simp
qed

end

definition secret_set_ok :: "secret_set \<Rightarrow> bool" where
  "secret_set_ok v \<longleftrightarrow> ss_Name v \<in> set woodpeckerSecretNames \<and> ss_Action v \<in> set woodpeckerSecretActions"

definition push_mint_ok :: "url_lib \<Rightarrow> (string \<times> string) list \<Rightarrow> push_mint \<Rightarrow> bool" where
  "push_mint_ok ul cfg v \<longleftrightarrow>
     (if pm_Created v
      then pm_Reason v = [] \<and> validKumaPushMintURL ul (pm_PushURL v) (lookup_string cfg kumaPushOriginKey)
      else pm_PushURL v = [] \<and> pm_Reason v \<in> set kumaPushMintReasons)"

text \<open>The fourteen answers an adoption can have.\<close>

definition adopt_answers :: "approved list" where
  "adopt_answers =
     [PushAdopt ''adopted'' True (Some True), PushAdopt ''already_adopted'' False (Some True),
      PushAdopt ''conflict'' False (Some False), PushAdopt ''write_mismatch'' True (Some False),
      PushAdopt ''write_unverified'' True None, PushAdopt ''window_closed'' False None,
      PushAdopt ''not_found'' False None, PushAdopt ''not_push'' False None,
      PushAdopt ''no_live_token'' False None, PushAdopt ''soft_deleted'' False None,
      PushAdopt ''kuma_unavailable'' False None, PushAdopt ''openbao_unavailable'' False None,
      PushAdopt ''kuma_changed_during_adopt'' False None, PushAdopt ''kuma_changed_during_adopt'' True None]"

definition adopt_view :: "push_adopt \<Rightarrow> approved" where
  "adopt_view r = PushAdopt (the (pa_Result r)) (the (pa_OpenBaoWritten r)) (pa_StoredMatchesLive r)"

definition push_adopt_ok :: "push_adopt \<Rightarrow> bool" where
  "push_adopt_ok r \<longleftrightarrow>
     pa_Result r \<noteq> None \<and> pa_OpenBaoWritten r \<noteq> None \<and> pa_storedMatchesLiveSet r \<and> adopt_view r \<in> set adopt_answers"

lemma render_iff: "render_approved js v = Inr c \<longleftrightarrow> js_Marshal js v = Inr c"
  by (simp add: render_approved_def split: sum.splits)

interpretation tea: approved_shape "canonicalizeTeaReposList js" "decodeExactlyOne (js_repos js)" "\<lambda>_. True" Repos "js_Marshal js" for js
  by unfold_locales (auto simp: canonicalizeTeaReposList_def render_iff split: sum.splits)

interpretation woodpecker: approved_shape "canonicalizeWoodpeckerRepoSecretSet js" "decodeExactlyOne (js_secret_set js)"
  secret_set_ok SecretSet "js_Marshal js" for js
  by unfold_locales (auto simp: canonicalizeWoodpeckerRepoSecretSet_def secret_set_ok_def render_iff split: sum.splits if_splits)

interpretation mint: approved_shape "\<lambda>raw. canonicalizeKumaPushMint js ul raw cfg" "decodeExactlyOne (js_push_mint js)"
  "push_mint_ok ul cfg" PushMint "js_Marshal js" for js ul cfg
  by unfold_locales (auto simp: canonicalizeKumaPushMint_def push_mint_ok_def render_iff split: sum.splits if_splits)

lemma adopt_coherent:
  "(case map_of adoptOutcomes result of
      None \<Rightarrow> False
    | Some oc \<Rightarrow> \<not> (ao_written oc \<noteq> None \<and> Some written \<noteq> ao_written oc) \<and> \<not> (ao_matchesNull oc \<and> m \<noteq> None) \<and>
        \<not> (\<not> ao_matchesNull oc \<and> (m = None \<or> m \<noteq> ao_matches oc))) \<longleftrightarrow>
   PushAdopt result written m \<in> set adopt_answers"
proof (cases "map_of adoptOutcomes result")
  case None
  then have "result \<notin> fst ` set adoptOutcomes" by (simp add: map_of_eq_None_iff)
  moreover have "list_all (\<lambda>v. case v of PushAdopt res _ _ \<Rightarrow> res \<in> fst ` set adoptOutcomes | _ \<Rightarrow> True) adopt_answers"
    by (simp add: adopt_answers_def adoptOutcomes_def)
  ultimately have "PushAdopt result written m \<notin> set adopt_answers" by (auto simp: list_all_iff split: approved.splits)
  then show ?thesis using None by simp
next
  case (Some oc)
  then have "(result, oc) \<in> set adoptOutcomes" by (rule map_of_SomeD)
  then show ?thesis
    using Some unfolding adoptOutcomes_def set_simps insert_iff prod.inject
    by (elim disjE; cases m; simp add: adopt_answers_def outcome_of_def; blast)
qed

lemma canonicalizeKumaAdoptPushAdopt_iff:
  "canonicalizeKumaAdoptPushAdopt js raw = Inr c \<longleftrightarrow>
   (\<exists>v. decode_adopt js raw = Inr v \<and> push_adopt_ok v \<and> js_Marshal js (adopt_view v) = Inr c)"
proof (cases "decode_adopt js raw")
  case (Inr r)
  show ?thesis
  proof (cases "pa_Result r = None \<or> pa_OpenBaoWritten r = None \<or> \<not> pa_storedMatchesLiveSet r")
    case True
    then show ?thesis
      using Inr by (auto simp: canonicalizeKumaAdoptPushAdopt_def push_adopt_ok_def split: option.splits bool.splits)
  next
    case False
    then obtain res w where r: "pa_Result r = Some res" "pa_OpenBaoWritten r = Some w" "pa_storedMatchesLiveSet r" by auto
    show ?thesis
    proof (cases "map_of adoptOutcomes res")
      case None
      then show ?thesis
        using Inr r adopt_coherent[where result=res and written=w and m="pa_StoredMatchesLive r"]
        by (simp add: canonicalizeKumaAdoptPushAdopt_def push_adopt_ok_def adopt_view_def)
    next
      case (Some oc)
      then show ?thesis
        using Inr r adopt_coherent[where result=res and written=w and m="pa_StoredMatchesLive r"]
        by (auto simp: canonicalizeKumaAdoptPushAdopt_def push_adopt_ok_def adopt_view_def render_iff)
    qed
  qed
qed (simp add: canonicalizeKumaAdoptPushAdopt_def)

interpretation adopt: approved_shape "canonicalizeKumaAdoptPushAdopt js" "decode_adopt js" push_adopt_ok adopt_view "js_Marshal js" for js
  by unfold_locales (rule canonicalizeKumaAdoptPushAdopt_iff)

lemma checkResponseConfigKeys_None:
  "checkResponseConfigKeys want got = None \<longleftrightarrow> set want = fst ` set got"
proof -
  have "find (\<lambda>k. map_of got k = None) want = None \<longleftrightarrow> set want \<subseteq> fst ` set got"
    by (auto simp: find_None_iff map_of_eq_None_iff)
  moreover have "filter (\<lambda>k. k \<notin> set want) (sortedKeys got) = [] \<longleftrightarrow> fst ` set got \<subseteq> set want"
    by (auto simp: filter_empty_conv)
  ultimately show ?thesis
    by (auto simp: checkResponseConfigKeys_def Let_def split: option.splits)
qed

lemma validKumaPushMintURL_form:
  "validKumaPushMintURL ul raw origin \<Longrightarrow> \<exists>token. mint_token token \<and> raw = origin @ kumaPushMintPrefix @ token"
  by (auto simp: validKumaPushMintURL_def Let_def split: option.splits if_splits)

lemma canonical_port_bounds: "canonical_port p \<Longrightarrow> \<exists>n. 1 \<le> n \<and> n \<le> 65535 \<and> p = itoa n"
proof -
  assume "canonical_port p"
  then obtain n where "n \<ge> 1" "n \<le> 65535" "itoa n = p"
    by (auto simp: canonical_port_def not_less split: option.splits)
  then show ?thesis by blast
qed

lemma checkKumaPushOrigin_None:
  assumes "checkKumaPushOrigin ul cfg = None"
  shows "\<exists>host port. lookup_string cfg kumaPushOriginKey = ''https://'' @ host @ port \<and> host \<noteq> [] \<and>
    (port = [] \<or> (\<exists>n. 1 \<le> n \<and> n \<le> 65535 \<and> port = '':'' @ itoa n))"
proof -
  let ?o = "lookup_string cfg kumaPushOriginKey"
  obtain u where u: "ul_Parse ul ?o = Some u" and h: "Hostname u \<noteq> []"
    and p: "Port u = [] \<or> canonical_port (Port u)"
    and c: "?o = ''https://'' @ (if CHR '':'' \<in> set (Hostname u) then ''['' @ Hostname u @ '']'' else Hostname u) @
        (if Port u \<noteq> [] then CHR '':'' # Port u else [])"
    using assms unfolding checkKumaPushOrigin_def Let_def by (cases "ul_Parse ul ?o") (simp_all split: if_splits)
  let ?h = "if CHR '':'' \<in> set (Hostname u) then ''['' @ Hostname u @ '']'' else Hostname u"
  let ?p = "if Port u \<noteq> [] then CHR '':'' # Port u else []"
  have "?h \<noteq> []" using h by simp
  moreover have "?p = [] \<or> (\<exists>n. 1 \<le> n \<and> n \<le> 65535 \<and> ?p = '':'' @ itoa n)"
    using p canonical_port_bounds by auto
  ultimately show ?thesis using c by blast
qed

subsection \<open>Properties\<close>


text \<open>
  (C31) An approved answer of the mint operation carries a push URL of the configured instance
  only: a response the broker accepts is either one of the two refusals without a URL, or a URL
  that is the configured origin, \<open>/api/push/\<close> and a token of 32 lower-case hexadecimal digits.
  And the operation's configuration then holds exactly the origin, an HTTPS origin with a
  non-empty host and at most a port from 1 to 65535 written canonically.
\<close>

theorem minted_url_is_configured:
  assumes "validatorFor js ul ''kuma.push-mint'' op = Inr validate" "validate raw = Inr c"
  shows "(\<exists>m. js_Marshal js (PushMint m) = Inr c \<and>
      (if pm_Created m
       then pm_Reason m = [] \<and> (\<exists>token. mint_token token \<and>
         pm_PushURL m = lookup_string (op_ResponseConfig op) kumaPushOriginKey @ ''/api/push/'' @ token)
       else pm_PushURL m = [] \<and> pm_Reason m \<in> {''already_exists'', ''permission_denied''})) \<and>
    fst ` set (op_ResponseConfig op) = {''push_origin''} \<and>
    (\<exists>host port. lookup_string (op_ResponseConfig op) kumaPushOriginKey = ''https://'' @ host @ port \<and> host \<noteq> [] \<and>
      (port = [] \<or> (\<exists>n. 1 \<le> n \<and> n \<le> 65535 \<and> port = '':'' @ itoa n)))"
proof -
  let ?cfg = "op_ResponseConfig op"
  have k: "checkResponseConfigKeys [kumaPushOriginKey] ?cfg = None" and o: "checkKumaPushOrigin ul ?cfg = None"
    and v: "validate = (\<lambda>raw. canonicalizeKumaPushMint js ul raw ?cfg)"
    using assms(1) by (auto simp: validatorFor_def split: option.splits)
  obtain m where m: "push_mint_ok ul ?cfg m" "js_Marshal js (PushMint m) = Inr c"
    using assms(2) by (auto simp: v mint.canon_iff)
  have "fst ` set ?cfg = {''push_origin''}"
    using k by (simp add: checkResponseConfigKeys_None kumaPushOriginKey_def)
  moreover have "if pm_Created m
       then pm_Reason m = [] \<and> (\<exists>token. mint_token token \<and>
         pm_PushURL m = lookup_string ?cfg kumaPushOriginKey @ ''/api/push/'' @ token)
       else pm_PushURL m = [] \<and> pm_Reason m \<in> {''already_exists'', ''permission_denied''}"
    using m(1) validKumaPushMintURL_form[of ul "pm_PushURL m" "lookup_string ?cfg kumaPushOriginKey"]
    by (auto simp: push_mint_ok_def kumaPushMintReasons_def kumaPushMintPrefix_def split: if_splits)
  ultimately show ?thesis using m(2) checkKumaPushOrigin_None[OF o] by blast
qed

definition example_url :: "string \<Rightarrow> string \<Rightarrow> url" where
  "example_url host path =
     \<lparr>u_Scheme = ''https'', u_Opaque = [], u_User = False, u_Host = host, u_Path = path, u_RawPath = [],
      u_ForceQuery = False, u_RawQuery = [], u_Fragment = [], u_RawFragment = []\<rparr>"

definition example_token :: string where "example_token = ''0123456789abcdef0123456789abcdef''"

text \<open>A parser for URLs of one host, and a decoder that knows one output of the helper.\<close>

definition example_url_lib :: url_lib where
  "example_url_lib =
     \<lparr>ul_Parse = (\<lambda>s. if has_prefix s ''https://up.test:443''
                     then Some (example_url ''up.test:443'' (drop 19 s)) else None),
      ul_ToLower = to_lower\<rparr>"

definition example_json_lib :: json_lib where
  "example_json_lib =
     \<lparr>js_repos = (\<lambda>_. Inl []), js_secret_set = (\<lambda>_. Inl []),
      js_push_mint = (\<lambda>s. if s = ''minted''
        then Inr (\<lparr>pm_Created = True, pm_PushURL = ''https://up.test:443/api/push/'' @ example_token, pm_Reason = []\<rparr>, True)
        else Inl []),
      js_value = (\<lambda>_. Inl []), js_keys = (\<lambda>_. Inl []), js_push_adopt = (\<lambda>_. Inl []),
      js_Marshal = (\<lambda>v. case v of PushMint m \<Rightarrow> Inr (pm_PushURL m) | _ \<Rightarrow> Inl [])\<rparr>"

definition mint_operation :: operation where
  "mint_operation =
     \<lparr>op_Argv = [], op_Inputs = [], op_Response = ''json'', op_TimeoutSeconds = 0,
      op_ResponseConfig = [(''push_origin'', ''https://up.test:443'')]\<rparr>"

theorem minted_url_is_configured_witness:
  "canonicalizeKumaPushMint example_json_lib example_url_lib ''minted'' (op_ResponseConfig mint_operation) =
     Inr (''https://up.test:443/api/push/'' @ example_token) \<and>
   fst ` set (op_ResponseConfig mint_operation) = {''push_origin''}"
proof -
  let ?v = "\<lambda>raw. canonicalizeKumaPushMint example_json_lib example_url_lib raw (op_ResponseConfig mint_operation)"
  have k: "checkResponseConfigKeys [kumaPushOriginKey] (op_ResponseConfig mint_operation) = None"
    by code_simp
  have i: "itoa 443 = ''443''" by code_simp
  have p: "canonical_port ''443''"
    using atoi_itoa[of 443] i by (simp add: canonical_port_def min_int64_def max_int64_def)
  have h: "splitHostPort ''up.test:443'' = (''up.test'', ''443'')" by code_simp
  have l: "to_lower ''up.test:443'' = ''up.test:443''" by code_simp
  have o: "checkKumaPushOrigin example_url_lib (op_ResponseConfig mint_operation) = None"
    using p h l
    by (simp add: checkKumaPushOrigin_def mint_operation_def lookup_string_def kumaPushOriginKey_def example_url_lib_def
        example_url_def has_prefix_def Hostname_def Port_def)
  have v: "validatorFor example_json_lib example_url_lib ''kuma.push-mint'' mint_operation = Inr ?v"
    using k o by (simp add: validatorFor_def)
  have c: "?v ''minted'' = Inr (''https://up.test:443/api/push/'' @ example_token)" by code_simp
  show ?thesis using minted_url_is_configured[OF v c] c by simp
qed

end
