(* ===== verification/Broker_Authz.thy ===== *)
theory Broker_Authz
  imports Broker_Protocol First_Match
begin

text \<open>
  The peer authorization file of the broker (\<open>internal/broker/authz.go\<close>): its checks, its
  validation against the loaded definitions, and the decision. The decision is an instance of
  the contract the policy shares (\<open>ordered_rules\<close>).
\<close>

record authz_entry =
  ae_UID :: "32 word"
  ae_Operations :: "string list"

record authz_file =
  az_Schema :: int
  az_Entries :: "authz_entry list"

definition AuthzSchemaVersion :: int where "AuthzSchemaVersion = 1"

datatype authz_error =
    AuthzDecode decode_error | AuthzSchema int | AuthzNoEntries | AuthzDuplicateUID "32 word"
  | AuthzNoOperations nat "32 word" | AuthzDuplicateOp nat "32 word" string | AuthzBadOp nat "32 word" string

text \<open>The two loops of \<open>Parse\<close>, with the sets of what was seen as lists.\<close>

fun check_operations :: "nat \<Rightarrow> 32 word \<Rightarrow> string list \<Rightarrow> string list \<Rightarrow> authz_error option" where
  "check_operations i uid seen [] = None"
| "check_operations i uid seen (op # ops) =
     (if op \<in> set seen then Some (AuthzDuplicateOp i uid op)
      else if splitOperationRef op = None then Some (AuthzBadOp i uid op)
      else check_operations i uid (op # seen) ops)"

fun check_entries :: "nat \<Rightarrow> 32 word list \<Rightarrow> authz_entry list \<Rightarrow> authz_error option" where
  "check_entries i seen [] = None"
| "check_entries i seen (e # es) =
     (if ae_UID e \<in> set seen then Some (AuthzDuplicateUID (ae_UID e))
      else if ae_Operations e = [] then Some (AuthzNoOperations i (ae_UID e))
      else case check_operations i (ae_UID e) [] (ae_Operations e) of
             Some err \<Rightarrow> Some err
           | None \<Rightarrow> check_entries (Suc i) (ae_UID e # seen) es)"

definition authz_Parse :: "(string \<Rightarrow> string + authz_file \<times> bool) \<Rightarrow> string \<Rightarrow> authz_error + authz_file" where
  "authz_Parse decode data =
     (case decodeExactlyOne decode data of
        Inl e \<Rightarrow> Inl (AuthzDecode e)
      | Inr a \<Rightarrow>
          if az_Schema a \<noteq> AuthzSchemaVersion then Inl (AuthzSchema (az_Schema a))
          else if az_Entries a = [] then Inl AuthzNoEntries
          else case check_entries 0 [] (az_Entries a) of Some e \<Rightarrow> Inl e | None \<Rightarrow> Inr a)"

datatype authz_ref_error = NotAReference "32 word" string | NoConsumer "32 word" string string | NoOperation "32 word" string string

definition validate_op :: "(string \<times> consumer_def) list \<Rightarrow> 32 word \<times> string \<Rightarrow> authz_ref_error option" where
  "validate_op defs = (\<lambda>(uid, op).
     case splitOperationRef op of
       None \<Rightarrow> Some (NotAReference uid op)
     | Some (consumerName, opName) \<Rightarrow>
         (case map_of defs consumerName of
            None \<Rightarrow> Some (NoConsumer uid op consumerName)
          | Some def \<Rightarrow>
              (case map_of (cd_Operations def) opName of
                 None \<Rightarrow> Some (NoOperation uid op consumerName)
               | Some _ \<Rightarrow> None)))"

definition authz_Validate :: "authz_file \<Rightarrow> (string \<times> consumer_def) list \<Rightarrow> authz_ref_error option" where
  "authz_Validate a defs =
     first_error (validate_op defs) (concat (map (\<lambda>e. map (Pair (ae_UID e)) (ae_Operations e)) (az_Entries a)))"

fun decide_entries :: "authz_entry list \<Rightarrow> 32 word \<times> string \<Rightarrow> bool" where
  "decide_entries [] q = False"
| "decide_entries (e # es) q =
     (if ae_UID e \<noteq> fst q then decide_entries es q
      else list_ex (\<lambda>op. op = snd q) (ae_Operations e))"

definition Decide :: "authz_file \<Rightarrow> 32 word \<Rightarrow> string \<Rightarrow> bool" where
  "Decide a uid operation = decide_entries (az_Entries a) (uid, operation)"

subsection \<open>A second instance of the first-match contract\<close>

definition entry_matches :: "authz_entry \<Rightarrow> 32 word \<times> string \<Rightarrow> bool" where
  "entry_matches e q \<longleftrightarrow> ae_UID e = fst q"

definition entry_grants :: "authz_entry \<Rightarrow> 32 word \<times> string \<Rightarrow> bool" where
  "entry_grants e q \<longleftrightarrow> snd q \<in> set (ae_Operations e)"

interpretation az: ordered_rules entry_matches entry_grants decide_entries
proof unfold_locales
  show "decide_entries rs q \<longleftrightarrow>
      (case first_index (\<lambda>r. entry_matches r q) rs of None \<Rightarrow> False | Some i \<Rightarrow> entry_grants (rs ! i) q)" for rs q
    by (induction rs) (auto simp: entry_matches_def entry_grants_def list_ex_iff split: option.splits)
qed

subsection \<open>Lemmas\<close>

lemma check_operations_None:
  "check_operations i uid seen ops = None \<longleftrightarrow>
     distinct ops \<and> set ops \<inter> set seen = {} \<and> (\<forall>op\<in>set ops. splitOperationRef op \<noteq> None)"
  by (induction ops arbitrary: seen) (auto split: if_splits)

lemma check_entries_None:
  "check_entries i seen es = None \<longleftrightarrow>
     distinct (map ae_UID es) \<and> set (map ae_UID es) \<inter> set seen = {} \<and>
     (\<forall>e\<in>set es. ae_Operations e \<noteq> [] \<and> distinct (ae_Operations e) \<and>
        (\<forall>op\<in>set (ae_Operations e). splitOperationRef op \<noteq> None))"
proof (induction es arbitrary: i seen)
  case (Cons e es)
  show ?case
    using Cons.IH[of "Suc i" "ae_UID e # seen"] check_operations_None[of i "ae_UID e" "[]" "ae_Operations e"]
    by (auto split: option.splits) blast
qed simp

definition authz_ok :: "authz_file \<Rightarrow> bool" where
  "authz_ok a \<longleftrightarrow> distinct (map ae_UID (az_Entries a)) \<and>
     (\<forall>e\<in>set (az_Entries a). \<forall>op\<in>set (ae_Operations e). splitOperationRef op \<noteq> None)"

lemma authz_Parse_ok: "authz_Parse decode data = Inr a \<Longrightarrow> authz_ok a"
  by (auto simp: authz_Parse_def authz_ok_def check_entries_None split: sum.splits if_splits option.splits)

lemma Decide_iff:
  assumes "authz_ok a"
  shows "Decide a uid op \<longleftrightarrow> (\<exists>e\<in>set (az_Entries a). ae_UID e = uid \<and> op \<in> set (ae_Operations e))"
proof
  assume "Decide a uid op"
  then show "\<exists>e\<in>set (az_Entries a). ae_UID e = uid \<and> op \<in> set (ae_Operations e)"
    using az.allows_grants[of "az_Entries a" "(uid, op)"] by (auto simp: Decide_def entry_matches_def entry_grants_def)
next
  assume "\<exists>e\<in>set (az_Entries a). ae_UID e = uid \<and> op \<in> set (ae_Operations e)"
  then obtain e where e: "e \<in> set (az_Entries a)" "ae_UID e = uid" "op \<in> set (ae_Operations e)" by blast
  then obtain xs ys where l: "az_Entries a = xs @ e # ys" by (meson split_list)
  have "\<forall>x\<in>set xs. \<not> entry_matches x (uid, op)"
    using assms l e(2) by (auto simp: authz_ok_def entry_matches_def) (metis image_eqI)
  then show "Decide a uid op"
    using az.insert_decides[of xs "(uid, op)" e ys] e l by (simp add: Decide_def entry_matches_def entry_grants_def)
qed

lemma validated_operation:
  assumes "authz_Validate a defs = None" "Decide a uid op"
  shows "\<exists>c o' d x. splitOperationRef op = Some (c, o') \<and> map_of defs c = Some d \<and> map_of (cd_Operations d) o' = Some x"
proof -
  obtain e where e: "e \<in> set (az_Entries a)" "op \<in> set (ae_Operations e)"
    using assms(2) az.allows_grants[of "az_Entries a" "(uid, op)"] by (auto simp: Decide_def entry_grants_def)
  then have "validate_op defs (ae_UID e, op) = None"
    using assms(1) by (auto simp: authz_Validate_def first_error_None)
  then show ?thesis by (auto simp: validate_op_def split: option.splits)
qed

subsection \<open>Properties\<close>

text \<open>
  The decision is exactly the file: in a file that parses, a peer may call an operation
  just when an entry for its uid lists it literally. And in a file validated against the
  definitions every operation it may call resolves to a loaded consumer and one of its
  operations, so an authorized request never names a missing one.
\<close>

theorem authz_decides_by_entry:
  assumes "authz_Parse decode data = Inr a" "authz_Validate a defs = None"
  shows "(Decide a uid op \<longleftrightarrow> (\<exists>e\<in>set (az_Entries a). ae_UID e = uid \<and> op \<in> set (ae_Operations e))) \<and>
    (Decide a uid op \<longrightarrow> (\<exists>c o' d x. op = c @ ''.'' @ o' \<and> splitOperationRef op = Some (c, o') \<and>
       map_of defs c = Some d \<and> map_of (cd_Operations d) o' = Some x))"
  using Decide_iff[OF authz_Parse_ok[OF assms(1)]] validated_operation[OF assms(2), of uid op]
  by (auto simp: splitOperationRef_iff)

definition example_authz :: authz_file where
  "example_authz = \<lparr>az_Schema = 1, az_Entries = [\<lparr>ae_UID = 1000, ae_Operations = [''tea.repos-list'']\<rparr>]\<rparr>"

theorem authz_decides_by_entry_witness:
  "\<not> Decide example_authz 1001 ''tea.repos-list'' \<and> Decide example_authz 1000 ''tea.repos-list''"
proof -
  let ?defs = "[(''tea'', example_def False ''--owner=${owner}'')]"
  have p: "authz_Parse (\<lambda>_. Inr (example_authz, True)) '''' = Inr example_authz" by code_simp
  have v: "authz_Validate example_authz ?defs = None" by code_simp
  show ?thesis
    using authz_decides_by_entry[OF p v, of 1001 "''tea.repos-list''"]
      authz_decides_by_entry[OF p v, of 1000 "''tea.repos-list''"]
    by (simp add: example_authz_def)
qed

end
