(* ===== verification/Broker_Session.thy ===== *)
theory Broker_Session
  imports Broker_Launch Broker_Response Broker_Authz Store "HOL-Library.Multiset"
begin

text \<open>
  One request from accept to close (\<open>internal/broker/session.go\<close>, and \<open>fetchSecrets\<close> and
  \<open>zeroAll\<close> of \<open>internal/broker/broker.go\<close>). A handler is the list of its effects in the order
  the code has them, the deferred ones at the end; what the outside world answers is a record.
\<close>

subsection \<open>Effects and the world\<close>

text \<open>
  \<open>Hold\<close> is a buffer with secret bytes coming into being and \<open>Wipe\<close> its zeroing;
  \<open>Violation\<close> is the log line of a broken invariant and \<open>Crash\<close> a nil dereference.
\<close>

datatype effect =
    Fetch secret_ref | Hold string | Wipe string
  | NewDir string | Credential string string | RemoveDir string
  | Exec "string list" "string list" int
  | Audit audit_record bool | Send response
  | Violation | Crash

record server =
  sv_MaxRequestBytes :: int
  sv_MaxResponseBytes :: int
  sv_DefaultOpTimeout :: int
  sv_defs :: "(string \<times> consumer_def) list"
  sv_profiles :: "(string \<times> profile) list"
  sv_authz :: authz_file

text \<open>What is not under \<open>src/\<close>: the packages \<open>regexp\<close>, \<open>encoding/json\<close>, \<open>net/url\<close>, \<open>text/template\<close>, and the text of an error.\<close>

record 'a libs =
  lb_re :: regexps
  lb_json :: json_lib
  lb_url :: url_lib
  lb_request :: "string \<Rightarrow> string + brequest \<times> bool"
  lb_engine :: "'a template_engine"
  lb_Error :: "argv_error \<Rightarrow> string"

text \<open>
  What the world does in one session: the peer, the bytes it sends in time, the stores, the
  directory and the four calls of \<open>WriteFile\<close>, the consumer (the chunks of its two streams,
  failure, deadline), the audit file and the clock.
\<close>

record world =
  wd_peer :: "32 word option"
  wd_bytes :: string
  wd_resolve :: "secret_ref \<Rightarrow> string + (secret_ref \<Rightarrow> string + string)"
  wd_newdir :: "string option"
  wd_parent :: bool
  wd_opens :: bool
  wd_writes :: bool
  wd_closes :: bool
  wd_consumer :: "string list \<Rightarrow> string list \<Rightarrow> string list \<times> string list \<times> bool \<times> bool"
  wd_audit :: "audit_record \<Rightarrow> bool"
  wd_start :: string
  wd_duration :: string

subsection \<open>The steps\<close>

text \<open>A product of \<open>time.Duration\<close>, an \<open>int64\<close>, wraps.\<close>

definition wrap_int64 :: "int \<Rightarrow> int" where
  "wrap_int64 n = (n + 9223372036854775808) mod 18446744073709551616 - 9223372036854775808"

definition second :: int where "second = 1000000000"

definition opTimeout :: "operation \<Rightarrow> int \<Rightarrow> int" where
  "opTimeout op def =
     (if op_TimeoutSeconds op > 0 then wrap_int64 (op_TimeoutSeconds op * second) else def)"

definition sortedInputNames :: "(string \<times> string) list \<Rightarrow> string list" where
  "sortedInputNames inputs = (if inputs = [] then [] else sortedKeys inputs)"

definition classify :: "'a libs \<Rightarrow> string \<Rightarrow> operation \<Rightarrow> launch_result \<Rightarrow> response" where
  "classify lb name op result =
     (if lr_timedOut result then respTimeout
      else if lr_exitErr result then respConsumerFailed
      else if lr_truncated result then respResultTooLarge
      else case validatorFor (lb_json lb) (lb_url lb) name op of
             Inl _ \<Rightarrow> respConsumerFailed
           | Inr validator \<Rightarrow>
               (case validator (lr_stdout result) of
                  Inl _ \<Rightarrow> respConsumerFailed
                | Inr canonical \<Rightarrow> okResponse canonical))"

definition finish :: "world \<Rightarrow> audit_record \<Rightarrow> response \<Rightarrow> effect list" where
  "finish w rec resp =
     (let rec1 = rec\<lparr>au_Duration := wd_duration w, au_Decision := rs_Status resp\<rparr>;
          rec2 = (case rs_Error resp of None \<Rightarrow> rec1 | Some e \<Rightarrow> rec1\<lparr>au_Outcome := eb_Code e\<rparr>);
          ok = wd_audit w rec2;
          resp1 = (if \<not> ok \<and> rs_Status resp = StatusOK then respUnavailable else resp)
      in [Audit rec2 ok, Send resp1])"

definition zeroAll :: "(string \<times> string) list \<Rightarrow> effect list" where
  "zeroAll m = map (\<lambda>(_, v). Wipe v) m"

datatype fetch_error = FetchParse ref_error | FetchResolve string | FetchGet string

text \<open>The loop of \<open>fetchSecrets\<close>; \<open>secrets\<close> is what is fetched already.\<close>

fun fetch_loop ::
  "(secret_ref \<Rightarrow> string + (secret_ref \<Rightarrow> string + string)) \<Rightarrow> (string \<times> string) list \<Rightarrow> (string \<times> string) list \<Rightarrow>
   effect list \<times> (fetch_error + (string \<times> string) list)" where
  "fetch_loop resolve secrets [] = ([], Inr secrets)"
| "fetch_loop resolve secrets ((name, ref) # rest) =
     (case ParseRef ref of
        Inl e \<Rightarrow> (zeroAll secrets, Inl (FetchParse e))
      | Inr parsed \<Rightarrow>
          (case resolve parsed of
             Inl e \<Rightarrow> (zeroAll secrets, Inl (FetchResolve e))
           | Inr get \<Rightarrow>
               (case get parsed of
                  Inl e \<Rightarrow> (Fetch parsed # zeroAll secrets, Inl (FetchGet e))
                | Inr val \<Rightarrow>
                    (case fetch_loop resolve ((name, val) # secrets) rest of
                       (effs, res) \<Rightarrow> (Fetch parsed # Hold val # effs, res)))))"

definition fetchSecrets ::
  "world \<Rightarrow> profile \<Rightarrow> effect list \<times> (fetch_error + (string \<times> string) list)" where
  "fetchSecrets w prof = fetch_loop (wd_resolve w) [] (pf_Secrets prof)"

text \<open>Steps 9 to 15 of \<open>handleConn\<close>: the directory, the run, the answer.\<close>

definition run_operation ::
  "server \<Rightarrow> 'a libs \<Rightarrow> world \<Rightarrow> audit_record \<Rightarrow> string \<Rightarrow> operation \<Rightarrow> profile \<Rightarrow> string list \<Rightarrow> string \<Rightarrow> effect list" where
  "run_operation sv lb w rec name op prof argv cred =
     (case wd_newdir w of
        None \<Rightarrow> finish w rec respUnavailable
      | Some dir \<Rightarrow>
          NewDir dir #
          (case snd (WriteFile (wd_parent w) (wd_opens w) (wd_writes w) (wd_closes w) dir (FileName (pf_Inject prof))
                      cred ((\<lambda>_. None)(dir \<mapsto> EDir))) of
             Inl _ \<Rightarrow> RemoveDir dir # finish w rec respUnavailable
           | Inr credPath \<Rightarrow>
               let envv = minimalEnv dir (pf_Inject prof) credPath dir;
                   (out, err, failed, late) = wd_consumer w argv envv;
                   result = runConsumer out err failed late (nat (sv_MaxResponseBytes sv));
                   resp = classify lb name op result
               in Credential credPath cred # Exec argv envv (opTimeout op (sv_DefaultOpTimeout sv)) #
                  RemoveDir dir # finish w rec resp))"

text \<open>Step 8: the credential. The two deferred zeroings close it.\<close>

definition with_credential ::
  "server \<Rightarrow> 'a libs \<Rightarrow> world \<Rightarrow> audit_record \<Rightarrow> string \<Rightarrow> operation \<Rightarrow> profile option \<Rightarrow> string list \<Rightarrow> effect list" where
  "with_credential sv lb w rec name op prof argv =
     (case prof of
        None \<Rightarrow> [Crash]
      | Some pf \<Rightarrow>
          (case fetchSecrets w pf of
             (effs, Inl _) \<Rightarrow> effs @ finish w rec respUnavailable
           | (effs, Inr secrets) \<Rightarrow>
               (case Render (lb_engine lb) pf secrets of
                  Inl _ \<Rightarrow> effs @ finish w rec respUnavailable @ zeroAll secrets
                | Inr cred \<Rightarrow>
                    effs @ [Hold cred] @ run_operation sv lb w rec name op pf argv cred @
                    [Wipe cred] @ zeroAll secrets)))"

text \<open>Steps 5 to 7 on a well-formed request.\<close>

definition serve_request ::
  "server \<Rightarrow> 'a libs \<Rightarrow> world \<Rightarrow> 32 word \<Rightarrow> brequest \<Rightarrow> audit_record \<Rightarrow> string \<Rightarrow> string \<Rightarrow> effect list" where
  "serve_request sv lb w uid req rec consumerName opName =
     (if \<not> Decide (sv_authz sv) uid (rq_Operation req) then finish w rec respDenied
      else case (case map_of (sv_defs sv) consumerName of
                   None \<Rightarrow> None
                 | Some def \<Rightarrow> map_option (Pair def) (map_of (cd_Operations def) opName)) of
             None \<Rightarrow> Violation # finish w rec respUnavailable
           | Some (def, op) \<Rightarrow>
               (case BuildArgv (lb_re lb) def opName (rq_Inputs req) of
                  Inl e \<Rightarrow> finish w rec (respInvalidInput (lb_Error lb e))
                | Inr argv \<Rightarrow>
                    with_credential sv lb w rec (rq_Operation req) op (map_of (sv_profiles sv) (cd_Profile def)) argv))"

definition handleConn :: "server \<Rightarrow> 'a libs \<Rightarrow> world \<Rightarrow> effect list" where
  "handleConn sv lb w =
     (case wd_peer w of
        None \<Rightarrow> []
      | Some uid \<Rightarrow>
          (let rec = \<lparr>au_Time = wd_start w, au_PeerUID = uid, au_Operation = [], au_Decision = [], au_Outcome = [],
                      au_Duration = [], au_InputNames = []\<rparr>
           in case readFrame (wd_bytes w) (word_of_int (sv_MaxRequestBytes sv)) of
                Inl _ \<Rightarrow> []
              | Inr (raw, _) \<Rightarrow>
                  (case decodeRequest (lb_request lb) raw of
                     Inl _ \<Rightarrow> finish w rec respMalformed
                   | Inr req \<Rightarrow>
                       let rec1 = rec\<lparr>au_Operation := rq_Operation req, au_InputNames := sortedInputNames (rq_Inputs req)\<rparr> in
                       if rq_Protocol req \<le> 0 then finish w rec1 respMalformed
                       else if rq_Protocol req \<noteq> ProtocolVersion then finish w rec1 respUnsupportedProtocol
                       else if rq_Operation req = [] then finish w rec1 respMalformed
                       else case splitOperationRef (rq_Operation req) of
                              None \<Rightarrow> finish w rec1 respMalformed
                            | Some (consumerName, opName) \<Rightarrow>
                                serve_request sv lb w uid req rec1 consumerName opName)))"

subsection \<open>The protocol of one session, as an abstract machine\<close>

text \<open>
  What a session owes its environment, stated without its code. The machine keeps the secret
  buffers alive, the runtime directory, whether the credential is in it, the outcome of the
  audit and whether an answer went out; \<open>None\<close> is a breach. Stores, directory and consumer come
  before the audit, the audit after the directory is gone, the answer after the audit, at most
  one of each, and \<open>OK\<close> only over a durable record.
\<close>

record monitor =
  mo_held :: "string multiset"
  mo_dir :: "string option"
  mo_cred :: bool
  mo_audited :: "bool option"
  mo_sent :: bool

definition idle :: monitor where
  "idle = \<lparr>mo_held = {#}, mo_dir = None, mo_cred = False, mo_audited = None, mo_sent = False\<rparr>"

fun permit :: "monitor \<Rightarrow> effect \<Rightarrow> monitor option" where
  "permit m (Fetch r) = (if mo_audited m = None \<and> mo_dir m = None then Some m else None)"
| "permit m (Hold v) = (if mo_audited m = None then Some (m\<lparr>mo_held := add_mset v (mo_held m)\<rparr>) else None)"
| "permit m (Wipe v) = (if v \<in># mo_held m then Some (m\<lparr>mo_held := mo_held m - {#v#}\<rparr>) else None)"
| "permit m (NewDir d) =
     (if mo_dir m = None \<and> mo_audited m = None then Some (m\<lparr>mo_dir := Some d, mo_cred := False\<rparr>) else None)"
| "permit m (Credential p v) =
     (if mo_dir m \<noteq> None \<and> \<not> mo_cred m \<and> v \<in># mo_held m then Some (m\<lparr>mo_cred := True\<rparr>) else None)"
| "permit m (Exec argv envv t) = (if mo_cred m \<and> mo_audited m = None then Some m else None)"
| "permit m (RemoveDir d) = (if mo_dir m = Some d then Some (m\<lparr>mo_dir := None, mo_cred := False\<rparr>) else None)"
| "permit m (Audit rec ok) =
     (if mo_dir m = None \<and> mo_audited m = None then Some (m\<lparr>mo_audited := Some ok\<rparr>) else None)"
| "permit m (Send r) =
     (if \<not> mo_sent m \<and> mo_audited m \<noteq> None \<and> (rs_Status r \<noteq> StatusOK \<or> mo_audited m = Some True)
      then Some (m\<lparr>mo_sent := True\<rparr>) else None)"
| "permit m Violation = Some m"
| "permit m Crash = Some m"

fun accept :: "monitor \<Rightarrow> effect list \<Rightarrow> monitor option" where
  "accept m [] = Some m"
| "accept m (e # es) = (case permit m e of None \<Rightarrow> None | Some m' \<Rightarrow> accept m' es)"

lemma accept_append: "accept m (xs @ ys) = (case accept m xs of None \<Rightarrow> None | Some m' \<Rightarrow> accept m' ys)"
  by (induction xs arbitrary: m) (auto split: option.splits)

definition values_of :: "(string \<times> string) list \<Rightarrow> string multiset" where
  "values_of m = mset (map snd m)"

lemma accept_zeroAll:
  "mo_held m = h + values_of secrets \<Longrightarrow> accept m (zeroAll secrets) = Some (m\<lparr>mo_held := h\<rparr>)"
proof (induction secrets arbitrary: m)
  case (Cons a secrets)
  then show ?case by (cases a) (simp add: zeroAll_def values_of_def)
qed (simp add: zeroAll_def values_of_def)

lemma accept_fetch_loop:
  assumes "fetch_loop resolve secrets refs = (effs, res)" "mo_held m = h + values_of secrets"
    "mo_audited m = None" "mo_dir m = None"
  shows "accept m effs = Some (m\<lparr>mo_held := (case res of Inl _ \<Rightarrow> h | Inr s \<Rightarrow> h + values_of s)\<rparr>)"
  using assms
proof (induction resolve secrets refs arbitrary: m effs rule: fetch_loop.induct)
  case (2 resolve secrets name ref rest)
  show ?case
  proof (cases "ParseRef ref")
    case (Inr parsed)
    show ?thesis
    proof (cases "resolve parsed")
      case r: (Inr get)
      show ?thesis
      proof (cases "get parsed")
        case g: (Inr val)
        obtain effs' where e: "fetch_loop resolve ((name, val) # secrets) rest = (effs', res)"
          and effs: "effs = Fetch parsed # Hold val # effs'"
          using "2.prems"(1) Inr r g by (auto split: prod.splits)
        have "accept (m\<lparr>mo_held := add_mset val (mo_held m)\<rparr>) effs' =
            Some (m\<lparr>mo_held := (case res of Inl _ \<Rightarrow> h | Inr s \<Rightarrow> h + values_of s)\<rparr>)"
          using "2.IH"[OF Inr r g e, of "m\<lparr>mo_held := add_mset val (mo_held m)\<rparr>"] "2.prems"(2-)
          by (simp add: values_of_def)
        then show ?thesis using "2.prems"(3,4) effs by simp
      qed (use "2.prems" Inr r accept_zeroAll in auto)
    qed (use "2.prems" Inr accept_zeroAll in auto)
  qed (use "2.prems" accept_zeroAll in auto)
qed auto

lemma accept_finish:
  assumes "mo_audited m = None" "mo_dir m = None" "\<not> mo_sent m"
  shows "\<exists>ok. accept m (finish w rec resp) = Some (m\<lparr>mo_audited := Some ok, mo_sent := True\<rparr>)"
  using assms by (auto simp: finish_def Let_def respUnavailable_def errResponse_def StatusUnavailable_def StatusOK_def
      split: option.splits)

lemma accept_run_operation:
  assumes "mo_audited m = None" "mo_dir m = None" "\<not> mo_sent m" "cred \<in># mo_held m"
  shows "\<exists>ok. accept m (run_operation sv lb w rec name op pf argv cred) =
    Some (m\<lparr>mo_audited := Some ok, mo_sent := True, mo_cred := mo_cred m \<and> wd_newdir w = None\<rparr>)"
proof (cases "wd_newdir w")
  case None
  then show ?thesis using accept_finish[OF assms(1-3), of w rec respUnavailable] by (auto simp: run_operation_def)
next
  case (Some dir)
  let ?m = "m\<lparr>mo_dir := None, mo_cred := False\<rparr>"
  have m: "?m\<lparr>mo_audited := Some ok, mo_sent := True\<rparr> = m\<lparr>mo_audited := Some ok, mo_sent := True, mo_cred := False\<rparr>" for ok
    using assms(2) by (cases m) simp
  have f: "\<exists>ok. accept ?m (finish w rec resp) = Some (m\<lparr>mo_audited := Some ok, mo_sent := True, mo_cred := False\<rparr>)" for resp
    using accept_finish[of ?m w rec resp] assms unfolding m by simp
  show ?thesis
    unfolding run_operation_def Some using assms f
    by (auto simp: Let_def split: sum.splits prod.splits)
qed

lemma accept_with_credential:
  assumes "m = idle"
  shows "\<exists>m'. accept m (with_credential sv lb w rec name op prof argv) = Some m' \<and> mo_held m' = {#} \<and> mo_dir m' = None \<and>
    (mo_sent m' \<longleftrightarrow> mo_audited m' \<noteq> None)"
proof (cases prof)
  case (Some pf)
  obtain effs res where f: "fetchSecrets w pf = (effs, res)" by fastforce
  define h where "h = (case res of Inl _ \<Rightarrow> {#} | Inr s \<Rightarrow> values_of s)"
  let ?m = "idle\<lparr>mo_held := h\<rparr>"
  have e: "accept idle effs = Some ?m"
    using accept_fetch_loop[OF f[unfolded fetchSecrets_def], of idle "{#}"]
    by (auto simp: idle_def values_of_def h_def split: sum.splits)
  have fin: "\<exists>ok. accept ?m (finish w rec r) = Some (?m\<lparr>mo_audited := Some ok, mo_sent := True\<rparr>)" for r
    using accept_finish[of ?m w rec r] by (simp add: idle_def)
  show ?thesis
  proof (cases res)
    case (Inl x)
    then show ?thesis
      using fin[of respUnavailable] e f Some assms by (auto simp: with_credential_def accept_append h_def idle_def)
  next
    case (Inr secrets)
    then have h: "h = values_of secrets" by (simp add: h_def)
    show ?thesis
    proof (cases "Render (lb_engine lb) pf secrets")
      case r: (Inl x)
      obtain ok where ok: "accept ?m (finish w rec respUnavailable) = Some (?m\<lparr>mo_audited := Some ok, mo_sent := True\<rparr>)"
        using fin by blast
      show ?thesis
        using e f Some assms Inr r ok accept_zeroAll[of "?m\<lparr>mo_audited := Some ok, mo_sent := True\<rparr>" "{#}" secrets]
        by (simp add: with_credential_def accept_append h) (simp add: idle_def)
    next
      case r: (Inr cred)
      let ?c = "?m\<lparr>mo_held := add_mset cred h\<rparr>"
      obtain ok where ok: "accept ?c (run_operation sv lb w rec name op pf argv cred) =
          Some (?c\<lparr>mo_audited := Some ok, mo_sent := True, mo_cred := False\<rparr>)"
        using accept_run_operation[of ?c cred sv lb w rec name op pf argv] by (auto simp: idle_def)
      show ?thesis
        using e f Some assms Inr r ok
          accept_zeroAll[of "?m\<lparr>mo_audited := Some ok, mo_sent := True, mo_cred := False\<rparr>" "{#}" secrets]
        by (simp add: with_credential_def accept_append h) (simp add: idle_def)
    qed
  qed
qed (use assms in \<open>simp add: with_credential_def idle_def\<close>)

subsection \<open>When a request is admitted\<close>

text \<open>
  The peer is known, its frame is read and decoded, speaks the protocol, names an operation the
  authorization file lists for it and the definitions hold, and its inputs give the argument
  vector \<open>argv\<close>.
\<close>

definition admitted ::
  "server \<Rightarrow> 'a libs \<Rightarrow> world \<Rightarrow> brequest \<Rightarrow> consumer_def \<Rightarrow> operation \<Rightarrow> string list \<Rightarrow> bool" where
  "admitted sv lb w req def op argv \<longleftrightarrow>
     (\<exists>uid raw rest c opName. wd_peer w = Some uid \<and>
        readFrame (wd_bytes w) (word_of_int (sv_MaxRequestBytes sv)) = Inr (raw, rest) \<and>
        decodeRequest (lb_request lb) raw = Inr req \<and> rq_Protocol req = ProtocolVersion \<and>
        splitOperationRef (rq_Operation req) = Some (c, opName) \<and> Decide (sv_authz sv) uid (rq_Operation req) \<and>
        map_of (sv_defs sv) c = Some def \<and> map_of (cd_Operations def) opName = Some op \<and>
        BuildArgv (lb_re lb) def opName (rq_Inputs req) = Inr argv)"

lemma refused_response:
  "rs_Status respDenied \<noteq> StatusOK" "rs_Status respMalformed \<noteq> StatusOK" "rs_Status respUnsupportedProtocol \<noteq> StatusOK"
  "rs_Status (respInvalidInput e) \<noteq> StatusOK" "rs_Status respConsumerFailed \<noteq> StatusOK"
  "rs_Status respResultTooLarge \<noteq> StatusOK" "rs_Status respTimeout \<noteq> StatusOK" "rs_Status respUnavailable \<noteq> StatusOK"
  "rs_Status (okResponse c) = StatusOK" "rs_Result (okResponse c) = Some c"
  by (simp_all add: resp_defs)

text \<open>
  A session is silent, or a refusal by \<open>finish\<close> alone, or the broken invariant, or the work of an
  admitted request.
\<close>

lemma handleConn_cases:
  obtains (silent) "handleConn sv lb w = []"
  | (refused) rec resp where "handleConn sv lb w = finish w rec resp" "rs_Status resp \<noteq> StatusOK"
  | (violated) uid rec opn c x where "handleConn sv lb w = Violation # finish w rec respUnavailable"
      "Decide (sv_authz sv) uid opn" "splitOperationRef opn = Some (c, x)"
      "\<forall>def. map_of (sv_defs sv) c = Some def \<longrightarrow> map_of (cd_Operations def) x = None"
  | (admitted) req rec def op argv where "admitted sv lb w req def op argv"
      "handleConn sv lb w =
         with_credential sv lb w rec (rq_Operation req) op (map_of (sv_profiles sv) (cd_Profile def)) argv"
proof (cases "wd_peer w")
  case None
  then show ?thesis using silent by (simp add: handleConn_def)
next
  case (Some uid)
  define rec0 where "rec0 = \<lparr>au_Time = wd_start w, au_PeerUID = uid, au_Operation = [], au_Decision = [], au_Outcome = [],
    au_Duration = [], au_InputNames = []\<rparr>"
  show ?thesis
  proof (cases "readFrame (wd_bytes w) (word_of_int (sv_MaxRequestBytes sv))")
    case (Inl e)
    then show ?thesis using silent Some by (simp add: handleConn_def)
  next
    case frame: (Inr fr)
    obtain raw rest where fr: "fr = (raw, rest)" by fastforce
    show ?thesis
    proof (cases "decodeRequest (lb_request lb) raw")
      case (Inl e)
      then have "handleConn sv lb w = finish w rec0 respMalformed"
        using Some frame fr by (simp add: handleConn_def rec0_def)
      then show ?thesis using refused refused_response by blast
    next
      case req: (Inr req)
      define rec1 where "rec1 = rec0\<lparr>au_Operation := rq_Operation req, au_InputNames := sortedInputNames (rq_Inputs req)\<rparr>"
      have h: "handleConn sv lb w =
          (if rq_Protocol req \<le> 0 then finish w rec1 respMalformed
           else if rq_Protocol req \<noteq> ProtocolVersion then finish w rec1 respUnsupportedProtocol
           else if rq_Operation req = [] then finish w rec1 respMalformed
           else case splitOperationRef (rq_Operation req) of
                  None \<Rightarrow> finish w rec1 respMalformed
                | Some (consumerName, opName) \<Rightarrow> serve_request sv lb w uid req rec1 consumerName opName)"
        unfolding rec1_def rec0_def using Some frame fr req by (simp add: handleConn_def Let_def)
      show ?thesis
      proof (cases "rq_Protocol req = ProtocolVersion \<and> (\<exists>c x. splitOperationRef (rq_Operation req) = Some (c, x)) \<and>
          rq_Operation req \<noteq> []")
        case False
        then have "\<exists>resp. handleConn sv lb w = finish w rec1 resp \<and> rs_Status resp \<noteq> StatusOK"
          using h refused_response by (auto split: option.splits if_splits)
        then show ?thesis using refused by blast
      next
        case True
        then obtain c x where cx: "splitOperationRef (rq_Operation req) = Some (c, x)" by blast
        then have s: "handleConn sv lb w = serve_request sv lb w uid req rec1 c x"
          using h True by (simp add: ProtocolVersion_def)
        show ?thesis
        proof (cases "Decide (sv_authz sv) uid (rq_Operation req)")
          case False
          then show ?thesis using s refused[of rec1 respDenied] refused_response by (simp add: serve_request_def)
        next
          case dec: True
          show ?thesis
          proof (cases "\<exists>def op. map_of (sv_defs sv) c = Some def \<and> map_of (cd_Operations def) x = Some op")
            case False
            then show ?thesis
              using s dec cx violated[of rec1 uid "rq_Operation req" c x]
              by (auto simp: serve_request_def split: option.splits)
          next
            case True
            then obtain def op where d: "map_of (sv_defs sv) c = Some def" "map_of (cd_Operations def) x = Some op" by blast
            show ?thesis
            proof (cases "BuildArgv (lb_re lb) def x (rq_Inputs req)")
              case (Inl e)
              then show ?thesis
                using s dec d refused[of rec1 "respInvalidInput (lb_Error lb e)"] refused_response by (simp add: serve_request_def)
            next
              case (Inr argv)
              have "admitted sv lb w req def op argv"
                using Some frame fr req cx dec d Inr \<open>rq_Protocol req = ProtocolVersion \<and> _ \<and> _\<close>
                by (auto simp: admitted_def)
              moreover have "handleConn sv lb w =
                  with_credential sv lb w rec1 (rq_Operation req) op (map_of (sv_profiles sv) (cd_Profile def)) argv"
                using s dec d Inr by (simp add: serve_request_def)
              ultimately show ?thesis using admitted by blast
            qed
          qed
        qed
      qed
    qed
  qed
qed

subsection \<open>What the effects of a session are\<close>

definition uses_credential :: "effect \<Rightarrow> bool" where
  "uses_credential e \<longleftrightarrow> (case e of Fetch _ \<Rightarrow> True | Hold _ \<Rightarrow> True | NewDir _ \<Rightarrow> True | Credential _ _ \<Rightarrow> True | Exec _ _ _ \<Rightarrow> True | _ \<Rightarrow> False)"

lemma finish_effects: "e \<in> set (finish w rec resp) \<Longrightarrow> \<not> uses_credential e"
  by (auto simp: finish_def Let_def uses_credential_def)

text \<open>What \<open>fetchSecrets\<close> does: it holds, wipes, and asks stores for references of the profile.\<close>

definition fetching :: "(string \<times> string) list \<Rightarrow> effect \<Rightarrow> bool" where
  "fetching refs e \<longleftrightarrow>
     (case e of Hold _ \<Rightarrow> True | Wipe _ \<Rightarrow> True | Fetch r \<Rightarrow> \<exists>p\<in>set refs. ParseRef (snd p) = Inr r | _ \<Rightarrow> False)"

lemma fetching_zeroAll: "list_all (fetching refs) (zeroAll m)"
  by (auto simp: zeroAll_def fetching_def list_all_iff)

lemma fetching_Fetch: "ParseRef ref = Inr r \<Longrightarrow> fetching ((name, ref) # rest) (Fetch r)"
  by (simp add: fetching_def)

lemma fetching_mono: "list_all (fetching refs) es \<Longrightarrow> list_all (fetching (p # refs)) es"
  by (auto simp: fetching_def list_all_iff split: effect.splits)

lemma fetch_loop_fetching: "fetch_loop resolve secrets refs = (effs, res) \<Longrightarrow> list_all (fetching refs) effs"
proof (induction resolve secrets refs arbitrary: effs rule: fetch_loop.induct)
  case (2 resolve secrets name ref rest)
  show ?case
  proof (cases "\<exists>parsed get val. ParseRef ref = Inr parsed \<and> resolve parsed = Inr get \<and> get parsed = Inr val")
    case True
    then obtain parsed get val where i: "ParseRef ref = Inr parsed" "resolve parsed = Inr get" "get parsed = Inr val"
      by blast
    obtain effs' where e: "fetch_loop resolve ((name, val) # secrets) rest = (effs', res)"
      and effs: "effs = Fetch parsed # Hold val # effs'"
      using "2.prems" i by (auto split: prod.splits)
    have "fetching ((name, ref) # rest) (Fetch parsed)" "fetching ((name, ref) # rest) (Hold val)"
      using i(1) by (simp_all add: fetching_def)
    then show ?thesis
      using fetching_mono[OF "2.IH"[OF i e]] by (simp add: effs)
  next
    case False
    then show ?thesis
      using "2.prems" fetching_zeroAll[of "(name, ref) # rest"] fetching_Fetch[of ref _ name rest] by (auto split: sum.splits)
  qed
qed simp

lemma zeroAll_effects: "e \<in> set (zeroAll m) \<Longrightarrow> \<exists>v. e = Wipe v"
  by (auto simp: zeroAll_def)

text \<open>The credential's effects, for a profile that is there.\<close>

lemma with_credential_cases:
  obtains (crash) "prof = None" "with_credential sv lb w rec name op prof argv = [Crash]"
  | (no_run) effs wipes pf where "prof = Some pf" "effs = fst (fetch_loop (wd_resolve w) [] (pf_Secrets pf))"
      "set wipes \<subseteq> range Wipe" "with_credential sv lb w rec name op prof argv = effs @ finish w rec respUnavailable @ wipes"
  | (run) effs wipes pf cred secrets where "prof = Some pf" "fetch_loop (wd_resolve w) [] (pf_Secrets pf) = (effs, Inr secrets)"
      "Render (lb_engine lb) pf secrets = Inr cred" "set wipes \<subseteq> range Wipe"
      "with_credential sv lb w rec name op prof argv =
         effs @ [Hold cred] @ run_operation sv lb w rec name op pf argv cred @ wipes"
proof (cases prof)
  case None
  then show ?thesis using crash by (simp add: with_credential_def)
next
  case (Some pf)
  obtain effs res where f: "fetch_loop (wd_resolve w) [] (pf_Secrets pf) = (effs, res)" by fastforce
  show ?thesis
  proof (cases res)
    case (Inl x)
    then show ?thesis using Some f no_run[of pf effs "[]"] by (simp add: with_credential_def fetchSecrets_def)
  next
    case (Inr secrets)
    have z: "set (zeroAll secrets) \<subseteq> range Wipe" by (auto simp: zeroAll_def)
    show ?thesis
    proof (cases "Render (lb_engine lb) pf secrets")
      case (Inl x)
      then show ?thesis
        using Some f \<open>res = Inr secrets\<close> no_run[of pf effs "zeroAll secrets"] z
        by (simp add: with_credential_def fetchSecrets_def)
    next
      case r: (Inr cred)
      then show ?thesis
        using Some f \<open>res = Inr secrets\<close> run[of pf effs secrets cred "Wipe cred # zeroAll secrets"] z
        by (simp add: with_credential_def fetchSecrets_def)
    qed
  qed
qed

lemma fetching_not:
  "fetching refs e \<Longrightarrow> e \<noteq> Exec a v t \<and> e \<noteq> Send r \<and> e \<noteq> Crash \<and> e \<noteq> Violation \<and> e \<noteq> Credential p c \<and> e \<noteq> Audit x ok"
  by (auto simp: fetching_def)

lemma run_operation_cases:
  obtains (nodir) "wd_newdir w = None" "run_operation sv lb w rec name op pf argv cred = finish w rec respUnavailable"
  | (nofile) dir where "wd_newdir w = Some dir"
      "run_operation sv lb w rec name op pf argv cred = NewDir dir # RemoveDir dir # finish w rec respUnavailable"
  | (executed) dir path envv out err failed late where "wd_newdir w = Some dir"
      "path = Join [dir, FileName (pf_Inject pf)]" "contains_path dir path" "envv = minimalEnv dir (pf_Inject pf) path dir"
      "wd_consumer w argv envv = (out, err, failed, late)"
      "run_operation sv lb w rec name op pf argv cred =
         [NewDir dir, Credential path cred, Exec argv envv (opTimeout op (sv_DefaultOpTimeout sv)), RemoveDir dir] @
         finish w rec (classify lb name op (runConsumer out err failed late (nat (sv_MaxResponseBytes sv))))"
proof (cases "wd_newdir w")
  case None
  then show ?thesis using nodir by (simp add: run_operation_def)
next
  case (Some dir)
  let ?wf = "snd (WriteFile (wd_parent w) (wd_opens w) (wd_writes w) (wd_closes w) dir (FileName (pf_Inject pf))
                      cred ((\<lambda>_. None)(dir \<mapsto> EDir)))"
  show ?thesis
  proof (cases ?wf)
    case (Inl e)
    then show ?thesis using nofile[OF Some] Some by (simp add: run_operation_def)
  next
    case (Inr path)
    then have p: "path = Join [dir, FileName (pf_Inject pf)]" "contains_path dir path"
      by (auto simp: WriteFile_def Let_def split: if_splits)
    obtain out err failed late where c: "wd_consumer w argv (minimalEnv dir (pf_Inject pf) path dir) = (out, err, failed, late)"
      by (metis prod_cases4)
    show ?thesis using executed[OF Some p refl c] Some Inr c by (simp add: run_operation_def Let_def)
  qed
qed

text \<open>Every answer of \<open>classify\<close> with the status OK is what the operation's validator made of the output.\<close>

lemma classify_OK:
  "rs_Status (classify lb name op res) = StatusOK \<Longrightarrow>
   \<exists>validator c. validatorFor (lb_json lb) (lb_url lb) name op = Inr validator \<and> validator (lr_stdout res) = Inr c \<and>
     classify lb name op res = okResponse c"
  using refused_response by (auto simp: classify_def split: if_splits sum.splits)

lemma finish_OK:
  assumes "Send r \<in> set (finish w rec resp)" "rs_Status r = StatusOK"
  shows "r = resp \<and> (\<exists>rec'. Audit rec' True \<in> set (finish w rec resp) \<and> au_Decision rec' = StatusOK)"
  using assms refused_response by (auto simp: finish_def Let_def split: if_splits option.splits)

subsection \<open>A server that passed its startup checks\<close>

text \<open>What \<open>newServer\<close> has established of the state the handlers share (see \<open>Broker_Server\<close>).\<close>

definition server_ok :: "'a libs \<Rightarrow> server \<Rightarrow> bool" where
  "server_ok lb sv \<longleftrightarrow>
     authz_Validate (sv_authz sv) (sv_defs sv) = None \<and>
     (\<forall>(name, def)\<in>set (sv_defs sv).
        map_of (sv_profiles sv) (cd_Profile def) \<noteq> None \<and>
        (\<forall>(opName, op)\<in>set (cd_Operations def).
           \<exists>v. validatorFor (lb_json lb) (lb_url lb) (name @ ''.'' @ opName) op = Inr v))"

lemma server_ok_profile:
  assumes "server_ok lb sv" "admitted sv lb w req def op argv"
  shows "\<exists>pf. map_of (sv_profiles sv) (cd_Profile def) = Some pf"
  using assms by (fastforce simp: admitted_def server_ok_def dest: map_of_SomeD)

lemma server_ok_validator:
  assumes "server_ok lb sv" "admitted sv lb w req def op argv"
  shows "\<exists>v. validatorFor (lb_json lb) (lb_url lb) (rq_Operation req) op = Inr v"
  using assms by (fastforce simp: admitted_def server_ok_def splitOperationRef_iff dest!: map_of_SomeD)

lemma server_ok_not_violated:
  assumes "server_ok lb sv" "Decide (sv_authz sv) uid opn" "splitOperationRef opn = Some (c, x)"
    "\<forall>def. map_of (sv_defs sv) c = Some def \<longrightarrow> map_of (cd_Operations def) x = None"
  shows False
  using validated_operation[of "sv_authz sv" "sv_defs sv" uid opn] assms by (auto simp: server_ok_def)

definition is_send :: "effect \<Rightarrow> bool" where
  "is_send e \<longleftrightarrow> (case e of Send _ \<Rightarrow> True | _ \<Rightarrow> False)"

lemma sends_finish: "\<exists>r. filter is_send (finish w rec resp) = [Send r]"
  by (simp add: finish_def Let_def is_send_def)

lemma sends_none: "list_all (fetching refs) es \<Longrightarrow> filter is_send es = []"
  by (auto simp: filter_empty_conv list_all_iff fetching_def is_send_def split: effect.splits)

lemma sends_wipes: "set ws \<subseteq> range Wipe \<Longrightarrow> filter is_send ws = []"
  by (auto simp: filter_empty_conv is_send_def)

lemma sends_run_operation: "\<exists>r. filter is_send (run_operation sv lb w rec name op pf argv cred) = [Send r]"
proof (cases rule: run_operation_cases[of w sv lb rec name op pf argv cred])
  case nodir
  then show ?thesis using sends_finish by simp
next
  case (nofile dir)
  then show ?thesis using sends_finish by (simp add: is_send_def)
next
  case (executed dir path envv out err failed late)
  then show ?thesis using sends_finish by (simp add: is_send_def)
qed

text \<open>
  The use an effect may make of the credential in an admitted request: references of the profile
  are fetched, and what runs is the argument vector in the minimal environment, with the
  operation's time limit.
\<close>

definition within :: "server \<Rightarrow> world \<Rightarrow> profile \<Rightarrow> operation \<Rightarrow> string list \<Rightarrow> effect \<Rightarrow> bool" where
  "within sv w pf op argv e \<longleftrightarrow>
     (case e of
        Fetch r \<Rightarrow> \<exists>p\<in>set (pf_Secrets pf). ParseRef (snd p) = Inr r
      | Exec args envv t \<Rightarrow> args = argv \<and> t = opTimeout op (sv_DefaultOpTimeout sv) \<and>
          (\<exists>dir. wd_newdir w = Some dir \<and>
             envv = minimalEnv dir (pf_Inject pf) (Join [dir, FileName (pf_Inject pf)]) dir)
      | _ \<Rightarrow> True)"

lemma within_fetching:
  "list_all (fetching (pf_Secrets pf)) es \<Longrightarrow> e \<in> set es \<Longrightarrow> within sv w pf op argv e"
  by (fastforce simp: list_all_iff fetching_def within_def split: effect.splits)

lemma within_run_operation:
  assumes "e \<in> set (run_operation sv lb w rec name op pf argv cred)" "\<And>rc rs. e \<notin> set (finish w rc rs)" "uses_credential e"
  shows "within sv w pf op argv e"
proof (cases rule: run_operation_cases[of w sv lb rec name op pf argv cred])
  case nodir
  then show ?thesis using assms by simp
next
  case (nofile dir)
  then show ?thesis using assms by (auto simp: within_def)
next
  case (executed dir path envv out err failed late)
  then show ?thesis using assms by (auto simp: within_def)
qed

lemma session_answers_once:
  assumes "server_ok lb sv" "wd_peer w \<noteq> None"
    "readFrame (wd_bytes w) (word_of_int (sv_MaxRequestBytes sv)) = Inr (raw, rest)"
  shows "(\<exists>r. filter is_send (handleConn sv lb w) = [Send r]) \<and>
    Crash \<notin> set (handleConn sv lb w) \<and> Violation \<notin> set (handleConn sv lb w)"
proof (cases rule: handleConn_cases[of sv lb w])
  case silent
  then show ?thesis using assms(2,3) by (auto simp: handleConn_def serve_request_def finish_def with_credential_def Let_def
    split: sum.splits option.splits prod.splits if_splits)
next
  case (refused rec resp)
  then show ?thesis using sends_finish[of w rec resp] by (auto simp: finish_def Let_def)
next
  case (violated uid rec opn c x)
  then show ?thesis using server_ok_not_violated[OF assms(1)] by blast
next
  case (admitted req rec def op argv)
  obtain pf where pf: "map_of (sv_profiles sv) (cd_Profile def) = Some pf"
    using server_ok_profile[OF assms(1) admitted(1)] by blast
  have fin: "Crash \<notin> set (finish w rc rs)" "Violation \<notin> set (finish w rc rs)" for rc rs
    by (auto simp: finish_def Let_def)
  show ?thesis
  proof (cases rule: with_credential_cases[of "Some pf" sv lb w rec "rq_Operation req" op argv])
    case (no_run effs ws pf')
    have f: "list_all (fetching (pf_Secrets pf')) effs" using no_run(2) fetch_loop_fetching by (metis prod.collapse)
    have "Crash \<notin> set effs" "Violation \<notin> set effs" "Crash \<notin> set ws" "Violation \<notin> set ws"
      using f no_run(3) fetching_not by (fastforce simp: list_all_iff)+
    then show ?thesis
      using no_run(4) admitted(2) pf fin sends_none[OF f] sends_wipes[OF no_run(3)] sends_finish[of w rec respUnavailable] by simp
  next
    case (run effs ws pf' cred secrets)
    have f: "list_all (fetching (pf_Secrets pf')) effs" using run(2) fetch_loop_fetching by blast
    have c: "Crash \<notin> set effs" "Violation \<notin> set effs" "Crash \<notin> set ws" "Violation \<notin> set ws"
      using f run(4) fetching_not by (fastforce simp: list_all_iff)+
    have "Crash \<notin> set (run_operation sv lb w rec (rq_Operation req) op pf' argv cred) \<and>
        Violation \<notin> set (run_operation sv lb w rec (rq_Operation req) op pf' argv cred)"
      by (cases rule: run_operation_cases[of w sv lb rec "rq_Operation req" op pf' argv cred]) (use fin in auto)
    then show ?thesis
      using run(5) admitted(2) pf c sends_none[OF f] sends_wipes[OF run(4)]
        sends_run_operation[of sv lb w rec "rq_Operation req" op pf' argv cred] by (simp add: is_send_def)
  qed simp
qed

lemma session_accepted:
  "\<exists>m. accept idle (handleConn sv lb w) = Some m \<and> mo_held m = {#} \<and> mo_dir m = None \<and>
     (mo_sent m \<longleftrightarrow> mo_audited m \<noteq> None)"
proof (cases rule: handleConn_cases[of sv lb w])
  case silent
  then show ?thesis by (simp add: idle_def)
next
  case (refused rec resp)
  then show ?thesis using accept_finish[of idle w rec resp] by (auto simp: idle_def)
next
  case (violated uid rec opn c x)
  then show ?thesis using accept_finish[of idle w rec respUnavailable] by (auto simp: idle_def)
next
  case (admitted req rec def op argv)
  then show ?thesis using accept_with_credential[OF refl] by metis
qed

lemma accepted_audited:
  "accept m es = Some m' \<Longrightarrow> mo_audited m' = Some True \<Longrightarrow> mo_audited m = Some True \<or> (\<exists>rec. Audit rec True \<in> set es)"
proof (induction es arbitrary: m)
  case (Cons e es)
  obtain m1 where m1: "permit m e = Some m1" "accept m1 es = Some m'" using Cons.prems(1) by (auto split: option.splits)
  then have "mo_audited m1 = Some True \<or> (\<exists>rec. Audit rec True \<in> set es)" using Cons by blast
  moreover have "mo_audited m1 = mo_audited m \<or> (\<exists>rec ok. e = Audit rec ok \<and> mo_audited m1 = Some ok)"
    using m1(1) by (cases e) (auto split: if_splits)
  ultimately show ?case by auto
qed simp

lemma OK_after_audit:
  assumes "handleConn sv lb w = xs @ Send r # ys" "rs_Status r = StatusOK"
  shows "\<exists>rec. Audit rec True \<in> set xs"
proof -
  obtain m where m: "accept idle (xs @ Send r # ys) = Some m" using session_accepted[of sv lb w] assms(1) by auto
  obtain m1 where m1: "accept idle xs = Some m1" using m by (auto simp: accept_append split: option.splits)
  have "permit m1 (Send r) \<noteq> None" using m m1
    by (cases "permit m1 (Send r)") (simp_all add: accept_append del: permit.simps)
  then have "mo_audited m1 = Some True" using assms(2) by (auto split: if_splits)
  then show ?thesis using accepted_audited[OF m1] by (auto simp: idle_def)
qed

lemma credential_admitted:
  assumes "e \<in> set (handleConn sv lb w)" "uses_credential e"
  shows "\<exists>req def op argv pf. admitted sv lb w req def op argv \<and> map_of (sv_profiles sv) (cd_Profile def) = Some pf \<and>
    within sv w pf op argv e"
proof (cases rule: handleConn_cases[of sv lb w])
  case (admitted req rec def op argv)
  let ?prof = "map_of (sv_profiles sv) (cd_Profile def)"
  have fin: "e \<notin> set (finish w rc rs)" for rc rs using assms(2) finish_effects by blast
  have wipes: "e \<notin> set ws" if "set ws \<subseteq> range Wipe" for ws
    using that assms(2) by (auto simp: uses_credential_def)
  show ?thesis
  proof (cases rule: with_credential_cases[of ?prof sv lb w rec "rq_Operation req" op argv])
    case crash
    then show ?thesis using admitted assms by (simp add: uses_credential_def)
  next
    case (no_run effs ws pf)
    have f: "list_all (fetching (pf_Secrets pf)) effs" using no_run(2) fetch_loop_fetching by (metis prod.collapse)
    have "e \<in> set effs" using no_run(3,4) admitted(2) assms(1) fin wipes by auto
    then show ?thesis using within_fetching[OF f] no_run(1) admitted(1) by blast
  next
    case (run effs ws pf cred secrets)
    have f: "list_all (fetching (pf_Secrets pf)) effs" using run(2) fetch_loop_fetching by blast
    have r: "within sv w pf op argv e"
      if "e \<in> set (run_operation sv lb w rec (rq_Operation req) op pf argv cred)"
      using that fin assms(2) by (rule within_run_operation)
    have "e \<in> set effs \<or> e = Hold cred \<or> e \<in> set (run_operation sv lb w rec (rq_Operation req) op pf argv cred)"
      using run(4,5) admitted(2) assms(1) wipes by auto
    then have "within sv w pf op argv e"
      using within_fetching[OF f] r by (auto simp: within_def)
    then show ?thesis using run(1) admitted(1) by blast
  qed
qed (use assms finish_effects in \<open>auto simp: uses_credential_def\<close>)

subsection \<open>Properties\<close>

text \<open>
  (C1) Every session keeps the protocol, whatever the peer, the stores, the file system and the
  consumer do, and on every error path: the effects of the handler are a run of the abstract
  machine, so no credential is used once the audit is written, the audit comes after the runtime
  directory is gone and before the answer, there is at most one of each, and \<open>OK\<close> is said over a
  durable record only. At the end every secret buffer has been zeroed and no directory is left.
\<close>

theorem session_protocol:
  "\<exists>m. accept idle (handleConn sv lb w) = Some m \<and> mo_held m = {#} \<and> mo_dir m = None \<and>
     (mo_sent m \<longleftrightarrow> mo_audited m \<noteq> None)"
  by (rule session_accepted)

text \<open>
  (C12) No credential is touched for a request that is not admitted: if a session asks a store,
  holds a secret, makes a directory or starts a program, then the peer is authorized for the
  operation it named and its inputs passed every check before. What is fetched are references of
  the operation's profile only, and what runs is the argument vector built from the definition,
  in an environment made from nothing.
\<close>

theorem credential_needs_admission:
  assumes "e \<in> set (handleConn sv lb w)" "uses_credential e"
  shows "\<exists>req def op argv pf. admitted sv lb w req def op argv \<and> map_of (sv_profiles sv) (cd_Profile def) = Some pf \<and>
    within sv w pf op argv e"
  by (rule credential_admitted[OF assms])

text \<open>
  A peer learns nothing from a denial: for an operation it may not call, the whole session
  is the same whatever definitions and profiles the broker has loaded, so the answer cannot tell
  an operation that exists from one that does not.
\<close>

theorem denial_reveals_nothing:
  assumes "wd_peer w = Some uid" "readFrame (wd_bytes w) (word_of_int (sv_MaxRequestBytes sv)) = Inr (raw, rest)"
    "decodeRequest (lb_request lb) raw = Inr req" "\<not> Decide (sv_authz sv) uid (rq_Operation req)"
  shows "handleConn (sv\<lparr>sv_defs := defs, sv_profiles := profs\<rparr>) lb w = handleConn sv lb w \<and>
    (\<forall>e\<in>set (handleConn sv lb w). \<not> uses_credential e)"
  using assms finish_effects by (auto simp: handleConn_def serve_request_def Let_def split: option.splits if_splits)


text \<open>
  The time limit of an operation is what its definition says up to 9223372036 seconds. No
  larger value is refused, and the product is taken in 64 bits: one second more gives a limit in
  the past, and 18446744074 seconds give less than a third of a second.
\<close>

theorem opTimeout_wraps:
  "(0 < op_TimeoutSeconds op \<and> op_TimeoutSeconds op \<le> 9223372036 \<longrightarrow>
      opTimeout op def = op_TimeoutSeconds op * second \<and> 0 < opTimeout op def) \<and>
   opTimeout (op\<lparr>op_TimeoutSeconds := 9223372037\<rparr>) def < 0 \<and>
   opTimeout (op\<lparr>op_TimeoutSeconds := 18446744074\<rparr>) def = 290448384"
  by (auto simp: opTimeout_def wrap_int64_def second_def)

theorem opTimeout_wraps_witness:
  "opTimeout \<lparr>op_Argv = [], op_Inputs = [], op_Response = ''json'', op_TimeoutSeconds = 60, op_ResponseConfig = []\<rparr> 30 =
     60000000000"
  using opTimeout_wraps[of "\<lparr>op_Argv = [], op_Inputs = [], op_Response = ''json'', op_TimeoutSeconds = 60, op_ResponseConfig = []\<rparr>" 30]
  by (simp add: second_def)

subsection \<open>An example session\<close>

definition demo_op :: operation where
  "demo_op = \<lparr>op_Argv = [''repos'', ''list''], op_Inputs = [], op_Response = ''json'', op_TimeoutSeconds = 60, op_ResponseConfig = []\<rparr>"

definition demo_def :: consumer_def where
  "demo_def = \<lparr>cd_Schema = 1, cd_Name = ''tea'', cd_Executable = ''/usr/bin/tea'', cd_Profile = ''tea'',
     cd_Operations = [(''repos-list'', demo_op)]\<rparr>"

definition demo_profile :: profile where
  "demo_profile = \<lparr>pf_Description = [], pf_Secrets = [(''token'', ''bao:app/tea#token'')], pf_Template = ''token: '',
     pf_Inject = \<lparr>inj_Env = ''TEA_CONFIG'', inj_EnvDir = [], inj_Filename = []\<rparr>\<rparr>"

definition demo_server :: server where
  "demo_server = \<lparr>sv_MaxRequestBytes = 65536, sv_MaxResponseBytes = 1048576, sv_DefaultOpTimeout = 30000000000,
     sv_defs = [(''tea'', demo_def)], sv_profiles = [(''tea'', demo_profile)], sv_authz = example_authz\<rparr>"

definition demo_request :: brequest where
  "demo_request = \<lparr>rq_Protocol = 1, rq_Operation = ''tea.repos-list'', rq_Inputs = []\<rparr>"

definition demo_libs :: "string libs" where
  "demo_libs = \<lparr>lb_re = toy_regexps,
     lb_json = example_json_lib\<lparr>js_repos := (\<lambda>s. if s = ''[]'' then Inr ([], True) else Inl []),
       js_Marshal := (\<lambda>v. case v of Repos [] \<Rightarrow> Inr ''[]'' | _ \<Rightarrow> Inl [])\<rparr>,
     lb_url = example_url_lib, lb_request = (\<lambda>s. if s = ''{}'' then Inr (demo_request, True) else Inl []),
     lb_engine = \<lparr>te_Parse = Inr, te_Execute = (\<lambda>t m. Inr (t @ concat (map snd m)))\<rparr>, lb_Error = (\<lambda>_. [])\<rparr>"

definition demo_world :: world where
  "demo_world = \<lparr>wd_peer = Some 1000, wd_bytes = PutUint32 2 @ ''{}'', wd_resolve = (\<lambda>_. Inr (\<lambda>_. Inr ''s3cret'')),
     wd_newdir = Some ''/run/p/r1'', wd_parent = True, wd_opens = True, wd_writes = True, wd_closes = True,
     wd_consumer = (\<lambda>_ _. ([''[]''], [], False, False)), wd_audit = (\<lambda>_. True), wd_start = ''T'', wd_duration = ''1ms''\<rparr>"

lemma demo_frame: "readFrame (wd_bytes demo_world) (word_of_int (sv_MaxRequestBytes demo_server)) = Inr (''{}'', [])"
proof -
  have "length (PutUint32 2) = 4" by (simp add: PutUint32_def)
  moreover have "unat (2 :: 32 word) = 2" by simp
  ultimately show ?thesis
    by (simp add: demo_world_def demo_server_def readFrame_def Let_def Uint32_PutUint32)
qed

lemma demo_decoded: "decodeRequest (lb_request demo_libs) ''{}'' = Inr demo_request"
  by (simp add: decodeRequest_def decodeExactlyOne_def demo_libs_def)

lemma demo_split: "splitOperationRef ''tea.repos-list'' = Some (''tea'', ''repos-list'')"
  by code_simp

lemma demo_argv: "BuildArgv re demo_def ''repos-list'' [] = Inr [''/usr/bin/tea'', ''repos'', ''list'']"
proof -
  have "substitute ''repos'' [] = Inr ''repos''" "substitute ''list'' [] = Inr ''list''" by code_simp+
  then show ?thesis by (simp add: BuildArgv_def demo_def_def demo_op_def sortedKeys_def)
qed

lemma demo_server_ok: "server_ok demo_libs demo_server"
proof -
  have "authz_Validate example_authz [(''tea'', demo_def)] = None" by code_simp
  moreover have "validatorFor js ul ''tea.repos-list'' demo_op = Inr (canonicalizeTeaReposList js)" for js ul
    by (simp add: validatorFor_def responseValidators_def demo_op_def)
  ultimately show ?thesis
    by (simp add: server_ok_def demo_server_def demo_def_def)
qed

definition demo_record :: audit_record where
  "demo_record = \<lparr>au_Time = ''T'', au_PeerUID = 1000, au_Operation = ''tea.repos-list'', au_Decision = [], au_Outcome = [],
     au_Duration = [], au_InputNames = []\<rparr>"

lemma demo_session:
  "handleConn demo_server demo_libs demo_world =
     with_credential demo_server demo_libs demo_world demo_record ''tea.repos-list'' demo_op (Some demo_profile)
       [''/usr/bin/tea'', ''repos'', ''list'']"
proof -
  have "Decide example_authz 1000 ''tea.repos-list''" by (simp add: Decide_def example_authz_def)
  moreover have "map_of (cd_Operations demo_def) ''repos-list'' = Some demo_op" "cd_Profile demo_def = ''tea''"
    by (simp_all add: demo_def_def)
  moreover have "wd_peer demo_world = Some 1000" "wd_start demo_world = ''T''" by (simp_all add: demo_world_def)
  ultimately show ?thesis
    using demo_frame demo_decoded demo_split demo_argv
    by (simp add: handleConn_def serve_request_def demo_request_def ProtocolVersion_def demo_server_def
        sortedInputNames_def demo_record_def)
qed

definition demo_env :: "string list" where
  "demo_env = minimalEnv ''/run/p/r1'' (pf_Inject demo_profile) ''/run/p/r1/credential'' ''/run/p/r1''"


definition demo_ref :: secret_ref where
  "demo_ref = \<lparr>sr_Backend = ''openbao'', sr_Path = ''app/tea'', sr_Field = ''token'', sr_Raw = ''bao:app/tea#token''\<rparr>"

lemma demo_trace:
  "handleConn demo_server demo_libs demo_world =
     [Fetch demo_ref, Hold ''s3cret'', Hold ''token: s3cret'', NewDir ''/run/p/r1'',
      Credential ''/run/p/r1/credential'' ''token: s3cret'',
      Exec [''/usr/bin/tea'', ''repos'', ''list''] demo_env 60000000000, RemoveDir ''/run/p/r1'',
      Audit (demo_record\<lparr>au_Duration := ''1ms'', au_Decision := ''OK''\<rparr>) True, Send (okResponse ''[]''),
      Wipe ''token: s3cret'', Wipe ''s3cret'']"
proof -
  let ?dir = "''/run/p/r1''"
  have ref: "ParseRef ''bao:app/tea#token'' = Inr demo_ref" by code_simp
  have fetch: "fetchSecrets demo_world demo_profile =
      ([Fetch demo_ref, Hold ''s3cret''], Inr [(''token'', ''s3cret'')])"
    by (simp add: fetchSecrets_def demo_profile_def demo_world_def ref)
  have cred: "Render (lb_engine demo_libs) demo_profile [(''token'', ''s3cret'')] = Inr ''token: s3cret''"
    by (simp add: Render_def demo_libs_def demo_profile_def)
  have path: "Join [?dir, ''credential''] = ''/run/p/r1/credential''" "Dir ''/run/p/r1/credential'' = ?dir"
    "contains_path ?dir ''/run/p/r1/credential''" by code_simp+
  have written: "snd (WriteFile True True True True ?dir (FileName (pf_Inject demo_profile)) c ((\<lambda>_. None)(?dir \<mapsto> EDir))) =
      Inr ''/run/p/r1/credential''" for c
    using path by (simp add: WriteFile_def FileName_def demo_profile_def Let_def)
  have out: "runConsumer [''[]''] [] False False (nat (sv_MaxResponseBytes demo_server)) =
      \<lparr>lr_stdout = ''[]'', lr_truncated = False, lr_stderrLen = 0, lr_timedOut = False, lr_exitErr = False\<rparr>"
    by (simp add: runConsumer_def demo_server_def buffer_writes_def new_buffer_def buffer_Write_def)
  have ok: "classify demo_libs ''tea.repos-list'' demo_op
      \<lparr>lr_stdout = ''[]'', lr_truncated = False, lr_stderrLen = 0, lr_timedOut = False, lr_exitErr = False\<rparr> = okResponse ''[]''"
    by (simp add: classify_def validatorFor_def responseValidators_def demo_op_def canonicalizeTeaReposList_def
        decodeExactlyOne_def demo_libs_def render_approved_def)
  have fin: "finish demo_world demo_record (okResponse ''[]'') =
      [Audit (demo_record\<lparr>au_Duration := ''1ms'', au_Decision := ''OK''\<rparr>) True, Send (okResponse ''[]'')]"
    by (simp add: finish_def demo_world_def okResponse_def StatusOK_def)
  have t: "opTimeout demo_op d = 60000000000" for d by (simp add: opTimeout_def demo_op_def wrap_int64_def second_def)
  have w: "wd_newdir demo_world = Some ?dir" "wd_parent demo_world" "wd_opens demo_world" "wd_writes demo_world"
    "wd_closes demo_world" "wd_consumer demo_world a b = ([''[]''], [], False, False)" for a b
    by (simp_all add: demo_world_def)
  have run: "run_operation demo_server demo_libs demo_world demo_record ''tea.repos-list'' demo_op demo_profile
        [''/usr/bin/tea'', ''repos'', ''list''] ''token: s3cret'' =
      [NewDir ?dir, Credential ''/run/p/r1/credential'' ''token: s3cret'',
       Exec [''/usr/bin/tea'', ''repos'', ''list''] demo_env 60000000000, RemoveDir ?dir,
       Audit (demo_record\<lparr>au_Duration := ''1ms'', au_Decision := ''OK''\<rparr>) True, Send (okResponse ''[]'')]"
    by (simp add: run_operation_def w written out ok fin t demo_env_def)
  show ?thesis
    by (simp add: demo_session with_credential_def fetch cred run zeroAll_def)
qed

theorem credential_needs_admission_witness:
  "\<exists>req def op argv pf. admitted demo_server demo_libs demo_world req def op argv \<and>
     within demo_server demo_world pf op argv (Exec [''/usr/bin/tea'', ''repos'', ''list''] demo_env 60000000000)"
proof -
  have "Exec [''/usr/bin/tea'', ''repos'', ''list''] demo_env 60000000000 \<in> set (handleConn demo_server demo_libs demo_world)"
    by (simp add: demo_trace)
  moreover have "uses_credential (Exec [''/usr/bin/tea'', ''repos'', ''list''] demo_env 60000000000)"
    by (simp add: uses_credential_def)
  ultimately show ?thesis using credential_needs_admission by blast
qed

theorem denial_reveals_nothing_witness:
  "handleConn (demo_server\<lparr>sv_defs := [], sv_profiles := []\<rparr>) demo_libs (demo_world\<lparr>wd_peer := Some 1001\<rparr>) =
   handleConn demo_server demo_libs (demo_world\<lparr>wd_peer := Some 1001\<rparr>)"
proof -
  let ?w = "demo_world\<lparr>wd_peer := Some 1001\<rparr>"
  have f: "readFrame (wd_bytes ?w) (word_of_int (sv_MaxRequestBytes demo_server)) = Inr (''{}'', [])"
    using demo_frame by simp
  have d: "\<not> Decide (sv_authz demo_server) 1001 (rq_Operation demo_request)"
    by (simp add: Decide_def demo_server_def example_authz_def)
  have p: "wd_peer ?w = Some 1001" by simp
  show ?thesis using denial_reveals_nothing[OF p f demo_decoded d] by blast
qed


end
