(* ===== verification/Trust_Root.thy ===== *)
theory Trust_Root
  imports Paths
begin

text \<open>
  The trust-root check (\<open>internal/consumer/trustroot.go\<close>) over a file system with symbolic
  links. A file system maps an absolute path, given as its list of elements, to what
  \<open>lstat\<close> reports there.
\<close>

unbundle bit_operations_syntax

subsection \<open>The file system\<close>

datatype fnode =
    Entry (entry_uid: nat) (entry_mode: nat)
  | Link string

type_synonym tree = "string list \<Rightarrow> fnode option"

definition path_string :: "string list \<Rightarrow> string" where
  "path_string cs = slash # join_with ''/'' cs"

text \<open>
  \<open>filepath.EvalSymlinks\<close> on the elements \<open>todo\<close> under the resolved prefix \<open>done\<close>: each link
  met is replaced by its target, and more than 255 links are an error.
\<close>

function eval_links :: "tree \<Rightarrow> nat \<Rightarrow> string list \<Rightarrow> string list \<Rightarrow> string list option" where
  "eval_links t left done [] = Some done"
| "eval_links t left done (c # todo) =
     (if c = [] \<or> c = ''.'' then eval_links t left done todo
      else if c = ''..'' then eval_links t left (butlast done) todo
      else case t (done @ [c]) of
             None \<Rightarrow> None
           | Some (Entry _ _) \<Rightarrow> eval_links t left (done @ [c]) todo
           | Some (Link target) \<Rightarrow>
               (if left = 0 then None
                else eval_links t (left - 1) (if IsAbs target then [] else done) (split_on slash target @ todo)))"
  by pat_completeness auto
termination
  by (relation "inv_image (less_than <*lex*> less_than) (\<lambda>(t, left, done, todo). (left, length todo))") auto

definition EvalSymlinks :: "tree \<Rightarrow> string \<Rightarrow> string list option" where
  "EvalSymlinks t path = eval_links t 255 [] (split_on slash path)"

text \<open>\<open>filepath.Abs\<close> in the working directory \<open>cwd\<close>, \<open>None\<close> when that is unknown.\<close>

definition Abs :: "string option \<Rightarrow> string \<Rightarrow> string option" where
  "Abs cwd path = (if IsAbs path then Some (Clean path) else map_option (\<lambda>d. Join [d, path]) cwd)"

subsection \<open>The check\<close>

definition TrustedOwnerRootUID :: nat where "TrustedOwnerRootUID = 0"

datatype trust_reason = CannotResolve | CannotEvalSymlinks | CannotStat | OwnedBy nat nat | WritableByOthers nat

record TrustRootError =
  tr_Asked :: string
  tr_Failed :: string
  tr_Reason :: trust_reason

definition checkOwnership ::
  "tree \<Rightarrow> string \<Rightarrow> string list \<Rightarrow> nat \<Rightarrow> bool \<Rightarrow> TrustRootError option" where
  "checkOwnership t asked p trustedOwnerUID target =
     (let fail = (\<lambda>reason. Some \<lparr>tr_Asked = asked, tr_Failed = path_string p, tr_Reason = reason\<rparr>) in
      case t p of
        None \<Rightarrow> fail CannotStat
      | Some n \<Rightarrow>
          let (uid, mode) = (case n of Entry u m \<Rightarrow> (u, m) | Link _ \<Rightarrow> (0, 511)) in
          if uid \<noteq> trustedOwnerUID \<and> (target \<or> uid \<noteq> 0) then fail (OwnedBy uid trustedOwnerUID)
          else if mode AND 18 \<noteq> 0 then fail (WritableByOthers mode)
          else None)"

text \<open>
  The walk from the resolved path up to \<open>stop\<close> or the root; \<open>n\<close> elements of the path are left,
  and \<open>filepath.Dir\<close> drops one.
\<close>

fun trust_walk :: "tree \<Rightarrow> string \<Rightarrow> nat \<Rightarrow> string list \<Rightarrow> string list \<Rightarrow> bool \<Rightarrow> nat \<Rightarrow> TrustRootError option" where
  "trust_walk t asked owner resolved stop first n =
     (case checkOwnership t asked (take n resolved) owner first of
        Some e \<Rightarrow> Some e
      | None \<Rightarrow>
          if take n resolved = stop \<or> n = 0 then None
          else trust_walk t asked owner resolved stop False (n - 1))"

declare trust_walk.simps [simp del]

definition verifyTrustRootUnder ::
  "tree \<Rightarrow> string option \<Rightarrow> string \<Rightarrow> nat \<Rightarrow> string \<Rightarrow> TrustRootError option" where
  "verifyTrustRootUnder t cwd path owner stopAt =
     (case Abs cwd path of
        None \<Rightarrow> Some \<lparr>tr_Asked = path, tr_Failed = path, tr_Reason = CannotResolve\<rparr>
      | Some full \<Rightarrow>
          (case EvalSymlinks t full of
             None \<Rightarrow> Some \<lparr>tr_Asked = path, tr_Failed = full, tr_Reason = CannotEvalSymlinks\<rparr>
           | Some resolved \<Rightarrow>
               (case EvalSymlinks t stopAt of
                  None \<Rightarrow> Some \<lparr>tr_Asked = path, tr_Failed = stopAt, tr_Reason = CannotEvalSymlinks\<rparr>
                | Some stop \<Rightarrow> trust_walk t path owner resolved stop True (length resolved))))"

definition VerifyTrustRoot :: "tree \<Rightarrow> string option \<Rightarrow> string \<Rightarrow> nat \<Rightarrow> TrustRootError option" where
  "VerifyTrustRoot t cwd path owner = verifyTrustRootUnder t cwd path owner ''/''"

definition VerifyExecutable :: "tree \<Rightarrow> string option \<Rightarrow> string \<Rightarrow> nat \<Rightarrow> TrustRootError option" where
  "VerifyExecutable t cwd executable owner = VerifyTrustRoot t cwd executable owner"

subsection \<open>Who can change what\<close>

text \<open>
  Whether user \<open>u\<close> can change a node: it owns it (and can then set any mode), or the mode lets
  group or other write.
\<close>

definition can_write :: "tree \<Rightarrow> nat \<Rightarrow> string list \<Rightarrow> bool" where
  "can_write t u p \<longleftrightarrow>
     (case t p of Some (Entry uid mode) \<Rightarrow> uid = u \<or> mode AND 18 \<noteq> 0 | _ \<Rightarrow> False)"

definition node_trusted :: "tree \<Rightarrow> nat \<Rightarrow> bool \<Rightarrow> string list \<Rightarrow> bool" where
  "node_trusted t owner target p \<longleftrightarrow>
     (\<exists>uid mode. t p = Some (Entry uid mode) \<and> mode AND 18 = 0 \<and> (uid = owner \<or> (\<not> target \<and> uid = 0)))"

lemma checkOwnership_None: "checkOwnership t asked p owner target = None \<longleftrightarrow> node_trusted t owner target p"
proof (cases "t p")
  case (Some n)
  have "(511 AND 18 :: nat) \<noteq> 0" by code_simp
  then show ?thesis using Some by (cases n) (auto simp: checkOwnership_def node_trusted_def)
qed (simp add: checkOwnership_def node_trusted_def)

lemma trust_walk_root:
  "trust_walk t asked owner resolved [] first n = None \<longleftrightarrow>
     node_trusted t owner first (take n resolved) \<and> (\<forall>k<n. take n resolved \<noteq> [] \<longrightarrow> node_trusted t owner False (take k resolved))"
proof (induction n arbitrary: first)
  case 0
  show ?case
    using checkOwnership_None[of t asked "[]" owner first] by (auto simp: trust_walk.simps split: option.splits)
next
  case (Suc n)
  show ?case
  proof (cases "resolved = []")
    case True
    then show ?thesis
      using checkOwnership_None[of t asked "[]" owner first]
      by (auto simp: trust_walk.simps[of _ _ _ _ _ _ "Suc n"] split: option.splits)
  next
    case False
    have "trust_walk t asked owner resolved [] first (Suc n) = None \<longleftrightarrow>
        node_trusted t owner first (take (Suc n) resolved) \<and> trust_walk t asked owner resolved [] False n = None"
      using False checkOwnership_None[of t asked "take (Suc n) resolved" owner first]
      by (auto simp: trust_walk.simps[of _ _ _ _ _ _ "Suc n"] split: option.splits)
    also have "\<dots> \<longleftrightarrow> node_trusted t owner first (take (Suc n) resolved) \<and>
        (\<forall>k<Suc n. node_trusted t owner False (take k resolved))"
      using Suc.IH[of False] False by (auto simp: less_Suc_eq)
    finally show ?thesis using False by simp
  qed
qed

lemma VerifyTrustRoot_None:
  "VerifyTrustRoot t cwd path owner = None \<longleftrightarrow>
     (\<exists>full resolved. Abs cwd path = Some full \<and> EvalSymlinks t full = Some resolved \<and> node_trusted t owner True resolved \<and>
        (\<forall>k<length resolved. node_trusted t owner False (take k resolved)))"
proof -
  have "EvalSymlinks t ''/'' = Some []" by (simp add: EvalSymlinks_def slash_def)
  then show ?thesis
    by (auto simp: VerifyTrustRoot_def verifyTrustRootUnder_def trust_walk_root split: option.splits)
qed

text \<open>A path as \<open>owner\<close> keeps it: where it leads now, no user but it and root can change a node.\<close>

definition protected :: "tree \<Rightarrow> string option \<Rightarrow> nat \<Rightarrow> string \<Rightarrow> bool" where
  "protected t cwd owner path \<longleftrightarrow>
     (\<exists>full resolved. Abs cwd path = Some full \<and> EvalSymlinks t full = Some resolved \<and>
        (\<forall>u k. u \<noteq> 0 \<and> u \<noteq> owner \<longrightarrow> \<not> can_write t u (take k resolved)))"

lemma VerifyTrustRoot_protected:
  assumes "VerifyTrustRoot t cwd path owner = None"
  shows "protected t cwd owner path"
proof -
  obtain full resolved where v: "Abs cwd path = Some full" "EvalSymlinks t full = Some resolved"
    "node_trusted t owner True resolved" "\<forall>k<length resolved. node_trusted t owner False (take k resolved)"
    using assms VerifyTrustRoot_None by blast
  have "\<not> can_write t u (take k resolved)" if "u \<noteq> 0" "u \<noteq> owner" for u k
  proof -
    have "node_trusted t owner (k \<ge> length resolved) (take k resolved)" using v(3,4) by (cases "k < length resolved") auto
    then show ?thesis using that by (auto simp: node_trusted_def can_write_def)
  qed
  then show ?thesis using v(1,2) unfolding protected_def by blast
qed

subsection \<open>Properties\<close>

text \<open>
  (C33) The check accepts a path exactly when it resolves to a target owned by the trusted
  owner, reached through directories owned by it or by root, none of them writable by group or
  other. So no other user can change the resolved target or any directory on the way to it.
\<close>

theorem VerifyTrustRoot_protects:
  assumes "IsAbs path"
  shows "(VerifyTrustRoot t cwd path owner = None \<longleftrightarrow>
      (\<exists>resolved. EvalSymlinks t (Clean path) = Some resolved \<and> node_trusted t owner True resolved \<and>
         (\<forall>k<length resolved. node_trusted t owner False (take k resolved)))) \<and>
    (\<forall>resolved u k. VerifyTrustRoot t cwd path owner = None \<and> EvalSymlinks t (Clean path) = Some resolved \<and>
       u \<noteq> 0 \<and> u \<noteq> owner \<longrightarrow> \<not> can_write t u (take k resolved))"
  using VerifyTrustRoot_None[of t cwd path owner] VerifyTrustRoot_protected[of t cwd path owner] assms
  by (auto simp: protected_def Abs_def)

text \<open>A root-owned program, and a directory of user 1000 that holds a link to it.\<close>

definition linked_tree :: tree where
  "linked_tree p =
     (if p = [] \<or> p = [''usr''] \<or> p = [''usr'', ''bin''] \<or> p = [''usr'', ''bin'', ''tea''] \<or> p = [''home''] then Some (Entry 0 493)
      else if p = [''home'', ''me''] then Some (Entry 1000 493)
      else if p = [''home'', ''me'', ''tea''] then Some (Link ''/usr/bin/tea'')
      else if p = [''home'', ''me'', ''evil''] then Some (Entry 1000 493)
      else None)"

theorem VerifyTrustRoot_protects_witness:
  "\<not> can_write linked_tree 1000 [''usr'', ''bin'']"
proof -
  have e: "EvalSymlinks linked_tree (Clean ''/usr/bin/tea'') = Some [''usr'', ''bin'', ''tea'']" by code_simp
  have v: "VerifyTrustRoot linked_tree None ''/usr/bin/tea'' 0 = None" by code_simp
  have a: "IsAbs ''/usr/bin/tea''" by code_simp
  have "(1000::nat) \<noteq> 0" by simp
  then have "\<not> can_write linked_tree 1000 (take 2 [''usr'', ''bin'', ''tea''])"
    using VerifyTrustRoot_protects[OF a, of linked_tree None 0] v e by blast
  then show ?thesis by (simp add: numeral_2_eq_2)
qed

text \<open>
  What the check does not cover. It resolves the links of the path first and then looks
  at the resolved path only, so a path through a link in a directory the client owns is
  accepted; once the client has replaced the link by a program of its own, the very path that
  was accepted names that program. The executable is run by the path of the definition, not by
  the resolved one.
\<close>

theorem trust_root_misses_links:
  "VerifyExecutable linked_tree None ''/home/me/tea'' TrustedOwnerRootUID = None \<and>
   can_write linked_tree 1000 [''home'', ''me''] \<and>
   (let swapped = linked_tree([''home'', ''me'', ''tea''] := linked_tree [''home'', ''me'', ''evil'']) in
    EvalSymlinks swapped ''/home/me/tea'' = Some [''home'', ''me'', ''tea''] \<and>
    can_write swapped 1000 [''home'', ''me'', ''tea''])"
  by (intro conjI; code_simp)

end
