(* ===== verification/Broker_Server.thy ===== *)
theory Broker_Server
  imports Broker_Session Trust_Root
begin

text \<open>
  The broker process (\<open>internal/broker/broker.go\<close>): the configuration, the startup checks of
  \<open>newServer\<close>, the permissions of the socket, and \<open>Serve\<close> as a step relation over the accept
  loop, the goroutine that closes the listener, and the handlers, whose effects interleave.
\<close>

subsection \<open>Configuration\<close>

record config =
  cf_SocketPath :: string
  cf_AuthzPath :: string
  cf_AuditPath :: string
  cf_TrustedOwnerUID :: "32 word"
  cf_SocketGroupName :: string
  cf_MaxRequestBytes :: int
  cf_MaxResponseBytes :: int
  cf_ReadTimeout :: int
  cf_DefaultOpTimeout :: int

definition applyDefaults :: "config \<Rightarrow> config" where
  "applyDefaults cfg =
     (let c1 = (if cf_MaxRequestBytes cfg = 0 then cfg\<lparr>cf_MaxRequestBytes := int MaxRequestBytes\<rparr> else cfg);
          c2 = (if cf_MaxResponseBytes c1 = 0 then c1\<lparr>cf_MaxResponseBytes := int MaxResponseBytes\<rparr> else c1);
          c3 = (if cf_ReadTimeout c2 = 0 then c2\<lparr>cf_ReadTimeout := 5 * second\<rparr> else c2)
      in if cf_DefaultOpTimeout c3 = 0 then c3\<lparr>cf_DefaultOpTimeout := 30 * second\<rparr> else c3)"

subsection \<open>Startup\<close>

text \<open>
  What startup reads: the environment, the listing of the definitions directory (\<open>None\<close> if it is
  missing), the bytes of a path, the three decoders, and the trust-root check as the function
  \<open>newServer\<close> is given, here whether it accepts a path.
\<close>

record startup =
  su_env :: env
  su_entries :: "string + (string \<times> bool) list option"
  su_read :: "string \<Rightarrow> string + string"
  su_definition :: "string \<Rightarrow> string + consumer_def \<times> bool"
  su_profile :: "string \<Rightarrow> string + profile"
  su_authz :: "string \<Rightarrow> string + authz_file \<times> bool"
  su_verify :: "string \<Rightarrow> 32 word \<Rightarrow> bool"

datatype startup_error =
    LoadDefinitions load_all_error | ReadDirectory string | NoDefinitions
  | DefinitionUntrusted string | ExecutableUntrusted string | OperationValidator string string config_error
  | ProfileLoad string profile_error | ProfileUntrusted string | ProfileReserved string string
  | AuthzRead string | AuthzLoad authz_error | AuthzUntrusted | AuthzInvalid authz_ref_error

definition load_definitions :: "'a libs \<Rightarrow> startup \<Rightarrow> startup_error + (string \<times> consumer_def) list" where
  "load_definitions lb su =
     (case su_entries su of
        Inl e \<Rightarrow> Inl (ReadDirectory e)
      | Inr None \<Rightarrow> Inr []
      | Inr (Some entries) \<Rightarrow>
          (case LoadAll (\<lambda>name. consumer_LoadFile (lb_re lb) (su_read su) (su_definition su) (Join [consumer_Dir (su_env su), name])) entries of
             Inl e \<Rightarrow> Inl (LoadDefinitions e)
           | Inr defs \<Rightarrow> Inr defs))"

text \<open>The loop over the definitions: the file, the executable, a validator for every operation.\<close>

definition check_operation :: "'a libs \<Rightarrow> string \<Rightarrow> string \<times> operation \<Rightarrow> startup_error option" where
  "check_operation lb name = (\<lambda>(opName, op).
     case validatorFor (lb_json lb) (lb_url lb) (name @ ''.'' @ opName) op of
       Inl e \<Rightarrow> Some (OperationValidator name opName e)
     | Inr _ \<Rightarrow> None)"

definition check_definition :: "'a libs \<Rightarrow> startup \<Rightarrow> config \<Rightarrow> string \<times> consumer_def \<Rightarrow> startup_error option" where
  "check_definition lb su cfg = (\<lambda>(name, def).
     if \<not> su_verify su (Join [consumer_Dir (su_env su), name @ ''.json'']) (cf_TrustedOwnerUID cfg)
     then Some (DefinitionUntrusted name)
     else if \<not> su_verify su (cd_Executable def) (cf_TrustedOwnerUID cfg) then Some (ExecutableUntrusted name)
     else first_error (check_operation lb name) (cd_Operations def))"

text \<open>The loop over the profiles the definitions reference; \<open>profiles\<close> are the ones cached.\<close>

fun load_profiles ::
  "startup \<Rightarrow> config \<Rightarrow> (string \<times> profile) list \<Rightarrow> (string \<times> consumer_def) list \<Rightarrow>
   startup_error + (string \<times> profile) list" where
  "load_profiles su cfg profiles [] = Inr profiles"
| "load_profiles su cfg profiles ((name, def) # defs) =
     (if map_of profiles (cd_Profile def) \<noteq> None then load_profiles su cfg profiles defs
      else case profile_Load (su_read su) (su_profile su) (su_env su) (cd_Profile def) of
             Inl e \<Rightarrow> Inl (ProfileLoad (cd_Profile def) e)
           | Inr prof \<Rightarrow>
               if \<not> su_verify su (Join [profile_Dir (su_env su), cd_Profile def @ ''.json'']) (cf_TrustedOwnerUID cfg)
               then Inl (ProfileUntrusted (cd_Profile def))
               else (case checkReservedInjectVars (pf_Inject prof) of
                       Some v \<Rightarrow> Inl (ProfileReserved (cd_Profile def) v)
                     | None \<Rightarrow> load_profiles su cfg ((cd_Profile def, prof) # profiles) defs))"

definition newServer :: "'a libs \<Rightarrow> startup \<Rightarrow> config \<Rightarrow> startup_error + server" where
  "newServer lb su cfg0 =
     (let cfg = applyDefaults cfg0 in
      case load_definitions lb su of
        Inl e \<Rightarrow> Inl e
      | Inr defs \<Rightarrow>
          if defs = [] then Inl NoDefinitions
          else (case first_error (check_definition lb su cfg) defs of
            Some e \<Rightarrow> Inl e
          | None \<Rightarrow>
              (case load_profiles su cfg [] defs of
                 Inl e \<Rightarrow> Inl e
               | Inr profiles \<Rightarrow>
                   (case su_read su (cf_AuthzPath cfg) of
                      Inl e \<Rightarrow> Inl (AuthzRead e)
                    | Inr data \<Rightarrow>
                        (case authz_Parse (su_authz su) data of
                           Inl e \<Rightarrow> Inl (AuthzLoad e)
                         | Inr authz \<Rightarrow>
                             if \<not> su_verify su (cf_AuthzPath cfg) (cf_TrustedOwnerUID cfg) then Inl AuthzUntrusted
                             else (case authz_Validate authz defs of
                                     Some e \<Rightarrow> Inl (AuthzInvalid e)
                                   | None \<Rightarrow>
                                       Inr \<lparr>sv_MaxRequestBytes = cf_MaxRequestBytes cfg,
                                            sv_MaxResponseBytes = cf_MaxResponseBytes cfg,
                                            sv_DefaultOpTimeout = cf_DefaultOpTimeout cfg,
                                            sv_defs = defs, sv_profiles = profiles, sv_authz = authz\<rparr>))))))"

text \<open>
  \<open>New\<close>: the audit log's directory, and \<open>newServer\<close> with the real trust-root check on a tree of
  files and with the real store and peer, which no setting replaces.
\<close>

datatype new_error = AuditDirectory | Startup startup_error

definition newFileAuditWriter :: "(string \<Rightarrow> bool) \<Rightarrow> string \<Rightarrow> string option" where
  "newFileAuditWriter mkdirAll path = (if mkdirAll (Dir path) then Some path else None)"

definition wired :: "tree \<Rightarrow> string option \<Rightarrow> startup \<Rightarrow> startup" where
  "wired t cwd su = su\<lparr>su_verify := (\<lambda>path owner. VerifyTrustRoot t cwd path (unat owner) = None)\<rparr>"

definition New ::
  "'a libs \<Rightarrow> startup \<Rightarrow> tree \<Rightarrow> string option \<Rightarrow> (string \<Rightarrow> bool) \<Rightarrow> config \<Rightarrow> new_error + server" where
  "New lb su t cwd mkdirAll cfg =
     (case newFileAuditWriter mkdirAll (cf_AuditPath cfg) of
        None \<Rightarrow> Inl AuditDirectory
      | Some _ \<Rightarrow>
          (case newServer lb (wired t cwd su) cfg of Inl e \<Rightarrow> Inl (Startup e) | Inr sv \<Rightarrow> Inr sv))"

subsection \<open>The socket\<close>

record socket =
  so_gid :: "int option"
  so_mode :: "nat option"

datatype socket_error = NoSuchGroup | GidNotNumeric string | ChownFailed | ChmodFailed

text \<open>
  \<open>setSocketGroupAndMode\<close>: \<open>lookup\<close> gives the gid of a group as text; the other two say whether
  the system calls succeed. The mode is octal 660.
\<close>

record groups =
  gr_lookup :: "string \<Rightarrow> string option"
  gr_chown :: "int \<Rightarrow> bool"
  gr_chmod :: bool

definition setSocketGroupAndMode :: "groups \<Rightarrow> string \<Rightarrow> socket \<Rightarrow> socket \<times> socket_error option" where
  "setSocketGroupAndMode gr groupName so =
     (case gr_lookup gr groupName of
        None \<Rightarrow> (so, Some NoSuchGroup)
      | Some text' \<Rightarrow>
          (case atoi text' of
             None \<Rightarrow> (so, Some (GidNotNumeric text'))
           | Some gid \<Rightarrow>
               if \<not> gr_chown gr gid then (so, Some ChownFailed)
               else if \<not> gr_chmod gr then (so\<lparr>so_gid := Some gid\<rparr>, Some ChmodFailed)
               else (so\<lparr>so_gid := Some gid, so_mode := Some 432\<rparr>, None)))"

subsection \<open>What startup establishes\<close>

lemma load_all_loop_Inr:
  assumes "load_all_loop load names defs sources = Inr res" "map fst defs = map fst sources" "distinct (map fst defs)"
  shows "(\<forall>n\<in>set names. \<exists>d. load n = Inr d) \<and>
    res = rev (map (\<lambda>n. (cd_Name (projr (load n)), projr (load n))) names) @ defs \<and> distinct (map fst res)"
  using assms
proof (induction load names defs sources arbitrary: res rule: load_all_loop.induct)
  case (2 load name names defs sources)
  obtain def where d: "load name = Inr def" using "2.prems"(1) by (cases "load name") auto
  have new: "map_of sources (cd_Name def) = None" using "2.prems"(1) d by (auto split: option.splits)
  then have fresh: "cd_Name def \<notin> set (map fst defs)" using "2.prems"(2) by (simp add: map_of_eq_None_iff)
  have p: "load_all_loop load names ((cd_Name def, def) # defs) ((cd_Name def, name) # sources) = Inr res"
    "map fst ((cd_Name def, def) # defs) = map fst ((cd_Name def, name) # sources)" "distinct (map fst ((cd_Name def, def) # defs))"
    using "2.prems" d new fresh by simp_all
  note I = "2.IH"[OF d new p]
  note IH = I[THEN conjunct1] I[THEN conjunct2, THEN conjunct1] I[THEN conjunct2, THEN conjunct2]
  show ?case
  proof (intro conjI)
    show "\<forall>n\<in>set (name # names). \<exists>d. load n = Inr d" using IH(1) d by simp
    show "res = rev (map (\<lambda>n. (cd_Name (projr (load n)), projr (load n))) (name # names)) @ defs" using IH(2) d by simp
  qed (rule IH(3))
qed simp

lemma load_definitions_Inr:
  assumes "load_definitions lb su = Inr defs" "defs \<noteq> []"
  shows "\<exists>entries files load. su_entries su = Inr (Some entries) \<and>
    files = sort (map fst (filter (\<lambda>(n, isDir). \<not> isDir \<and> has_suffix n ''.json'') entries)) \<and>
    load = (\<lambda>name. consumer_LoadFile (lb_re lb) (su_read su) (su_definition su) (Join [consumer_Dir (su_env su), name])) \<and>
    (\<forall>n\<in>set files. \<exists>d. load n = Inr d) \<and> distinct (map fst defs) \<and>
    defs = rev (map (\<lambda>n. (cd_Name (projr (load n)), projr (load n))) files)"
proof -
  let ?load = "\<lambda>name. consumer_LoadFile (lb_re lb) (su_read su) (su_definition su) (Join [consumer_Dir (su_env su), name])"
  obtain entries where e: "su_entries su = Inr (Some entries)" "LoadAll ?load entries = Inr defs"
    using assms by (auto simp: load_definitions_def split: sum.splits option.splits)
  have "(\<forall>n\<in>set (sort (map fst (filter (\<lambda>(n, isDir). \<not> isDir \<and> has_suffix n ''.json'') entries))). \<exists>d. ?load n = Inr d) \<and>
    defs = rev (map (\<lambda>n. (cd_Name (projr (?load n)), projr (?load n)))
      (sort (map fst (filter (\<lambda>(n, isDir). \<not> isDir \<and> has_suffix n ''.json'') entries)))) @ [] \<and> distinct (map fst defs)"
    by (rule load_all_loop_Inr[OF e(2)[unfolded LoadAll_def]]) simp_all
  then show ?thesis using e(1) by auto
qed

lemma loaded_definition_ok:
  assumes "load_definitions lb su = Inr defs" "defs \<noteq> []" "(n, d) \<in> set defs"
  shows "n = cd_Name d \<and> definition_ok (lb_re lb) d"
proof -
  obtain load files where l: "load = (\<lambda>name. consumer_LoadFile (lb_re lb) (su_read su) (su_definition su) (Join [consumer_Dir (su_env su), name]))"
    "\<forall>n\<in>set files. \<exists>d. load n = Inr d" "defs = rev (map (\<lambda>n. (cd_Name (projr (load n)), projr (load n))) files)"
    using load_definitions_Inr[OF assms(1,2)] by blast
  obtain f where f: "f \<in> set files" "n = cd_Name (projr (load f))" "d = projr (load f)" using assms(3) l(3) by auto
  then obtain d' where "load f = Inr d'" using l(2) by blast
  then show ?thesis
    using f definition_validate_Inr unfolding l(1)
    by (auto simp: consumer_LoadFile_def consumer_Parse_def split: sum.splits if_splits)
qed

lemma load_profiles_Inr:
  assumes "load_profiles su cfg profiles defs = Inr res"
  shows "(\<forall>k p. map_of profiles k = Some p \<longrightarrow> map_of res k = Some p) \<and>
    (\<forall>(n, d)\<in>set defs. map_of res (cd_Profile d) \<noteq> None) \<and>
    (\<forall>k p. map_of res k = Some p \<longrightarrow> map_of profiles k = Some p \<or>
       profile_Load (su_read su) (su_profile su) (su_env su) k = Inr p \<and>
       su_verify su (Join [profile_Dir (su_env su), k @ ''.json'']) (cf_TrustedOwnerUID cfg) \<and>
       checkReservedInjectVars (pf_Inject p) = None)"
  using assms
proof (induction su cfg profiles defs rule: load_profiles.induct)
  case (2 su cfg profiles name def defs)
  show ?case
  proof (cases "map_of profiles (cd_Profile def) = None")
    case True
    obtain prof where p: "profile_Load (su_read su) (su_profile su) (su_env su) (cd_Profile def) = Inr prof"
      "su_verify su (Join [profile_Dir (su_env su), cd_Profile def @ ''.json'']) (cf_TrustedOwnerUID cfg)"
      "checkReservedInjectVars (pf_Inject prof) = None"
      "load_profiles su cfg ((cd_Profile def, prof) # profiles) defs = Inr res"
      using "2.prems" True by (auto split: sum.splits if_splits option.splits)
    note IH = "2.IH"(2)[of prof]
    have r: "(\<forall>k p. map_of ((cd_Profile def, prof) # profiles) k = Some p \<longrightarrow> map_of res k = Some p) \<and>
      (\<forall>(n, d)\<in>set defs. map_of res (cd_Profile d) \<noteq> None) \<and>
      (\<forall>k p. map_of res k = Some p \<longrightarrow> map_of ((cd_Profile def, prof) # profiles) k = Some p \<or>
         profile_Load (su_read su) (su_profile su) (su_env su) k = Inr p \<and>
         su_verify su (Join [profile_Dir (su_env su), k @ ''.json'']) (cf_TrustedOwnerUID cfg) \<and>
         checkReservedInjectVars (pf_Inject p) = None)"
      using IH True p by simp
    have k: "map_of ((cd_Profile def, prof) # profiles) k = Some q" if "map_of profiles k = Some q" for k q
      using that True by auto
    show ?thesis
    proof (intro conjI allI impI)
      fix k q assume "map_of profiles k = Some q"
      then show "map_of res k = Some q" using k r by blast
    next
      have "map_of res (cd_Profile def) = Some prof" using r by simp
      then show "\<forall>(n, d)\<in>set ((name, def) # defs). map_of res (cd_Profile d) \<noteq> None" using r by simp
    next
      fix k q assume "map_of res k = Some q"
      then have "map_of ((cd_Profile def, prof) # profiles) k = Some q \<or>
         profile_Load (su_read su) (su_profile su) (su_env su) k = Inr q \<and>
         su_verify su (Join [profile_Dir (su_env su), k @ ''.json'']) (cf_TrustedOwnerUID cfg) \<and>
         checkReservedInjectVars (pf_Inject q) = None" using r by blast
      then show "map_of profiles k = Some q \<or>
         profile_Load (su_read su) (su_profile su) (su_env su) k = Inr q \<and>
         su_verify su (Join [profile_Dir (su_env su), k @ ''.json'']) (cf_TrustedOwnerUID cfg) \<and>
         checkReservedInjectVars (pf_Inject q) = None"
        using p(1-3) by (cases "k = cd_Profile def") auto
    qed
  next
    case False
    then obtain q where q: "map_of profiles (cd_Profile def) = Some q" by blast
    then have "load_profiles su cfg profiles defs = Inr res" using "2.prems" by simp
    then show ?thesis using "2.IH"(1) q by fastforce
  qed
qed simp

text \<open>The facts behind every field of a started server.\<close>

lemma newServer_Inr:
  assumes "newServer lb su cfg = Inr sv"
  shows "load_definitions lb su = Inr (sv_defs sv) \<and> sv_defs sv \<noteq> [] \<and>
    first_error (check_definition lb su (applyDefaults cfg)) (sv_defs sv) = None \<and>
    load_profiles su (applyDefaults cfg) [] (sv_defs sv) = Inr (sv_profiles sv) \<and>
    (\<exists>data. su_read su (cf_AuthzPath cfg) = Inr data \<and> authz_Parse (su_authz su) data = Inr (sv_authz sv)) \<and>
    su_verify su (cf_AuthzPath cfg) (cf_TrustedOwnerUID cfg) \<and> authz_Validate (sv_authz sv) (sv_defs sv) = None"
proof -
  have d: "cf_AuthzPath (applyDefaults cfg) = cf_AuthzPath cfg" "cf_TrustedOwnerUID (applyDefaults cfg) = cf_TrustedOwnerUID cfg"
    by (simp_all add: applyDefaults_def Let_def)
  show ?thesis
    using assms unfolding newServer_def Let_def d
    by (auto split: sum.splits option.splits if_splits)
qed

lemma check_definition_None:
  "check_definition lb su cfg (n, d) = None \<longleftrightarrow>
     su_verify su (Join [consumer_Dir (su_env su), n @ ''.json'']) (cf_TrustedOwnerUID cfg) \<and>
     su_verify su (cd_Executable d) (cf_TrustedOwnerUID cfg) \<and>
     (\<forall>(opName, op)\<in>set (cd_Operations d). \<exists>v. validatorFor (lb_json lb) (lb_url lb) (n @ ''.'' @ opName) op = Inr v)"
  by (auto simp: check_definition_def check_operation_def first_error_None split: sum.splits)

lemma applyDefaults_owner: "cf_TrustedOwnerUID (applyDefaults cfg) = cf_TrustedOwnerUID cfg"
  by (simp add: applyDefaults_def Let_def)

lemma newServer_ok:
  assumes "newServer lb su cfg = Inr sv"
  shows "server_ok lb sv"
proof -
  note n = newServer_Inr[OF assms]
  have c: "check_definition lb su (applyDefaults cfg) x = None" if "x \<in> set (sv_defs sv)" for x
    using n that by (simp add: first_error_None)
  have p: "\<forall>(n, d)\<in>set (sv_defs sv). map_of (sv_profiles sv) (cd_Profile d) \<noteq> None"
    using load_profiles_Inr[of su "applyDefaults cfg" "[]" "sv_defs sv" "sv_profiles sv"] n by simp
  show ?thesis
    unfolding server_ok_def
  proof (intro conjI ballI)
    show "authz_Validate (sv_authz sv) (sv_defs sv) = None" using n by simp
    fix x assume x: "x \<in> set (sv_defs sv)"
    obtain name def where nd: "x = (name, def)" by fastforce
    show "case x of (name, def) \<Rightarrow> map_of (sv_profiles sv) (cd_Profile def) \<noteq> None \<and>
        (\<forall>(opName, op)\<in>set (cd_Operations def). \<exists>v. validatorFor (lb_json lb) (lb_url lb) (name @ ''.'' @ opName) op = Inr v)"
      using c[OF x] p x nd by (auto simp: check_definition_None)
  qed
qed

subsection \<open>An example startup\<close>

definition demo_startup :: startup where
  "demo_startup =
     \<lparr>su_env = \<lparr>env_PARZIVAL_CONFIG_HOME = ''/etc/pz'', env_XDG_CONFIG_HOME = [], env_XDG_STATE_HOME = [],
        env_XDG_RUNTIME_DIR = [], env_home = []\<rparr>,
      su_entries = Inr (Some [(''tea.json'', False)]), su_read = Inr, su_definition = (\<lambda>_. Inr (demo_def, False)),
      su_profile = (\<lambda>_. Inr demo_profile), su_authz = (\<lambda>_. Inr (example_authz, True)), su_verify = (\<lambda>_ _. True)\<rparr>"

definition demo_config :: config where
  "demo_config = \<lparr>cf_SocketPath = ''/run/pz.sock'', cf_AuthzPath = ''/etc/pz/authz.json'', cf_AuditPath = ''/var/log/pz'',
     cf_TrustedOwnerUID = 0, cf_SocketGroupName = ''pz'', cf_MaxRequestBytes = 0, cf_MaxResponseBytes = 0,
     cf_ReadTimeout = 0, cf_DefaultOpTimeout = 0\<rparr>"

lemma demo_paths:
  "Join [consumer_Dir (su_env demo_startup), ''tea.json''] = ''/etc/pz/consumers/tea.json''"
  "Join [profile_Dir (su_env demo_startup), ''tea.json''] = ''/etc/pz/profiles/tea.json''"
  by code_simp+

lemma demo_def_validates: "definition_validate toy_regexps demo_def = Inr demo_def"
  by code_simp

lemma demo_profile_loads:
  "profile_Load Inr (\<lambda>_. Inr demo_profile) e ''tea'' = Inr demo_profile"
proof -
  have "trim_space ''token: '' \<noteq> []" "slash \<notin> set ''tea''" "backslash \<notin> set ''tea''" by code_simp+
  then show ?thesis by (simp add: profile_Load_def demo_profile_def validateFilename_def)
qed

lemma demo_started:
  assumes "su_entries su = Inr (Some entries)"
    "sort (map fst (filter (\<lambda>(n, isDir). \<not> isDir \<and> has_suffix n ''.json'') entries)) = [f]"
    "su_env su = su_env demo_startup" "su_read su = Inr" "su_definition su = (\<lambda>_. Inr (demo_def, False))"
    "su_profile su = (\<lambda>_. Inr demo_profile)" "su_authz su = (\<lambda>_. Inr (example_authz, True))"
    "su_verify su ''/etc/pz/consumers/tea.json'' 0" "su_verify su ''/etc/pz/profiles/tea.json'' 0"
    "su_verify su ''/usr/bin/tea'' 0" "su_verify su ''/etc/pz/authz.json'' 0"
  shows "newServer demo_libs su demo_config = Inr demo_server"
proof -
  let ?cfg = "applyDefaults demo_config"
  have cfg: "cf_TrustedOwnerUID ?cfg = 0" "cf_AuthzPath ?cfg = ''/etc/pz/authz.json''" "cf_MaxRequestBytes ?cfg = 65536"
    "cf_MaxResponseBytes ?cfg = 1048576" "cf_DefaultOpTimeout ?cfg = 30000000000"
    by (simp_all add: applyDefaults_def demo_config_def MaxRequestBytes_def MaxResponseBytes_def second_def)
  have n: "cd_Name demo_def = ''tea''" "cd_Profile demo_def = ''tea''" "cd_Executable demo_def = ''/usr/bin/tea''"
    "cd_Operations demo_def = [(''repos-list'', demo_op)]" "lb_re demo_libs = toy_regexps"
    by (simp_all add: demo_def_def demo_libs_def)
  have l: "load_definitions demo_libs su = Inr [(''tea'', demo_def)]"
    using assms(1-5) n demo_def_validates
    by (simp add: load_definitions_def LoadAll_def consumer_LoadFile_def consumer_Parse_def)
  have "check_definition demo_libs su ?cfg (''tea'', demo_def) = None"
    using assms(3,8,10) cfg n demo_paths demo_server_ok
    by (simp add: check_definition_None server_ok_def demo_server_def)
  then have c: "first_error (check_definition demo_libs su ?cfg) [(''tea'', demo_def)] = None" by simp
  have r: "checkReservedInjectVars (pf_Inject demo_profile) = None" by code_simp
  have p: "load_profiles su ?cfg [] [(''tea'', demo_def)] = Inr [(''tea'', demo_profile)]"
    using assms(3,4,6,9) cfg n demo_paths demo_profile_loads r by simp
  have a: "authz_Parse (\<lambda>_. Inr (example_authz, True)) d = Inr example_authz" for d
  proof -
    have "check_entries 0 [] (az_Entries example_authz) = None" by code_simp
    then show ?thesis by (simp add: authz_Parse_def decodeExactlyOne_def AuthzSchemaVersion_def) (simp add: example_authz_def)
  qed
  have v: "authz_Validate example_authz [(''tea'', demo_def)] = None" by code_simp
  show ?thesis
    unfolding newServer_def Let_def using l c p a v assms(4,7,11) cfg by (simp add: demo_server_def)
qed

lemma demo_startup_started: "newServer demo_libs demo_startup demo_config = Inr demo_server"
  by (rule demo_started[where entries = "[(''tea.json'', False)]" and f = "''tea.json''"])
    (simp_all add: demo_startup_def has_suffix_def has_prefix_def)

subsection \<open>Serve\<close>

text \<open>
  The main goroutine, the goroutine that closes the listener, and the handlers, one per accepted
  connection: what is left of its effects (\<open>handleConn\<close>). The log holds the effects in the order
  they happen. Connections are numbered; \<open>wof\<close> is what the world does in each.
\<close>

datatype phase = Starting | Securing | Accepting | Draining | Returned bool

datatype closer = NotStarted | Watching | Gone

record serve =
  se_phase :: phase
  se_open :: bool
  se_socket :: socket
  se_cancelled :: bool
  se_shutdown :: bool
  se_closer :: closer
  se_next :: nat
  se_left :: "nat \<Rightarrow> effect list option"
  se_log :: "(nat \<times> effect) list"

definition serve_start :: serve where
  "serve_start =
     \<lparr>se_phase = Starting, se_open = False, se_socket = \<lparr>so_gid = None, so_mode = None\<rparr>, se_cancelled = False,
      se_shutdown = False, se_closer = NotStarted, se_next = 0, se_left = (\<lambda>_. None), se_log = []\<rparr>"

inductive serve_step :: "server \<Rightarrow> 'a libs \<Rightarrow> (nat \<Rightarrow> world) \<Rightarrow> groups \<Rightarrow> string \<Rightarrow> serve \<Rightarrow> serve \<Rightarrow> bool"
  for sv lb wof gr grp where
  listen_fails: "se_phase s = Starting \<Longrightarrow> serve_step sv lb wof gr grp s (s\<lparr>se_phase := Returned False\<rparr>)"
| listen: "se_phase s = Starting \<Longrightarrow> serve_step sv lb wof gr grp s (s\<lparr>se_open := True, se_phase := Securing\<rparr>)"
| secure_fails: "se_phase s = Securing \<Longrightarrow> grp \<noteq> [] \<Longrightarrow> setSocketGroupAndMode gr grp (se_socket s) = (so, Some e) \<Longrightarrow>
    serve_step sv lb wof gr grp s (s\<lparr>se_socket := so, se_open := False, se_phase := Returned False\<rparr>)"
| secure: "se_phase s = Securing \<Longrightarrow> grp \<noteq> [] \<Longrightarrow> setSocketGroupAndMode gr grp (se_socket s) = (so, None) \<Longrightarrow>
    serve_step sv lb wof gr grp s (s\<lparr>se_socket := so, se_closer := Watching, se_phase := Accepting\<rparr>)"
| no_group: "se_phase s = Securing \<Longrightarrow> grp = [] \<Longrightarrow>
    serve_step sv lb wof gr grp s (s\<lparr>se_closer := Watching, se_phase := Accepting\<rparr>)"
| accept: "se_phase s = Accepting \<Longrightarrow> se_open s \<Longrightarrow>
    serve_step sv lb wof gr grp s
      (s\<lparr>se_left := (se_left s)(se_next s \<mapsto> handleConn sv lb (wof (se_next s))), se_next := Suc (se_next s)\<rparr>)"
| accept_fails: "se_phase s = Accepting \<Longrightarrow>
    serve_step sv lb wof gr grp s (s\<lparr>se_shutdown := True, se_phase := Draining\<rparr>)"
| effect: "se_left s c = Some (e # es) \<Longrightarrow>
    serve_step sv lb wof gr grp s (s\<lparr>se_left := (se_left s)(c \<mapsto> es), se_log := se_log s @ [(c, e)]\<rparr>)"
| handled: "se_left s c = Some [] \<Longrightarrow> serve_step sv lb wof gr grp s (s\<lparr>se_left := (se_left s)(c := None)\<rparr>)"
| cancel: "\<not> se_cancelled s \<Longrightarrow> serve_step sv lb wof gr grp s (s\<lparr>se_cancelled := True\<rparr>)"
| close: "se_closer s = Watching \<Longrightarrow> se_cancelled s \<Longrightarrow>
    serve_step sv lb wof gr grp s (s\<lparr>se_open := False, se_closer := Gone\<rparr>)"
| dismiss: "se_closer s = Watching \<Longrightarrow> se_shutdown s \<Longrightarrow> serve_step sv lb wof gr grp s (s\<lparr>se_closer := Gone\<rparr>)"
| return: "se_phase s = Draining \<Longrightarrow> (\<forall>c. se_left s c = None) \<Longrightarrow>
    serve_step sv lb wof gr grp s (s\<lparr>se_phase := Returned (se_cancelled s)\<rparr>)"

inductive serving :: "server \<Rightarrow> 'a libs \<Rightarrow> (nat \<Rightarrow> world) \<Rightarrow> groups \<Rightarrow> string \<Rightarrow> serve \<Rightarrow> bool"
  for sv lb wof gr grp where
  start: "serving sv lb wof gr grp serve_start"
| step: "serving sv lb wof gr grp s \<Longrightarrow> serve_step sv lb wof gr grp s t \<Longrightarrow> serving sv lb wof gr grp t"

inductive_cases serve_stepE: "serve_step sv lb wof gr grp s t"

text \<open>The effects of one connection in a log.\<close>

definition of_conn :: "nat \<Rightarrow> (nat \<times> effect) list \<Rightarrow> effect list" where
  "of_conn c log = map snd (filter (\<lambda>x. fst x = c) log)"

lemma of_conn_snoc: "of_conn c (log @ [(d, e)]) = of_conn c log @ (if d = c then [e] else [])"
  by (simp add: of_conn_def)

definition socket_ready :: "groups \<Rightarrow> string \<Rightarrow> socket \<Rightarrow> bool" where
  "socket_ready gr grp so \<longleftrightarrow>
     so_mode so = Some 432 \<and> (\<exists>gid. Option.bind (gr_lookup gr grp) atoi = Some gid \<and> so_gid so = Some gid)"

text \<open>
  The invariant: what a connection has done and what is left of it make up its session; only
  accepted ones do anything; none is in flight before or after the accepting and draining
  phases; the socket has its group and mode before a connection is accepted.
\<close>

definition serve_inv :: "server \<Rightarrow> 'a libs \<Rightarrow> (nat \<Rightarrow> world) \<Rightarrow> groups \<Rightarrow> string \<Rightarrow> serve \<Rightarrow> bool" where
  "serve_inv sv lb wof gr grp s \<longleftrightarrow>
     (\<forall>c. c < se_next s \<longrightarrow>
        of_conn c (se_log s) @ (case se_left s c of None \<Rightarrow> [] | Some es \<Rightarrow> es) = handleConn sv lb (wof c)) \<and>
     (\<forall>c. \<not> c < se_next s \<longrightarrow> se_left s c = None \<and> of_conn c (se_log s) = []) \<and>
     (case se_phase s of
        Starting \<Rightarrow> se_next s = 0 \<and> \<not> se_shutdown s \<and> se_closer s = NotStarted
      | Securing \<Rightarrow> se_next s = 0 \<and> \<not> se_shutdown s \<and> se_open s \<and> se_closer s = NotStarted
      | Accepting \<Rightarrow> \<not> se_shutdown s \<and> se_closer s \<noteq> NotStarted \<and> (se_closer s = Watching \<or> \<not> se_open s) \<and> (\<not> se_open s \<longrightarrow> se_cancelled s)
      | Draining \<Rightarrow> se_shutdown s \<and> se_closer s \<noteq> NotStarted \<and> (\<not> se_open s \<longrightarrow> se_cancelled s)
      | Returned ok \<Rightarrow> (\<forall>c. se_left s c = None) \<and> (ok \<longrightarrow> se_cancelled s)) \<and>
     (0 < se_next s \<or> se_phase s = Accepting \<longrightarrow> grp \<noteq> [] \<longrightarrow> socket_ready gr grp (se_socket s))"

lemma setSocketGroupAndMode_None:
  "setSocketGroupAndMode gr grp so = (so', None) \<Longrightarrow>
   socket_ready gr grp so'"
  by (auto simp: socket_ready_def setSocketGroupAndMode_def split: option.splits if_splits)

lemma serve_step_inv:
  "serve_step sv lb wof gr grp s t \<Longrightarrow> serve_inv sv lb wof gr grp s \<Longrightarrow> serve_inv sv lb wof gr grp t"
proof (induction rule: serve_step.induct)
  case (effect s c e es)
  have c: "c < se_next s" using effect by (auto simp: serve_inv_def)
  then have "of_conn c (se_log s) @ e # es = handleConn sv lb (wof c)" using effect by (auto simp: serve_inv_def)
  then show ?case using effect c by (auto simp: serve_inv_def of_conn_snoc split: phase.splits)
next
  case (accept s)
  then show ?case by (auto simp: serve_inv_def less_Suc_eq)
next
  case (secure s so)
  then show ?case using setSocketGroupAndMode_None[OF secure(3)] by (auto simp: serve_inv_def)
next
  case (handled s c)
  then show ?case by (auto simp: serve_inv_def split: phase.splits)
qed (auto simp: serve_inv_def split: phase.splits)

lemma serving_inv: "serving sv lb wof gr grp s \<Longrightarrow> serve_inv sv lb wof gr grp s"
proof (induction rule: serving.induct)
  case start
  then show ?case by (simp add: serve_inv_def serve_start_def of_conn_def)
next
  case (step s t)
  then show ?case using serve_step_inv by blast
qed

subsection \<open>Shutdown\<close>

text \<open>The listener is closed and the loop has been entered: no connection is accepted any more.\<close>

definition closing :: "serve \<Rightarrow> bool" where
  "closing s \<longleftrightarrow> \<not> se_open s \<and> (case se_phase s of Starting \<Rightarrow> False | Securing \<Rightarrow> False | Returned ok \<Rightarrow> ok | _ \<Rightarrow> True) \<and>
     se_cancelled s \<and> se_closer s \<noteq> NotStarted"

text \<open>A bound on the steps left: phases, the closing goroutine, and what the handlers have still to do.\<close>

definition work_left :: "serve \<Rightarrow> nat \<Rightarrow> nat" where
  "work_left s c = (case se_left s c of None \<Rightarrow> 0 | Some es \<Rightarrow> Suc (length es))"

definition serve_measure :: "serve \<Rightarrow> nat" where
  "serve_measure s =
     (case se_phase s of Accepting \<Rightarrow> 2 | Draining \<Rightarrow> 1 | _ \<Rightarrow> 0) + (if se_closer s = Watching then 1 else 0) +
     sum (work_left s) {..<se_next s}"

lemma work_left_update:
  assumes "c < n" "work_left t c < work_left s c" "\<And>d. d \<noteq> c \<Longrightarrow> work_left t d = work_left s d"
  shows "sum (work_left t) {..<n} < sum (work_left s) {..<n}"
proof (rule sum_strict_mono_ex1)
  show "\<forall>x\<in>{..<n}. work_left t x \<le> work_left s x"
  proof
    fix x show "work_left t x \<le> work_left s x" using assms(2,3) by (cases "x = c") auto
  qed
qed (use assms(1,2) in auto)

lemma closing_step:
  assumes "serve_step sv lb wof gr grp s t" "serve_inv sv lb wof gr grp s" "closing s"
  shows "closing t \<and> serve_measure t < serve_measure s"
  using assms
proof (induction rule: serve_step.induct)
  case (effect s c e es)
  let ?t = "s\<lparr>se_left := (se_left s)(c \<mapsto> es), se_log := se_log s @ [(c, e)]\<rparr>"
  have "c < se_next s" using effect by (auto simp: serve_inv_def)
  then have "sum (work_left ?t) {..<se_next s} < sum (work_left s) {..<se_next s}"
    by (rule work_left_update) (use effect in \<open>auto simp: work_left_def\<close>)
  then show ?case using effect by (auto simp: closing_def serve_measure_def split: phase.splits)
next
  case (handled s c)
  let ?t = "s\<lparr>se_left := (se_left s)(c := None)\<rparr>"
  have "c < se_next s" using handled by (auto simp: serve_inv_def)
  then have "sum (work_left ?t) {..<se_next s} < sum (work_left s) {..<se_next s}"
    by (rule work_left_update) (use handled in \<open>auto simp: work_left_def\<close>)
  then show ?case using handled by (auto simp: closing_def serve_measure_def split: phase.splits)
qed (auto simp: closing_def serve_measure_def work_left_def)

lemma closing_run:
  assumes "(serve_step sv lb wof gr grp ^^ n) s t" "serving sv lb wof gr grp s" "closing s"
  shows "serving sv lb wof gr grp t \<and> closing t \<and> n + serve_measure t \<le> serve_measure s"
  using assms
proof (induction n arbitrary: t)
  case (Suc n)
  obtain u where u: "(serve_step sv lb wof gr grp ^^ n) s u" "serve_step sv lb wof gr grp u t"
    using Suc.prems(1) by auto
  have i: "serving sv lb wof gr grp u \<and> closing u \<and> n + serve_measure u \<le> serve_measure s"
    using Suc.IH[OF u(1) Suc.prems(2,3)] .
  have "closing t \<and> serve_measure t < serve_measure u"
    using closing_step[OF u(2) serving_inv] i by blast
  then show ?case using i serving.step u(2) by force
qed simp

text \<open>Nothing is stuck: a state of the closing server with no step has returned.\<close>

lemma closing_stuck:
  assumes "closing s" "\<nexists>t. serve_step sv lb wof gr grp s t"
  shows "se_phase s = Returned True"
proof (cases "se_phase s")
  case Accepting
  then show ?thesis using assms(2) serve_step.accept_fails by blast
next
  case Draining
  have "se_left s c = None" for c
  proof (cases "se_left s c")
    case (Some es)
    then show ?thesis
      using assms(2) serve_step.effect serve_step.handled by (cases es) blast+
  qed
  then show ?thesis using assms(2) Draining serve_step.return by blast
next
  case (Returned ok)
  then show ?thesis using assms(1) by (simp add: closing_def)
qed (use assms(1) in \<open>auto simp: closing_def\<close>)

lemma closed_listener_closing:
  assumes "serving sv lb wof gr grp s" "\<not> se_open s" "se_phase s \<in> {Accepting, Draining}"
  shows "closing s"
  using serving_inv[OF assms(1)] assms(2,3) by (auto simp: serve_inv_def closing_def)

lemma returned_complete:
  assumes "serving sv lb wof gr grp s" "se_phase s = Returned ok" "c < se_next s"
  shows "of_conn c (se_log s) = handleConn sv lb (wof c)"
proof -
  have "se_left s c = None" "of_conn c (se_log s) @ (case se_left s c of None \<Rightarrow> [] | Some es \<Rightarrow> es) = handleConn sv lb (wof c)"
    using serving_inv[OF assms(1)] assms(2,3) by (auto simp: serve_inv_def)
  then show ?thesis by simp
qed

lemma started_verified:
  assumes "newServer lb su cfg = Inr sv"
  shows "sv_defs sv \<noteq> [] \<and> su_verify su (cf_AuthzPath cfg) (cf_TrustedOwnerUID cfg) \<and>
    (\<forall>(name, d)\<in>set (sv_defs sv).
       name = cd_Name d \<and> definition_ok (lb_re lb) d \<and>
       su_verify su (Join [consumer_Dir (su_env su), name @ ''.json'']) (cf_TrustedOwnerUID cfg) \<and>
       su_verify su (cd_Executable d) (cf_TrustedOwnerUID cfg) \<and>
       (\<exists>p. map_of (sv_profiles sv) (cd_Profile d) = Some p \<and>
          su_verify su (Join [profile_Dir (su_env su), cd_Profile d @ ''.json'']) (cf_TrustedOwnerUID cfg) \<and>
          validateFilename (inj_Filename (pf_Inject p)) = None \<and> checkReservedInjectVars (pf_Inject p) = None)) \<and>
    server_ok lb sv"
proof -
  note n = newServer_Inr[OF assms]
  note p = load_profiles_Inr[of su "applyDefaults cfg" "[]" "sv_defs sv" "sv_profiles sv"]
  have filename: "validateFilename (inj_Filename (pf_Inject q)) = None"
    if "profile_Load (su_read su) (su_profile su) (su_env su) k = Inr q" for k q
    using that by (auto simp: profile_Load_def split: if_splits sum.splits option.splits)
  have c: "check_definition lb su (applyDefaults cfg) x = None" if "x \<in> set (sv_defs sv)" for x
    using n that by (simp add: first_error_None)
  have "case x of (name, d) \<Rightarrow> name = cd_Name d \<and> definition_ok (lb_re lb) d \<and>
       su_verify su (Join [consumer_Dir (su_env su), name @ ''.json'']) (cf_TrustedOwnerUID cfg) \<and>
       su_verify su (cd_Executable d) (cf_TrustedOwnerUID cfg) \<and>
       (\<exists>p. map_of (sv_profiles sv) (cd_Profile d) = Some p \<and>
          su_verify su (Join [profile_Dir (su_env su), cd_Profile d @ ''.json'']) (cf_TrustedOwnerUID cfg) \<and>
          validateFilename (inj_Filename (pf_Inject p)) = None \<and> checkReservedInjectVars (pf_Inject p) = None)"
    if x: "x \<in> set (sv_defs sv)" for x
  proof -
    obtain name d where nd: "x = (name, d)" by fastforce
    have "name = cd_Name d \<and> definition_ok (lb_re lb) d"
      using loaded_definition_ok[of lb su "sv_defs sv" name d] n x nd by simp
    moreover obtain q where q: "map_of (sv_profiles sv) (cd_Profile d) = Some q"
      using p n x nd by fastforce
    moreover have "profile_Load (su_read su) (su_profile su) (su_env su) (cd_Profile d) = Inr q"
      "su_verify su (Join [profile_Dir (su_env su), cd_Profile d @ ''.json'']) (cf_TrustedOwnerUID cfg)"
      "checkReservedInjectVars (pf_Inject q) = None"
      using p n q by (auto simp: applyDefaults_owner)
    moreover note c[OF x]
    ultimately show ?thesis using nd filename by (auto simp: check_definition_None applyDefaults_owner)
  qed
  then show ?thesis using n newServer_ok[OF assms] by auto
qed

subsection \<open>Properties\<close>



lemma loaded_files:
  assumes "load_definitions lb su = Inr defs" "defs \<noteq> []" "su_entries su = Inr (Some entries)" "distinct (map fst entries)"
    "\<forall>(n, d)\<in>set defs. (n @ ''.json'', False) \<in> set entries" "(f, False) \<in> set entries" "has_suffix f ''.json''"
  shows "\<exists>(n, d)\<in>set defs. f = n @ ''.json''"
proof -
  obtain entries' files load where l0: "su_entries su = Inr (Some entries') \<and>
    files = sort (map fst (filter (\<lambda>(n, isDir). \<not> isDir \<and> has_suffix n ''.json'') entries')) \<and>
    load = (\<lambda>name. consumer_LoadFile (lb_re lb) (su_read su) (su_definition su) (Join [consumer_Dir (su_env su), name])) \<and>
    (\<forall>n\<in>set files. \<exists>d. load n = Inr d) \<and> distinct (map fst defs) \<and>
    defs = rev (map (\<lambda>n. (cd_Name (projr (load n)), projr (load n))) files)"
    using load_definitions_Inr[OF assms(1,2)] by (elim exE)
  have ent: "entries' = entries" using l0 assms(3) by simp
  have l: "files = sort (map fst (filter (\<lambda>(n, isDir). \<not> isDir \<and> has_suffix n ''.json'') entries))"
    "distinct (map fst defs)" "defs = rev (map (\<lambda>n. (cd_Name (projr (load n)), projr (load n))) files)"
    using l0[unfolded ent] by iprover+
  have files: "set files = {n. (n, False) \<in> set entries \<and> has_suffix n ''.json''}" unfolding l(1) by force
  have "distinct files" unfolding l(1) using assms(4) by (simp add: distinct_map_filter)
  moreover have "length defs = length files" by (simp add: l(3))
  ultimately have card: "card (set files) = card (set (map fst defs))"
    using l(2) by (metis distinct_card length_map)
  have "(\<lambda>n. n @ ''.json'') ` set (map fst defs) \<subseteq> set files"
    using assms(5) by (force simp: files has_suffix_def has_prefix_def)
  moreover have "card ((\<lambda>n. n @ ''.json'') ` set (map fst defs)) = card (set files)"
    unfolding card by (rule card_image) (simp add: inj_on_def)
  ultimately have "(\<lambda>n. n @ ''.json'') ` set (map fst defs) = set files"
    by (intro card_subset_eq) auto
  then have "f \<in> (\<lambda>n. n @ ''.json'') ` set (map fst defs)" using assms(6,7) files by blast
  then show ?thesis by force
qed

text \<open>
  The check looks at the path a definition's name gives, and the loader at the files of the
  directory, whatever names they declare; still no file goes unchecked, by counting: as names are
  unique there are as many as files, so if each name's file is a file of the listing, every
  loaded file is some name's. The premise holds when what the check accepts exists and is no
  directory.
\<close>

theorem every_loaded_file_verified:
  assumes "newServer lb su cfg = Inr sv" "su_entries su = Inr (Some entries)" "distinct (map fst entries)"
    "\<forall>n. validName n \<and> su_verify su (Join [consumer_Dir (su_env su), n @ ''.json'']) (cf_TrustedOwnerUID cfg) \<longrightarrow>
       (n @ ''.json'', False) \<in> set entries"
    "(f, False) \<in> set entries" "has_suffix f ''.json''"
  shows "su_verify su (Join [consumer_Dir (su_env su), f]) (cf_TrustedOwnerUID cfg)"
proof -
  note n = newServer_Inr[OF assms(1)]
  have v: "su_verify su (Join [consumer_Dir (su_env su), name @ ''.json'']) (cf_TrustedOwnerUID cfg)"
    if "(name, d) \<in> set (sv_defs sv)" for name d
  proof -
    have "check_definition lb su (applyDefaults cfg) (name, d) = None" using n that by (simp add: first_error_None)
    then show ?thesis by (simp add: check_definition_None applyDefaults_owner)
  qed
  moreover have "validName name" if "(name, d) \<in> set (sv_defs sv)" for name d
    using loaded_definition_ok[of lb su "sv_defs sv" name d] n that by (simp add: definition_ok_def)
  ultimately have "\<forall>(name, d)\<in>set (sv_defs sv). (name @ ''.json'', False) \<in> set entries" using assms(4) by blast
  then obtain name d where "(name, d) \<in> set (sv_defs sv)" "f = name @ ''.json''"
    using loaded_files[of lb su "sv_defs sv" entries f] n assms(2,3,5,6) by blast
  then show ?thesis using v by blast
qed

text \<open>A check that accepts four paths.\<close>

definition only_tea :: startup where
  "only_tea = demo_startup\<lparr>su_verify := (\<lambda>p _. p \<in> set
     [''/etc/pz/consumers/tea.json'', ''/etc/pz/profiles/tea.json'', ''/usr/bin/tea'', ''/etc/pz/authz.json''])\<rparr>"

lemma Join_demo_name:
  assumes "validName n"
  shows "Join [consumer_Dir (su_env demo_startup), n @ ''.json''] = ''/etc/pz/consumers/'' @ n @ ''.json''"
proof -
  let ?cs = "[''etc'', ''pz'', ''consumers'', n @ ''.json'']"
  have "slash \<notin> set n" "n \<noteq> []"
    using assms by (auto simp: validName_def name_char_def name_start_def is_digit_def slash_def list_all_iff less_eq_char_def
        split: list.splits)
  then have "normal_comp (n @ ''.json'')" by (cases n) (auto simp: normal_comp_def slash_def)
  moreover have "normal_comp ''etc''" "normal_comp ''pz''" "normal_comp ''consumers''"
    by (simp_all add: normal_comp_def slash_def)
  ultimately have "Clean (slash # join_with ''/'' ?cs) = slash # join_with ''/'' ?cs"
    using Clean_normal[of ?cs] by simp
  moreover have "consumer_Dir (su_env demo_startup) = ''/etc/pz/consumers''" by code_simp
  ultimately show ?thesis by (simp add: Join_def slash_def)
qed

theorem every_loaded_file_verified_witness:
  "su_verify only_tea (Join [consumer_Dir (su_env only_tea), ''tea.json'']) (cf_TrustedOwnerUID demo_config)"
proof -
  have e: "su_entries only_tea = Inr (Some [(''tea.json'', False)])" by (simp add: only_tea_def demo_startup_def)
  have s: "newServer demo_libs only_tea demo_config = Inr demo_server"
    by (rule demo_started[OF e, where f = "''tea.json''"])
      (simp_all add: only_tea_def demo_startup_def has_suffix_def has_prefix_def)
  have "n = ''tea''" if "validName n" "su_verify only_tea (Join [consumer_Dir (su_env only_tea), n @ ''.json'']) 0" for n
    using that Join_demo_name[OF that(1)] by (simp add: only_tea_def)
  then have v: "\<forall>n. validName n \<and> su_verify only_tea (Join [consumer_Dir (su_env only_tea), n @ ''.json''])
      (cf_TrustedOwnerUID demo_config) \<longrightarrow> (n @ ''.json'', False) \<in> set [(''tea.json'', False)]"
    by (auto simp: demo_config_def)
  have d: "distinct (map fst [(''tea.json'', False)])" by simp
  have m: "(''tea.json'', False) \<in> set [(''tea.json'', False)]" "has_suffix ''tea.json'' ''.json''"
    by (simp_all add: has_suffix_def has_prefix_def)
  show ?thesis by (rule every_loaded_file_verified[OF s e d v m])
qed

text \<open>
  A tree in which \<open>tea.json\<close> is a directory of root and \<open>x.json\<close>, which declares the consumer
  \<open>tea\<close>, belongs to user 1000.
\<close>

definition planted_tree :: tree where
  "planted_tree p =
     (if p \<in> set [[], [''usr''], [''usr'', ''bin''], [''usr'', ''bin'', ''tea''], [''etc''], [''etc'', ''pz''],
        [''etc'', ''pz'', ''authz.json''], [''etc'', ''pz'', ''profiles''], [''etc'', ''pz'', ''profiles'', ''tea.json''],
        [''etc'', ''pz'', ''consumers''], [''etc'', ''pz'', ''consumers'', ''tea.json'']] then Some (Entry 0 493)
      else if p = [''etc'', ''pz'', ''consumers'', ''x.json''] then Some (Entry 1000 420)
      else None)"

definition planted :: startup where
  "planted = demo_startup\<lparr>su_entries := Inr (Some [(''tea.json'', True), (''x.json'', False)]),
     su_verify := (\<lambda>p owner. VerifyTrustRoot planted_tree None p (unat owner) = None)\<rparr>"

text \<open>
  Without the premise on directories it fails: with a directory \<open>tea.json\<close> owned by root the
  broker starts on a definition of \<open>tea\<close> it read from \<open>x.json\<close>, a file another user owns and can
  change, and which the trust-root check refuses.
\<close>

theorem directory_hides_definition:
  "newServer demo_libs planted demo_config = Inr demo_server \<and>
   (''tea'', demo_def) \<in> set (sv_defs demo_server) \<and>
   \<not> su_verify planted ''/etc/pz/consumers/x.json'' 0 \<and> can_write planted_tree 1000 [''etc'', ''pz'', ''consumers'', ''x.json'']"
proof (intro conjI)
  have v: "VerifyTrustRoot planted_tree None ''/etc/pz/consumers/tea.json'' 0 = None"
    "VerifyTrustRoot planted_tree None ''/etc/pz/profiles/tea.json'' 0 = None"
    "VerifyTrustRoot planted_tree None ''/usr/bin/tea'' 0 = None" "VerifyTrustRoot planted_tree None ''/etc/pz/authz.json'' 0 = None"
    by code_simp+
  have e: "su_entries planted = Inr (Some [(''tea.json'', True), (''x.json'', False)])" by (simp add: planted_def)
  show "newServer demo_libs planted demo_config = Inr demo_server"
    by (rule demo_started[OF e, where f = "''x.json''"])
      (simp_all add: planted_def demo_startup_def has_suffix_def has_prefix_def v)
  show "(''tea'', demo_def) \<in> set (sv_defs demo_server)" by (simp add: demo_server_def)
  have "VerifyTrustRoot planted_tree None ''/etc/pz/consumers/x.json'' 0 \<noteq> None" by code_simp
  then show "\<not> su_verify planted ''/etc/pz/consumers/x.json'' 0" by (simp add: planted_def)
  show "can_write planted_tree 1000 [''etc'', ''pz'', ''consumers'', ''x.json'']" by code_simp
qed

text \<open>
  (C30) A started server answers every request it can read, once: whatever fails on the way, the
  session of a known peer whose frame arrives ends with exactly one response, and neither the
  broken invariant the code logs nor the missing profile it would crash on occurs.
\<close>

theorem started_server_answers_once:
  assumes "newServer lb su cfg = Inr sv" "wd_peer w \<noteq> None"
    "readFrame (wd_bytes w) (word_of_int (sv_MaxRequestBytes sv)) = Inr (raw, rest)"
  shows "(\<exists>r. filter is_send (handleConn sv lb w) = [Send r]) \<and>
    Crash \<notin> set (handleConn sv lb w) \<and> Violation \<notin> set (handleConn sv lb w)"
  by (rule session_answers_once[OF newServer_ok[OF assms(1)] assms(2,3)])

theorem started_server_answers_once_witness:
  "\<exists>r. filter is_send (handleConn demo_server demo_libs (demo_world\<lparr>wd_newdir := None, wd_audit := \<lambda>_. False\<rparr>)) = [Send r]"
proof -
  let ?w = "demo_world\<lparr>wd_newdir := None, wd_audit := \<lambda>_. False\<rparr>"
  have f: "readFrame (wd_bytes ?w) (word_of_int (sv_MaxRequestBytes demo_server)) = Inr (''{}'', [])"
    using demo_frame by simp
  have p: "wd_peer ?w \<noteq> None" by (simp add: demo_world_def)
  show ?thesis using started_server_answers_once[OF demo_startup_started p f] by blast
qed

text \<open>
  (C7) Sessions do not disturb each other. However the scheduler interleaves the handlers, what a
  connection has done so far is a beginning of its own session; in the interleaved log an \<open>OK\<close>
  always comes after a durable audit record of the same connection; and when the server has a
  socket group, no connection is accepted before the socket has that group and mode 0660.
\<close>

theorem sessions_interleave:
  assumes "serving sv lb wof gr grp s"
  shows "(\<forall>c. c < se_next s \<longrightarrow> (\<exists>rest. handleConn sv lb (wof c) = of_conn c (se_log s) @ rest)) \<and>
    (\<forall>before c r after. se_log s = before @ (c, Send r) # after \<and> rs_Status r = StatusOK \<longrightarrow>
       (\<exists>rec. (c, Audit rec True) \<in> set before)) \<and>
    (0 < se_next s \<and> grp \<noteq> [] \<longrightarrow> socket_ready gr grp (se_socket s))"
proof (intro conjI allI impI)
  note i = serving_inv[OF assms]
  have session: "handleConn sv lb (wof c) = of_conn c (se_log s) @ (case se_left s c of None \<Rightarrow> [] | Some es \<Rightarrow> es)"
    if "c < se_next s" for c using i that unfolding serve_inv_def by metis
  show "\<exists>rest. handleConn sv lb (wof c) = of_conn c (se_log s) @ rest" if "c < se_next s" for c
    using session[OF that] by blast
  show "socket_ready gr grp (se_socket s)" if "0 < se_next s \<and> grp \<noteq> []"
    using i that by (simp add: serve_inv_def)
  show "\<exists>rec. (c, Audit rec True) \<in> set before"
    if l: "se_log s = before @ (c, Send r) # after \<and> rs_Status r = StatusOK" for before c r after
  proof -
    have o: "of_conn c (se_log s) = of_conn c before @ Send r # of_conn c after"
      using l by (simp add: of_conn_def)
    then have "c < se_next s" using i by (auto simp: serve_inv_def)
    then obtain rest where "handleConn sv lb (wof c) = of_conn c before @ Send r # (of_conn c after @ rest)"
      using session[of c] o by auto
    then obtain rec where "Audit rec True \<in> set (of_conn c before)" using OK_after_audit l by blast
    then show ?thesis by (auto simp: of_conn_def)
  qed
qed

text \<open>The server of the example after it accepted one connection, and after it was told to stop.\<close>

definition demo_groups :: groups where
  "demo_groups = \<lparr>gr_lookup = (\<lambda>_. Some ''7''), gr_chown = (\<lambda>_. True), gr_chmod = True\<rparr>"

definition accepted_state :: serve where
  "accepted_state = serve_start\<lparr>se_open := True, se_socket := \<lparr>so_gid = Some 7, so_mode = Some 432\<rparr>, se_closer := Watching,
     se_phase := Accepting, se_left := (\<lambda>_. None)(0 \<mapsto> handleConn demo_server demo_libs demo_world), se_next := 1\<rparr>"

definition stopping_state :: serve where
  "stopping_state = accepted_state\<lparr>se_cancelled := True, se_open := False, se_closer := Gone\<rparr>"

lemma accepted_state_serving: "serving demo_server demo_libs (\<lambda>_. demo_world) demo_groups ''pz'' accepted_state"
proof -
  let ?R = "serve_step demo_server demo_libs (\<lambda>_. demo_world) demo_groups ''pz''"
  let ?s1 = "serve_start\<lparr>se_open := True, se_phase := Securing\<rparr>"
  let ?so = "\<lparr>so_gid = Some 7, so_mode = Some 432\<rparr>"
  let ?s2 = "?s1\<lparr>se_socket := ?so, se_closer := Watching, se_phase := Accepting\<rparr>"
  have a: "atoi ''7'' = Some 7" by code_simp
  have "?R serve_start ?s1" by (rule serve_step.listen) (simp add: serve_start_def)
  moreover have "?R ?s1 ?s2"
    by (rule serve_step.secure) (simp_all add: serve_start_def setSocketGroupAndMode_def demo_groups_def a)
  moreover have "?R ?s2 (?s2\<lparr>se_left := (se_left ?s2)(se_next ?s2 \<mapsto> handleConn demo_server demo_libs demo_world),
      se_next := Suc (se_next ?s2)\<rparr>)"
    by (rule serve_step.accept) simp_all
  moreover have "?s2\<lparr>se_left := (se_left ?s2)(se_next ?s2 \<mapsto> handleConn demo_server demo_libs demo_world),
      se_next := Suc (se_next ?s2)\<rparr> = accepted_state"
    by (simp add: accepted_state_def serve_start_def)
  ultimately show ?thesis by (metis serving.start serving.step)
qed

lemma stopping_state_serving: "serving demo_server demo_libs (\<lambda>_. demo_world) demo_groups ''pz'' stopping_state"
proof -
  let ?R = "serve_step demo_server demo_libs (\<lambda>_. demo_world) demo_groups ''pz''"
  have "?R accepted_state (accepted_state\<lparr>se_cancelled := True\<rparr>)"
    by (rule serve_step.cancel) (simp add: accepted_state_def serve_start_def)
  moreover have "?R (accepted_state\<lparr>se_cancelled := True\<rparr>)
      (accepted_state\<lparr>se_cancelled := True\<rparr>\<lparr>se_open := False, se_closer := Gone\<rparr>)"
    by (rule serve_step.close) (simp_all add: accepted_state_def)
  moreover have "accepted_state\<lparr>se_cancelled := True\<rparr>\<lparr>se_open := False, se_closer := Gone\<rparr> = stopping_state"
    by (simp add: stopping_state_def)
  ultimately show ?thesis by (metis accepted_state_serving serving.step)
qed

theorem sessions_interleave_witness:
  "socket_ready demo_groups ''pz'' (se_socket accepted_state)"
proof -
  have "0 < se_next accepted_state \<and> ''pz'' \<noteq> []" by (simp add: accepted_state_def)
  then show ?thesis using sessions_interleave[OF accepted_state_serving] by blast
qed



end
