(* ===== verification/Frontends.thy ===== *)
theory Frontends
  imports Delivery Broker_Server "HOL-Library.AList"
begin

text \<open>
  The remaining entry points: the dispatch of \<open>main\<close> and \<open>doctor\<close> (\<open>cmd/parzival/main.go\<close>), the
  client command \<open>service\<close> (\<open>cmd/parzival/service.go\<close>) and the daemon's \<open>run\<close>
  (\<open>cmd/parzival-broker/main.go\<close>), with the values flags and environment variables resolve to.
\<close>

subsection \<open>Dispatch\<close>

definition version :: string where "version = ''dev''"
definition commit :: string where "commit = ''unknown''"

definition runVersion :: string where
  "runVersion = ''parzival '' @ version @ '' (commit '' @ commit @ '')'' @ newline"

datatype command = Get_cmd | Probe_cmd | Exec_cmd | Mount_cmd | Service_cmd | Policy_cmd | Doctor_cmd

datatype dispatch = Run command "string list" | ShowVersion | ShowUsage | BadUsage int

definition main_dispatch :: "string list \<Rightarrow> dispatch" where
  "main_dispatch argv =
     (if length argv < 2 then BadUsage 2
      else
        let cmd = argv ! 1; args = drop 2 argv in
        if cmd = ''get'' then Run Get_cmd args
        else if cmd = ''probe'' then Run Probe_cmd args
        else if cmd = ''exec'' then Run Exec_cmd args
        else if cmd = ''mount'' then Run Mount_cmd args
        else if cmd = ''service'' then Run Service_cmd args
        else if cmd = ''policy'' then Run Policy_cmd args
        else if cmd = ''doctor'' then Run Doctor_cmd args
        else if cmd \<in> {''version'', ''-v'', ''--version''} then ShowVersion
        else if cmd \<in> {''-h'', ''--help'', ''help''} then ShowUsage
        else BadUsage 2)"

text \<open>\<open>mount\<close>: the mountpoint and the node that is served.\<close>

record mount_flags =
  mf_as :: string
  mf_args :: "string list"

definition runMount :: "getenv \<Rightarrow> string + mount_flags \<Rightarrow> cmd_error + string \<times> root_node" where
  "runMount getenv parsed =
     (case parsed of
        Inl e \<Rightarrow> Inl (FlagError e)
      | Inr fl \<Rightarrow>
          if length (mf_args fl) \<noteq> 1 then Inl (UsageError ''mount requires exactly one mountpoint'')
          else Inr (mf_args fl ! 0, mount_root getenv (resolveIdentity getenv (mf_as fl))))"

subsection \<open>\<open>doctor\<close>\<close>

text \<open>What \<open>Stat\<close> and then \<open>Open\<close> say of the token file in the home directory.\<close>

datatype token_file = TokenAbsent | TokenStatError string | TokenRegular bool | TokenOther

datatype report_line = Note string string | Verdict string bool string

definition report_text :: "report_line \<Rightarrow> string" where
  "report_text l =
     (case l of
        Note label detail \<Rightarrow>
          if detail = [] then ''[INFO] '' @ label @ newline else ''[INFO] '' @ label @ '': '' @ detail @ newline
      | Verdict label ok detail \<Rightarrow>
          let status = (if \<not> ok then ''FAIL'' else ''OK'') in
          if detail = [] then ''['' @ status @ ''] '' @ label @ newline
          else ''['' @ status @ ''] '' @ label @ '': '' @ detail @ newline)"

definition capabilitySummary :: "capabilities \<Rightarrow> string" where
  "capabilitySummary c =
     (let parts = map snd (filter fst
            [(cap_EncryptedAtRest c, ''encrypted-at-rest''),
             (cap_NonAmbientBrokerAuth c, ''non-ambient-broker-auth''),
             (cap_ScopedStoreAuthorization c, ''scoped-store-authorization''),
             (cap_ShortLivedCredential c, ''short-lived-credential''),
             (cap_BackendAudit c, ''backend-audit''),
             (cap_InteractiveUnlock c, ''interactive-unlock''),
             (cap_UnattendedBootstrap c, ''unattended-bootstrap'')])
      in if length parts = 0 then ''(none)''
         else join_with '', '' (if StrongUnattended c then parts @ [''strong-unattended''] else parts))"

definition auditPath :: "env \<Rightarrow> string" where
  "auditPath e = Join [stateDir e, ''audit.log'']"

text \<open>Whether making the directory and opening and closing the log succeed, else the error.\<close>

definition checkAuditWritable :: "string option \<Rightarrow> string option \<Rightarrow> string option \<Rightarrow> string option" where
  "checkAuditWritable mkdir opens closes =
     (case mkdir of Some e \<Rightarrow> Some e | None \<Rightarrow> (case opens of Some e \<Rightarrow> Some e | None \<Rightarrow> closes))"

record doctor_host =
  dh_getenv :: getenv
  dh_env :: env
  dh_token :: token_file
  dh_policy :: "string + policy option"
  dh_audit :: "string option"
  dh_cfg :: openbao_config
  dh_err_text :: "openbao_error \<Rightarrow> string"

definition token_line :: "string \<Rightarrow> token_file \<Rightarrow> report_line" where
  "token_line path t =
     (case t of
        TokenAbsent \<Rightarrow> Verdict ''default OpenBao token file absent'' True path
      | TokenStatError e \<Rightarrow>
          Verdict ''default OpenBao token file absent'' False (''cannot inspect '' @ path @ '': '' @ e)
      | TokenRegular readable \<Rightarrow>
          if readable then Verdict ''default OpenBao token file absent'' False (path @ '' is readable by this caller'')
          else Verdict ''default OpenBao token file absent'' True (path @ '' exists but is not readable by this caller'')
      | TokenOther \<Rightarrow>
          Verdict ''default OpenBao token file absent'' False
            (path @ '' exists and is not a regular file; verify bao cannot use it''))"

definition doctor_report :: "doctor_host \<Rightarrow> bool \<Rightarrow> report_line list" where
  "doctor_report d allowAmbient =
     [Note ''version'' (version @ '' (commit '' @ commit @ '')''),
      (case detect (dh_getenv d) of
         Some m \<Rightarrow> Note ''AI agent shell detected''
           (''$'' @ fst m @ '' '' @ emdash @ '' '' @ snd m @ ''; `get` is refused here, use probe/exec/mount'')
       | None \<Rightarrow> Note ''AI agent shell detected'' (''no '' @ emdash @ '' `get` is permitted in this shell'')),
      (if dh_getenv d ''BAO_TOKEN'' = [] then Verdict ''BAO_TOKEN not exported'' True ''not set''
       else Verdict ''BAO_TOKEN not exported'' False ''ambient store tokens let callers bypass parzival policy''),
      token_line (Join [env_home (dh_env d), ''.vault-token'']) (dh_token d),
      (case dh_policy d of
         Inl e \<Rightarrow> Verdict ''policy loads strictly'' False e
       | Inr None \<Rightarrow> Verdict ''policy loads strictly'' False (Join [ConfigDir (dh_env d), ''policy.json''] @ '' is missing'')
       | Inr (Some p) \<Rightarrow> Verdict ''policy loads strictly'' True (itoa (int (length (p_Rules p))) @ '' rule(s)'')),
      (case dh_audit d of
         Some e \<Rightarrow> Verdict ''audit log writable'' False e
       | None \<Rightarrow> Verdict ''audit log writable'' True (auditPath (dh_env d)))] @
     (case NewOpenBaoFromEnv (dh_getenv d) (dh_cfg d) of
        Inl e \<Rightarrow> [Verdict ''openbao backend configured'' False (dh_err_text d e)]
      | Inr ob \<Rightarrow>
          (let caps = openbao_Capabilities ob in
           [Note ''openbao capabilities'' (capabilitySummary caps),
            (if cap_NonAmbientBrokerAuth caps then Verdict ''openbao non-ambient broker auth'' True ''AppRole mode''
             else Verdict ''openbao non-ambient broker auth'' allowAmbient
               ''ambient CLI auth is compatibility mode; callers with the same token can invoke bao directly'')])) @
     [Note ''onepassword capabilities'' (capabilitySummary onepassword_Capabilities),
      Note ''gopass capabilities'' (capabilitySummary gopass_Capabilities)]"

definition is_failure :: "report_line \<Rightarrow> bool" where
  "is_failure l = (case l of Verdict _ ok _ \<Rightarrow> \<not> ok | Note _ _ \<Rightarrow> False)"

record doctor_flags =
  df_allowAmbient :: bool
  df_args :: "string list"

datatype doctor_error = DoctorFlags string | DoctorUsage | DoctorFailures nat

definition runDoctor :: "doctor_host \<Rightarrow> string + doctor_flags \<Rightarrow> string \<times> doctor_error option" where
  "runDoctor d parsed =
     (case parsed of
        Inl e \<Rightarrow> ([], Some (DoctorFlags e))
      | Inr fl \<Rightarrow>
          if length (df_args fl) \<noteq> 0 then ([], Some DoctorUsage)
          else
            let lines = doctor_report d (df_allowAmbient fl); failures = length (filter is_failure lines) in
            (concat (map report_text lines), if failures > 0 then Some (DoctorFailures failures) else None))"

subsection \<open>\<open>service\<close>\<close>

definition envOr :: "getenv \<Rightarrow> string \<Rightarrow> string \<Rightarrow> string" where
  "envOr getenv name deflt = (if getenv name \<noteq> [] then getenv name else deflt)"

definition defaultServiceSocket :: string where
  "defaultServiceSocket = ''/run/parzival/broker.sock''"

definition serviceExitDenied :: int where "serviceExitDenied = 3"
definition serviceExitInvalid :: int where "serviceExitInvalid = 4"
definition serviceExitError :: int where "serviceExitError = 5"
definition serviceExitUnavailable :: int where "serviceExitUnavailable = 6"

lemmas service_codes =
  serviceExitDenied_def serviceExitInvalid_def serviceExitError_def serviceExitUnavailable_def

definition serviceStatusExitCode :: "string \<Rightarrow> int" where
  "serviceStatusExitCode status =
     (if status = StatusDenied then serviceExitDenied
      else if status = StatusInvalid then serviceExitInvalid
      else if status = StatusError then serviceExitError
      else if status = StatusUnavailable then serviceExitUnavailable
      else 1)"

definition inputFlags_Set :: "string \<Rightarrow> (string \<times> string) list \<Rightarrow> (string \<times> string) list option" where
  "inputFlags_Set s f =
     (case cut s CHR ''='' of
        None \<Rightarrow> None
      | Some (name, val) \<Rightarrow> if name = [] then None else Some (AList.update name val f))"

definition inputFlags_String :: "(string \<times> string) list \<Rightarrow> string" where
  "inputFlags_String f = (if length f = 0 then [] else join_with '','' (map (\<lambda>(k, v). k @ ''='' @ v) f))"

text \<open>The flag package calls \<open>Set\<close> for each \<open>--input\<close>, and stops at the first error.\<close>

fun set_inputs :: "string list \<Rightarrow> (string \<times> string) list \<Rightarrow> string + (string \<times> string) list" where
  "set_inputs [] f = Inr f"
| "set_inputs (s # ss) f =
     (case inputFlags_Set s f of None \<Rightarrow> Inl (''--input must be name=value, got '' @ s) | Some f' \<Rightarrow> set_inputs ss f')"

record service_flags =
  sf_socket :: "string option"
  sf_inputs :: "string list"
  sf_args :: "string list"

datatype service_error =
  SeFlags string | SeUsage | SeUnreachable string string | SeCall call_error | SeStatus string string string int

definition service_exit :: "service_error option \<Rightarrow> int" where
  "service_exit e = (case e of None \<Rightarrow> 0 | Some (SeStatus _ _ _ c) \<Rightarrow> c | Some _ \<Rightarrow> 1)"

text \<open>
  \<open>dial\<close> is the error of \<open>Dial\<close> on a socket path, or what the connection will deliver. The
  result is standard output, the bytes sent and the error.
\<close>

definition runService ::
  "(brequest \<Rightarrow> string) \<Rightarrow> (string \<Rightarrow> string + response) \<Rightarrow> getenv \<Rightarrow> (string \<Rightarrow> string + string) \<Rightarrow>
   string + service_flags \<Rightarrow> string \<times> string \<times> service_error option" where
  "runService marshal unmarshal getenv dial parsed =
     (case parsed of
        Inl e \<Rightarrow> ([], [], Some (SeFlags e))
      | Inr fl \<Rightarrow>
          (case set_inputs (sf_inputs fl) [] of
             Inl e \<Rightarrow> ([], [], Some (SeFlags e))
           | Inr inputs \<Rightarrow>
               if length (sf_args fl) \<noteq> 1 then ([], [], Some SeUsage)
               else
                 let path = (case sf_socket fl of Some s \<Rightarrow> s
                             | None \<Rightarrow> envOr getenv ''PARZIVAL_BROKER_SOCKET'' defaultServiceSocket)
                 in case dial path of
                      Inl e \<Rightarrow> ([], [], Some (SeUnreachable path e))
                    | Inr reply \<Rightarrow>
                        (case Call marshal unmarshal \<lparr>cl_used = False\<rparr> (sf_args fl ! 0) inputs reply of
                           (_, sent, Inl e) \<Rightarrow> ([], sent, Some (SeCall e))
                         | (_, sent, Inr resp) \<Rightarrow>
                             if rs_Status resp = StatusOK then
                               ((case rs_Result resp of None \<Rightarrow> [] | Some r \<Rightarrow> r) @ newline, sent, None)
                             else
                               ([], sent,
                                Some (case rs_Error resp of
                                   Some eb \<Rightarrow> SeStatus (rs_Status resp) (eb_Code eb) (eb_Message eb)
                                     (serviceStatusExitCode (rs_Status resp))
                                 | None \<Rightarrow> SeStatus (rs_Status resp) [] []
                                     (serviceStatusExitCode (rs_Status resp)))))))"

subsection \<open>The daemon\<close>

text \<open>The flags as given on the command line, \<open>None\<close> for one that is not there.\<close>

record broker_flags =
  bf_version :: bool
  bf_socket :: "string option"
  bf_authz :: "string option"
  bf_audit :: "string option"
  bf_configHome :: "string option"
  bf_runtimeRoot :: "string option"
  bf_socketGroup :: "string option"

definition flag_or :: "string option \<Rightarrow> getenv \<Rightarrow> string \<Rightarrow> string \<Rightarrow> string" where
  "flag_or given getenv name deflt = (case given of Some v \<Rightarrow> v | None \<Rightarrow> envOr getenv name deflt)"

datatype run_error = MissingConfiguration | SetenvFailed | StartupFailed new_error | StaleSocket string

datatype run_result = PrintVersion | RunFailed run_error | ServeWith server config

text \<open>
  \<open>run\<close> up to \<open>Serve\<close>. \<open>setenv\<close> is whether the two \<open>Setenv\<close> calls succeed, \<open>mkdirAll\<close>
  whether a directory can be made, and \<open>remove\<close> the error of \<open>Remove\<close> on a path other than that it
  does not exist.
\<close>

definition broker_run ::
  "'a libs \<Rightarrow> startup \<Rightarrow> tree \<Rightarrow> string option \<Rightarrow> getenv \<Rightarrow> bool \<Rightarrow> (string \<Rightarrow> bool) \<Rightarrow> (string \<Rightarrow> string option) \<Rightarrow>
   broker_flags \<Rightarrow> run_result" where
  "broker_run lb su t cwd getenv setenv mkdirAll remove fl =
     (let socketPath = flag_or (bf_socket fl) getenv ''PARZIVAL_BROKER_SOCKET'' ''/run/parzival/broker.sock'';
          authzPath = flag_or (bf_authz fl) getenv ''PARZIVAL_BROKER_AUTHZ_FILE'' [];
          auditFile = flag_or (bf_audit fl) getenv ''PARZIVAL_BROKER_AUDIT_FILE'' [];
          configHome = flag_or (bf_configHome fl) getenv ''PARZIVAL_BROKER_CONFIG_HOME'' [];
          runtimeRoot = flag_or (bf_runtimeRoot fl) getenv ''PARZIVAL_BROKER_RUNTIME_DIR'' [];
          socketGroup = flag_or (bf_socketGroup fl) getenv ''PARZIVAL_BROKER_SOCKET_GROUP'' ''parzival-clients''
      in if bf_version fl then PrintVersion
         else if authzPath = [] \<or> auditFile = [] \<or> configHome = [] \<or> runtimeRoot = [] then
           RunFailed MissingConfiguration
         else if \<not> setenv then RunFailed SetenvFailed
         else
           let su' = su\<lparr>su_env := (su_env su)\<lparr>env_PARZIVAL_CONFIG_HOME := configHome,
                                               env_XDG_RUNTIME_DIR := runtimeRoot\<rparr>\<rparr>;
               cfg = \<lparr>cf_SocketPath = socketPath, cf_AuthzPath = authzPath, cf_AuditPath = auditFile,
                      cf_TrustedOwnerUID = of_nat TrustedOwnerRootUID, cf_SocketGroupName = socketGroup,
                      cf_MaxRequestBytes = 0, cf_MaxResponseBytes = 0, cf_ReadTimeout = 0, cf_DefaultOpTimeout = 0\<rparr>
           in case New lb su' t cwd mkdirAll cfg of
                Inl e \<Rightarrow> RunFailed (StartupFailed e)
              | Inr sv \<Rightarrow>
                  (case remove socketPath of
                     Some e \<Rightarrow> RunFailed (StaleSocket e)
                   | None \<Rightarrow> ServeWith sv (applyDefaults cfg)))"


subsection \<open>Properties\<close>

text \<open>
  (C36) The client and the daemon mean the same request. When the client's frame reaches a
  handler whole, the handler serves exactly the operation and the inputs of the command line for
  the uid of the peer; when the frame of its answer reaches the client, the client prints the
  result the daemon approved, or nothing, and its exit status tells which: 0 for an approved
  result, and for a request the authorization file does not allow the status of a denial.
\<close>

theorem service_reaches_the_broker:
  assumes flags: "set_inputs (sf_inputs fl) [] = Inr inputs" "sf_args fl = [op]" "sf_socket fl = Some path"
    and req: "req = \<lparr>rq_Protocol = ProtocolVersion, rq_Operation = op, rq_Inputs = inputs\<rparr>"
    and there: "writeFrame (marshal req) = Inr (wd_bytes w)" "decodeRequest (lb_request lb) (marshal req) = Inr req"
      "length (marshal req) \<le> unat (word_of_int (sv_MaxRequestBytes sv) :: 32 word)"
    and peer: "wd_peer w = Some uid" "splitOperationRef op = Some (consumer, operation)"
    and sent: "Send r \<in> set (handleConn sv lb w)"
    and answer: "writeResponse wire r = Inr reply" "unmarshal (wire r) = Inr r"
      "length (wire r) \<le> MaxResponseBytes + 4096" "dial path = Inr reply"
  shows "(\<exists>rec. au_PeerUID rec = uid \<and> au_Operation rec = op \<and>
      handleConn sv lb w = serve_request sv lb w uid req rec consumer operation) \<and>
    fst (runService marshal unmarshal getenv dial (Inr fl)) =
      (if rs_Status r = StatusOK then (case rs_Result r of None \<Rightarrow> [] | Some x \<Rightarrow> x) @ newline else []) \<and>
    fst (snd (runService marshal unmarshal getenv dial (Inr fl))) = wd_bytes w \<and>
    service_exit (snd (snd (runService marshal unmarshal getenv dial (Inr fl)))) =
      (if rs_Status r = StatusOK then 0 else serviceStatusExitCode (rs_Status r)) \<and>
    (\<not> Decide (sv_authz sv) uid op \<longrightarrow>
      service_exit (snd (snd (runService marshal unmarshal getenv dial (Inr fl)))) = serviceExitDenied)"
proof -
  have "readFrame (wd_bytes w @ []) (word_of_int (sv_MaxRequestBytes sv)) = Inr (marshal req, [])"
    using frame_read[OF there(1), of "[]" "word_of_int (sv_MaxRequestBytes sv)"] there(3) by simp
  moreover have "op \<noteq> []"
    using peer(2) by (auto simp: splitOperationRef_iff)
  ultimately have "handleConn sv lb w = serve_request sv lb w uid req
      \<lparr>au_Time = wd_start w, au_PeerUID = uid, au_Operation = op, au_Decision = [], au_Outcome = [], au_Duration = [],
       au_InputNames = sortedInputNames inputs\<rparr> consumer operation"
    using peer there(2) by (simp add: handleConn_def req ProtocolVersion_def)
  then obtain rec where h: "au_PeerUID rec = uid" "au_Operation rec = op"
      "handleConn sv lb w = serve_request sv lb w uid req rec consumer operation"
    by (metis audit_record.select_convs(2,3))
  have reply: "readFrame reply (word_of_nat (MaxResponseBytes + 4096)) = Inr (wire r, [])"
    using frame_read[OF answer(1)[unfolded writeResponse_def], of "[]" "word_of_nat (MaxResponseBytes + 4096)"] answer(3)
    by (simp add: MaxResponseBytes_def)
  have call: "Call marshal unmarshal \<lparr>cl_used = False\<rparr> op inputs reply = (\<lparr>cl_used = True\<rparr>, wd_bytes w, Inr r)"
    using there(1) reply answer(2) by (simp add: Call_def req[symmetric])
  have run: "runService marshal unmarshal getenv dial (Inr fl) =
      (if rs_Status r = StatusOK then ((case rs_Result r of None \<Rightarrow> [] | Some x \<Rightarrow> x) @ newline, wd_bytes w, None)
       else ([], wd_bytes w,
         Some (case rs_Error r of
            Some eb \<Rightarrow> SeStatus (rs_Status r) (eb_Code eb) (eb_Message eb) (serviceStatusExitCode (rs_Status r))
          | None \<Rightarrow> SeStatus (rs_Status r) [] [] (serviceStatusExitCode (rs_Status r)))))"
    using flags answer(4) call by (simp add: runService_def)
  have denied: "rs_Status r = StatusDenied" if "\<not> Decide (sv_authz sv) uid op"
    using sent that unfolding h(3)
    by (auto simp: serve_request_def req finish_def Let_def respDenied_def errResponse_def StatusDenied_def StatusOK_def)
  show ?thesis
    using h denied unfolding run
    by (auto simp: service_exit_def serviceStatusExitCode_def StatusDenied_def StatusOK_def split: option.splits)
qed

definition demo_wire :: "response \<Rightarrow> string" where
  "demo_wire r = (case rs_Result r of None \<Rightarrow> [] | Some x \<Rightarrow> x)"

definition demo_service :: service_flags where
  "demo_service = \<lparr>sf_socket = Some ''/s'', sf_inputs = [], sf_args = [''tea.repos-list'']\<rparr>"

theorem service_reaches_the_broker_witness:
  "fst (runService (\<lambda>_. ''{}'') (\<lambda>_. Inr (okResponse ''[]'')) (\<lambda>_. []) (\<lambda>_. Inr (PutUint32 2 @ ''[]'')) (Inr demo_service)) =
   ''[]'' @ newline"
proof -
  have q: "demo_request = \<lparr>rq_Protocol = ProtocolVersion, rq_Operation = ''tea.repos-list'', rq_Inputs = []\<rparr>"
    by (simp add: demo_request_def ProtocolVersion_def)
  have n: "(word_of_nat (length ''{}'') :: 32 word) = 2" by simp
  have f: "writeFrame ''{}'' = Inr (wd_bytes demo_world)" by (simp add: writeFrame_def demo_world_def)
  have w: "writeResponse demo_wire (okResponse ''[]'') = Inr (PutUint32 2 @ ''[]'')"
    by (simp add: writeResponse_def writeFrame_def demo_wire_def okResponse_def)
  have p: "wd_peer demo_world = Some 1000" by (simp add: demo_world_def)
  have l: "length ''{}'' \<le> unat (word_of_int (sv_MaxRequestBytes demo_server) :: 32 word)"
    by (simp add: demo_server_def)
  have s: "Send (okResponse ''[]'') \<in> set (handleConn demo_server demo_libs demo_world)" by (simp add: demo_trace)
  have b: "length (demo_wire (okResponse ''[]'')) \<le> MaxResponseBytes + 4096"
    by (simp add: demo_wire_def okResponse_def MaxResponseBytes_def)
  have g: "set_inputs (sf_inputs demo_service) [] = Inr []" "sf_args demo_service = [''tea.repos-list'']"
    "sf_socket demo_service = Some ''/s''" by (simp_all add: demo_service_def)
  show ?thesis
    using service_reaches_the_broker[of demo_service "[]" "''tea.repos-list''" "''/s''" demo_request "\<lambda>_. ''{}''" demo_world
        demo_libs demo_server 1000 "''tea''" "''repos-list''" "okResponse ''[]''" demo_wire "PutUint32 2 @ ''[]''"
        "\<lambda>_. Inr (okResponse ''[]'')" "\<lambda>_. Inr (PutUint32 2 @ ''[]'')" "\<lambda>_. []", OF g q f demo_decoded l p demo_split s w refl b refl]
    by (simp add: okResponse_def)
qed

text \<open>
  \<open>doctor\<close> succeeds exactly on the posture it checks: no ambient token in the
  environment, no token file the caller can read, a policy that exists and loads, a writable
  audit log, and an OpenBao configuration that uses AppRole, or any valid one when the ambient
  mode was allowed.
\<close>

theorem doctor_passes_iff:
  assumes "df_args fl = []"
  shows "snd (runDoctor d (Inr fl)) = None \<longleftrightarrow>
    dh_getenv d ''BAO_TOKEN'' = [] \<and> dh_token d \<in> {TokenAbsent, TokenRegular False} \<and>
    (\<exists>p. dh_policy d = Inr (Some p)) \<and> dh_audit d = None \<and>
    (\<exists>ob. NewOpenBaoFromEnv (dh_getenv d) (dh_cfg d) = Inr ob \<and> (ob_approle ob \<or> df_allowAmbient fl))"
proof -
  have caps: "cap_NonAmbientBrokerAuth (openbao_Capabilities ob) = ob_approle ob" for ob
    by (simp add: openbao_Capabilities_def)
  have "snd (runDoctor d (Inr fl)) = None \<longleftrightarrow> list_all (\<lambda>l. \<not> is_failure l) (doctor_report d (df_allowAmbient fl))"
    using assms by (simp add: runDoctor_def Let_def list_all_iff filter_empty_conv)
  also have "\<dots> \<longleftrightarrow> dh_getenv d ''BAO_TOKEN'' = [] \<and> dh_token d \<in> {TokenAbsent, TokenRegular False} \<and>
    (\<exists>p. dh_policy d = Inr (Some p)) \<and> dh_audit d = None \<and>
    (\<exists>ob. NewOpenBaoFromEnv (dh_getenv d) (dh_cfg d) = Inr ob \<and> (ob_approle ob \<or> df_allowAmbient fl))"
  proof -
    have t: "is_failure (token_line path t) \<longleftrightarrow> t \<notin> {TokenAbsent, TokenRegular False}" for path t
      by (cases t) (auto simp: token_line_def is_failure_def)
    have p: "is_failure (case po of
         Inl e \<Rightarrow> Verdict l False e
       | Inr None \<Rightarrow> Verdict l False m
       | Inr (Some p) \<Rightarrow> Verdict l True (f p)) \<longleftrightarrow> \<not> (\<exists>p. po = Inr (Some p))" for po l m and f :: "policy \<Rightarrow> string"
      by (auto simp: is_failure_def split: sum.splits option.splits)
    show ?thesis
      unfolding doctor_report_def
      by (cases "NewOpenBaoFromEnv (dh_getenv d) (dh_cfg d)"; cases "dh_audit d"; cases "detect (dh_getenv d)")
        (auto simp: t p is_failure_def[of "Note _ _"] is_failure_def[of "Verdict _ _ _"] Let_def caps)
  qed
  finally show ?thesis .
qed

theorem doctor_passes_iff_witness:
  "snd (runDoctor \<lparr>dh_getenv = (\<lambda>_. []), dh_env = h_env (demo_host no_env []), dh_token = TokenAbsent,
     dh_policy = Inr (Some \<lparr>p_Schema = 1, p_Rules = []\<rparr>), dh_audit = None, dh_cfg = no_config,
     dh_err_text = (\<lambda>_. [])\<rparr> (Inr \<lparr>df_allowAmbient = True, df_args = []\<rparr>)) = None"
proof -
  have "NewOpenBaoFromEnv (\<lambda>_. []) no_config = Inr NewOpenBao"
    by (simp add: NewOpenBaoFromEnv_def envOrFallback_def no_config_def)
  then show ?thesis by (subst doctor_passes_iff) simp_all
qed

lemma pinned_dirs:
  assumes "c \<noteq> []"
  shows "consumer_Dir (e\<lparr>env_PARZIVAL_CONFIG_HOME := c, env_XDG_RUNTIME_DIR := x\<rparr>) = Join [c, ''consumers'']"
    "profile_Dir (e\<lparr>env_PARZIVAL_CONFIG_HOME := c, env_XDG_RUNTIME_DIR := x\<rparr>) = Join [c, ''profiles'']"
  using assms by (simp_all add: consumer_Dir_def consumer_configHome_def profile_Dir_def profile_configHome_def)

text \<open>Startup reads the environment through the two directories only.\<close>

lemma load_profiles_env:
  assumes "profile_Dir e1 = profile_Dir e2"
  shows "load_profiles (su\<lparr>su_env := e1\<rparr>) cfg ps defs = load_profiles (su\<lparr>su_env := e2\<rparr>) cfg ps defs"
proof (induction defs arbitrary: ps)
  case (Cons d defs)
  obtain name def where d: "d = (name, def)" by (cases d)
  have l: "profile_Load (su_read su) (su_profile su) e1 n = profile_Load (su_read su) (su_profile su) e2 n" for n
    by (simp add: profile_Load_def assms)
  show ?case
    using Cons.IH by (simp add: d l assms split: sum.splits option.splits)
qed simp

lemma wired_env: "wired t cwd (su\<lparr>su_env := e\<rparr>) = (wired t cwd su)\<lparr>su_env := e\<rparr>"
  by (simp add: wired_def)

lemma newServer_env:
  assumes "consumer_Dir e1 = consumer_Dir e2" "profile_Dir e1 = profile_Dir e2"
  shows "newServer lb (su\<lparr>su_env := e1\<rparr>) cfg = newServer lb (su\<lparr>su_env := e2\<rparr>) cfg"
proof -
  have f: "su_read (su\<lparr>su_env := e\<rparr>) = su_read su" "su_authz (su\<lparr>su_env := e\<rparr>) = su_authz su"
    "su_verify (su\<lparr>su_env := e\<rparr>) = su_verify su" "su_entries (su\<lparr>su_env := e\<rparr>) = su_entries su"
    "su_definition (su\<lparr>su_env := e\<rparr>) = su_definition su" "su_env (su\<lparr>su_env := e\<rparr>) = e" for e
    by simp_all
  have d: "load_definitions lb (su\<lparr>su_env := e1\<rparr>) = load_definitions lb (su\<lparr>su_env := e2\<rparr>)"
    unfolding load_definitions_def f assms(1) ..
  have c: "check_definition lb (su\<lparr>su_env := e1\<rparr>) = check_definition lb (su\<lparr>su_env := e2\<rparr>)"
    by (simp add: fun_eq_iff check_definition_def assms(1))
  have p: "load_profiles (su\<lparr>su_env := e1\<rparr>) = load_profiles (su\<lparr>su_env := e2\<rparr>)"
    using load_profiles_env[OF assms(2)] by (simp add: fun_eq_iff)
  show ?thesis unfolding newServer_def d c p f ..
qed

text \<open>
  Nothing the daemon inherits chooses what it trusts: with its settings given on the
  command line, two starts that differ in the whole environment, so in the home directory, the
  XDG directories and every variable of the project, come to the same server or the same error;
  and whatever the settings are, the files a server trusts must be root's.
\<close>

theorem broker_ignores_its_environment:
  assumes v: "bf_socket fl = Some so" "bf_authz fl = Some az" "bf_audit fl = Some au" "bf_configHome fl = Some ch"
    "bf_runtimeRoot fl = Some rt" "bf_socketGroup fl = Some gr"
  shows "broker_run lb (su\<lparr>su_env := e1\<rparr>) t cwd g1 setenv mkdirAll remove fl =
      broker_run lb (su\<lparr>su_env := e2\<rparr>) t cwd g2 setenv mkdirAll remove fl \<and>
    (\<forall>sv cfg. broker_run lb (su\<lparr>su_env := e1\<rparr>) t cwd g1 setenv mkdirAll remove fl = ServeWith sv cfg \<longrightarrow>
       cf_TrustedOwnerUID cfg = 0 \<and> ch \<noteq> [] \<and> cf_AuthzPath cfg = az)"
proof -
  have e: "newServer lb ((wired t cwd su)\<lparr>su_env := e1\<lparr>env_PARZIVAL_CONFIG_HOME := ch, env_XDG_RUNTIME_DIR := rt\<rparr>\<rparr>) cfg =
      newServer lb ((wired t cwd su)\<lparr>su_env := e2\<lparr>env_PARZIVAL_CONFIG_HOME := ch, env_XDG_RUNTIME_DIR := rt\<rparr>\<rparr>) cfg" if "ch \<noteq> []" for cfg
    using newServer_env pinned_dirs[OF that] by metis
  show ?thesis
  proof (cases "ch = []")
    case True
    then show ?thesis by (simp add: broker_run_def flag_or_def v)
  next
    case False
    have o: "cf_TrustedOwnerUID (applyDefaults c) = cf_TrustedOwnerUID c" "cf_AuthzPath (applyDefaults c) = cf_AuthzPath c" for c
      by (simp_all add: applyDefaults_def Let_def)
    show ?thesis
      using e[OF False] False
      by (auto simp: broker_run_def New_def wired_env flag_or_def v Let_def o TrustedOwnerRootUID_def split: sum.splits option.splits if_splits)
  qed
qed

definition demo_flags :: broker_flags where
  "demo_flags = \<lparr>bf_version = False, bf_socket = Some ''/run/p/s'', bf_authz = Some ''/etc/p/authz.json'', bf_audit = Some ''/a'',
     bf_configHome = Some ''/etc/p'', bf_runtimeRoot = Some ''/run/p'', bf_socketGroup = Some []\<rparr>"

theorem broker_ignores_its_environment_witness:
  "broker_run demo_libs (demo_startup\<lparr>su_env := (su_env demo_startup)\<lparr>env_home := ''/tmp''\<rparr>\<rparr>) linked_tree None (\<lambda>_. []) True
     (\<lambda>_. True) (\<lambda>_. None) demo_flags =
   broker_run demo_libs demo_startup linked_tree None (\<lambda>_. ''x'') True (\<lambda>_. True) (\<lambda>_. None) demo_flags"
proof -
  have f: "bf_socket demo_flags = Some ''/run/p/s''" "bf_authz demo_flags = Some ''/etc/p/authz.json''"
    "bf_audit demo_flags = Some ''/a''" "bf_configHome demo_flags = Some ''/etc/p''"
    "bf_runtimeRoot demo_flags = Some ''/run/p''" "bf_socketGroup demo_flags = Some []"
    by (simp_all add: demo_flags_def)
  have "demo_startup\<lparr>su_env := su_env demo_startup\<rparr> = demo_startup" by simp
  then show ?thesis using broker_ignores_its_environment[OF f] by metis
qed

end
