(* ===== verification/Broker_Trust.thy ===== *)
theory Broker_Trust
  imports Frontends
begin

text \<open>
  The daemon from its command line to the programs it starts: \<open>run\<close> of \<open>cmd/parzival-broker\<close> with
  the trust-root check of \<open>internal/consumer\<close> on a tree of files, and the sessions it then serves.
\<close>

text \<open>What a run that comes to \<open>Serve\<close> was given, and the server it started.\<close>

lemma broker_run_serves:
  assumes "broker_run lb su t cwd getenv setenv mkdirAll remove fl = ServeWith sv cfg"
  obtains su' cfg' home root where "home = flag_or (bf_configHome fl) getenv ''PARZIVAL_BROKER_CONFIG_HOME'' []" "home \<noteq> []"
    "su_env su' = (su_env su)\<lparr>env_PARZIVAL_CONFIG_HOME := home, env_XDG_RUNTIME_DIR := root\<rparr>"
    "newServer lb (wired t cwd su') cfg' = Inr sv" "cf_TrustedOwnerUID cfg' = 0" "cf_AuthzPath cfg = cf_AuthzPath cfg'"
    "mkdirAll (Dir (cf_AuditPath cfg))"
proof -
  define home where "home = flag_or (bf_configHome fl) getenv ''PARZIVAL_BROKER_CONFIG_HOME'' []"
  define root where "root = flag_or (bf_runtimeRoot fl) getenv ''PARZIVAL_BROKER_RUNTIME_DIR'' []"
  define su' where "su' = su\<lparr>su_env := (su_env su)\<lparr>env_PARZIVAL_CONFIG_HOME := home, env_XDG_RUNTIME_DIR := root\<rparr>\<rparr>"
  define cfg' where "cfg' = \<lparr>cf_SocketPath = flag_or (bf_socket fl) getenv ''PARZIVAL_BROKER_SOCKET'' ''/run/parzival/broker.sock'',
    cf_AuthzPath = flag_or (bf_authz fl) getenv ''PARZIVAL_BROKER_AUTHZ_FILE'' [],
    cf_AuditPath = flag_or (bf_audit fl) getenv ''PARZIVAL_BROKER_AUDIT_FILE'' [],
    cf_TrustedOwnerUID = of_nat TrustedOwnerRootUID,
    cf_SocketGroupName = flag_or (bf_socketGroup fl) getenv ''PARZIVAL_BROKER_SOCKET_GROUP'' ''parzival-clients'',
    cf_MaxRequestBytes = 0, cf_MaxResponseBytes = 0, cf_ReadTimeout = 0, cf_DefaultOpTimeout = 0\<rparr>"
  have n: "New lb su' t cwd mkdirAll cfg' = Inr sv" "home \<noteq> []" and cfg: "cfg = applyDefaults cfg'"
    using assms unfolding broker_run_def Let_def home_def[symmetric] root_def[symmetric] su'_def[symmetric] cfg'_def[symmetric]
    by (auto split: if_splits sum.splits option.splits)
  have "newServer lb (wired t cwd su') cfg' = Inr sv" "mkdirAll (Dir (cf_AuditPath cfg'))"
    using n(1) by (auto simp: New_def newFileAuditWriter_def split: if_splits sum.splits)
  then show thesis
    using n(2) cfg
    by (intro that[OF home_def, of su' root cfg'])
      (simp_all add: su'_def cfg'_def applyDefaults_def Let_def TrustedOwnerRootUID_def)
qed

lemma BuildArgv_head: "BuildArgv re d opName inputs = Inr argv \<Longrightarrow> hd argv = cd_Executable d"
  by (auto simp: BuildArgv_def split: option.splits sum.splits)

lemma session_runs_definitions:
  assumes "Exec argv envv tm \<in> set (handleConn sv lb w)"
  shows "\<exists>(name, d)\<in>set (sv_defs sv). hd argv = cd_Executable d"
proof -
  obtain req def op argv' pf where a: "admitted sv lb w req def op argv'" "within sv w pf op argv' (Exec argv envv tm)"
    using credential_admitted[OF assms] by (auto simp: uses_credential_def)
  then obtain c opName where "map_of (sv_defs sv) c = Some def" "BuildArgv (lb_re lb) def opName (rq_Inputs req) = Inr argv'"
    by (auto simp: admitted_def)
  moreover have "argv = argv'" using a(2) by (simp add: within_def)
  ultimately show ?thesis using BuildArgv_head by (fastforce dest: map_of_SomeD)
qed


text \<open>The example daemon on a file system that is all root's.\<close>

definition root_tree :: tree where "root_tree = (\<lambda>_. Some (Entry 0 493))"

definition root_flags :: broker_flags where
  "root_flags = \<lparr>bf_version = False, bf_socket = Some ''/run/pz.sock'', bf_authz = Some ''/etc/pz/authz.json'',
     bf_audit = Some ''/var/log/pz'', bf_configHome = Some ''/etc/pz'', bf_runtimeRoot = Some ''/run/p'',
     bf_socketGroup = Some ''pz''\<rparr>"

lemma root_daemon:
  "broker_run demo_libs demo_startup root_tree None no_env True (\<lambda>_. True) (\<lambda>_. None) root_flags =
     ServeWith demo_server (applyDefaults demo_config)"
proof -
  let ?e = "(su_env demo_startup)\<lparr>env_PARZIVAL_CONFIG_HOME := ''/etc/pz'', env_XDG_RUNTIME_DIR := ''/run/p''\<rparr>"
  have v: "VerifyTrustRoot root_tree None ''/etc/pz/consumers/tea.json'' 0 = None"
    "VerifyTrustRoot root_tree None ''/etc/pz/profiles/tea.json'' 0 = None"
    "VerifyTrustRoot root_tree None ''/usr/bin/tea'' 0 = None"
    "VerifyTrustRoot root_tree None ''/etc/pz/authz.json'' 0 = None"
    by code_simp+
  have "newServer demo_libs (wired root_tree None demo_startup) demo_config = Inr demo_server"
    by (rule demo_started[where entries = "[(''tea.json'', False)]" and f = "''tea.json''"])
      (simp_all add: wired_def demo_startup_def has_suffix_def has_prefix_def v)
  moreover have "consumer_Dir ?e = consumer_Dir (su_env demo_startup)" "profile_Dir ?e = profile_Dir (su_env demo_startup)"
    by code_simp+
  ultimately have n: "newServer demo_libs (wired root_tree None (demo_startup\<lparr>su_env := ?e\<rparr>)) demo_config = Inr demo_server"
    using newServer_env[of ?e "su_env demo_startup" demo_libs "wired root_tree None demo_startup" demo_config]
      wired_env[of root_tree None "su_env demo_startup" demo_startup]
    by (simp add: wired_env)
  then show ?thesis
    by (simp add: broker_run_def root_flags_def flag_or_def New_def newFileAuditWriter_def Let_def TrustedOwnerRootUID_def
        flip: demo_config_def)
qed


end
