(* ===== verification/Platforms.thy ===== *)
theory Platforms
  imports Ephemeral Broker_Session
begin

text \<open>
  The files of one platform only: the RAM disk of \<open>internal/ephemeral/ephemeral_darwin.go\<close>, the
  stub \<open>Serve\<close> of \<open>internal/mount/mount_darwin.go\<close>, and \<open>peerUID\<close> of
  \<open>internal/broker/peercred_linux.go\<close> and \<open>peercred_unsupported.go\<close>. The commands of macOS are an
  argument; what the code relies on is stated as \<open>mac_documented\<close>.
\<close>

subsection \<open>The RAM disk\<close>

text \<open>
  What the operating system offers: \<open>MkdirTemp\<close>, a command with its output or its error,
  \<open>os.Remove\<close> and \<open>os.Chmod\<close>, whose results the code drops.
\<close>

record 'm mac_os =
  mo_MkdirTemp :: "'m \<Rightarrow> 'm \<times> (string + string)"
  mo_Command :: "string list \<Rightarrow> 'm \<Rightarrow> 'm \<times> (string + string)"
  mo_Remove :: "string \<Rightarrow> 'm \<Rightarrow> 'm"
  mo_Chmod :: "string \<Rightarrow> 'm \<Rightarrow> 'm"

definition ramSectors :: string where "ramSectors = ''16384''"

definition attach_argv :: "string list" where
  "attach_argv = [''hdiutil'', ''attach'', ''-nomount'', ''ram://'' @ ramSectors]"

definition newfs_argv :: "string \<Rightarrow> string list" where
  "newfs_argv device = [''newfs_hfs'', ''-v'', ''parzival'', device]"

definition mount_argv :: "string \<Rightarrow> string \<Rightarrow> string list" where
  "mount_argv mp device =
     [''diskutil'', ''mount'', ''-mountPoint'', mp, ''-mountOptions'', ''nobrowse'', device]"

definition eject_argv :: "string \<Rightarrow> string list" where
  "eject_argv device = [''diskutil'', ''eject'', device]"

definition force_argv :: "string \<Rightarrow> string list" where
  "force_argv device = [''hdiutil'', ''detach'', ''-force'', device]"

definition mac_detach :: "'m mac_os \<Rightarrow> string \<Rightarrow> 'm \<Rightarrow> 'm" where
  "mac_detach os device m =
     (case mo_Command os (eject_argv device) m of
        (m1, Inl _) \<Rightarrow> fst (mo_Command os (force_argv device) m1)
      | (m1, Inr _) \<Rightarrow> m1)"

datatype ram_error =
    CreateMountpoint string | HdiutilAttach string | NoDevice | NewfsHfs string | DiskutilMount string

text \<open>The \<open>Dir\<close> of this platform: its path, and the device its teardown closes over.\<close>

record mac_dir =
  md_path :: string
  md_device :: string

definition mac_newDir :: "'m mac_os \<Rightarrow> 'm \<Rightarrow> 'm \<times> (ram_error + mac_dir)" where
  "mac_newDir os m =
     (case mo_MkdirTemp os m of
        (m1, Inl e) \<Rightarrow> (m1, Inl (CreateMountpoint e))
      | (m1, Inr mp) \<Rightarrow>
          (case mo_Command os attach_argv m1 of
             (m2, Inl e) \<Rightarrow> (mo_Remove os mp m2, Inl (HdiutilAttach e))
           | (m2, Inr out) \<Rightarrow>
               (case Fields out of
                  [] \<Rightarrow> (mo_Remove os mp m2, Inl NoDevice)
                | device # _ \<Rightarrow>
                    (case mo_Command os (newfs_argv device) m2 of
                       (m3, Inl e) \<Rightarrow> (mo_Remove os mp (mac_detach os device m3), Inl (NewfsHfs e))
                     | (m3, Inr _) \<Rightarrow>
                         (case mo_Command os (mount_argv mp device) m3 of
                            (m4, Inl e) \<Rightarrow> (mo_Remove os mp (mac_detach os device m4), Inl (DiskutilMount e))
                          | (m4, Inr _) \<Rightarrow> (mo_Chmod os mp m4, Inr \<lparr>md_path = mp, md_device = device\<rparr>))))))"

definition mac_teardown :: "'m mac_os \<Rightarrow> mac_dir \<Rightarrow> 'm \<Rightarrow> 'm" where
  "mac_teardown os d m = mo_Remove os (md_path d) (mac_detach os (md_device d) m)"

text \<open>\<open>Cleanup\<close> on this platform; \<open>wipe\<close> is its walk with \<open>zeroFile\<close>.\<close>

definition mac_Cleanup :: "'m mac_os \<Rightarrow> (string \<Rightarrow> 'm \<Rightarrow> 'm) \<Rightarrow> mac_dir \<Rightarrow> 'm \<Rightarrow> 'm \<times> mac_dir" where
  "mac_Cleanup os wipe d m =
     (if md_path d = [] then (m, d) else (mac_teardown os d (wipe (md_path d) m), d\<lparr>md_path := []\<rparr>))"

text \<open>What can be seen of the machine: directories for mounting, RAM disks, and what is mounted.\<close>

record mac_view =
  mv_dirs :: "string set"
  mv_disks :: "string set"
  mv_mounts :: "(string \<times> string) set"

definition released :: "string \<Rightarrow> mac_view \<Rightarrow> mac_view" where
  "released device v = v\<lparr>mv_disks := mv_disks v - {device}, mv_mounts := {x \<in> mv_mounts v. snd x \<noteq> device}\<rparr>"

text \<open>
  The documented behaviour: a command that fails changes nothing, the directory and the disk made
  are new, detaching a disk unmounts it, and a directory something is mounted on stays.
\<close>

definition mac_documented :: "'m mac_os \<Rightarrow> ('m \<Rightarrow> mac_view) \<Rightarrow> bool" where
  "mac_documented os view \<longleftrightarrow>
     (\<forall>m m1 e. mo_MkdirTemp os m = (m1, Inl e) \<longrightarrow> view m1 = view m) \<and>
     (\<forall>m m1 mp. mo_MkdirTemp os m = (m1, Inr mp) \<longrightarrow>
        mp \<noteq> [] \<and> mp \<notin> mv_dirs (view m) \<and> view m1 = (view m)\<lparr>mv_dirs := insert mp (mv_dirs (view m))\<rparr>) \<and>
     (\<forall>m m1 e. mo_Command os attach_argv m = (m1, Inl e) \<longrightarrow> view m1 = view m) \<and>
     (\<forall>m m1 out. mo_Command os attach_argv m = (m1, Inr out) \<longrightarrow> Fields out = [] \<longrightarrow> view m1 = view m) \<and>
     (\<forall>m m1 out device fs. mo_Command os attach_argv m = (m1, Inr out) \<longrightarrow> Fields out = device # fs \<longrightarrow>
        device \<notin> mv_disks (view m) \<and> view m1 = (view m)\<lparr>mv_disks := insert device (mv_disks (view m))\<rparr>) \<and>
     (\<forall>m m1 device res. mo_Command os (newfs_argv device) m = (m1, res) \<longrightarrow> view m1 = view m) \<and>
     (\<forall>m m1 mp device e. mo_Command os (mount_argv mp device) m = (m1, Inl e) \<longrightarrow> view m1 = view m) \<and>
     (\<forall>m m1 mp device out. mo_Command os (mount_argv mp device) m = (m1, Inr out) \<longrightarrow>
        view m1 = (view m)\<lparr>mv_mounts := insert (mp, device) (mv_mounts (view m))\<rparr>) \<and>
     (\<forall>m m1 device argv e. argv \<in> {eject_argv device, force_argv device} \<longrightarrow> mo_Command os argv m = (m1, Inl e) \<longrightarrow>
        view m1 = view m) \<and>
     (\<forall>m m1 device argv out. argv \<in> {eject_argv device, force_argv device} \<longrightarrow> mo_Command os argv m = (m1, Inr out) \<longrightarrow>
        view m1 = released device (view m)) \<and>
     (\<forall>m mp. view (mo_Remove os mp m) =
        (if mp \<in> fst ` mv_mounts (view m) then view m else (view m)\<lparr>mv_dirs := mv_dirs (view m) - {mp}\<rparr>)) \<and>
     (\<forall>m mp. view (mo_Chmod os mp m) = view m)"

text \<open>Only RAM disks in use are mounted, on directories that exist.\<close>

definition mac_ok :: "mac_view \<Rightarrow> bool" where
  "mac_ok v \<longleftrightarrow> mv_mounts v \<subseteq> mv_dirs v \<times> mv_disks v"

text \<open>Neither command lets the device go.\<close>

definition keeps_disk :: "'m mac_os \<Rightarrow> string \<Rightarrow> 'm \<Rightarrow> bool" where
  "keeps_disk os device m =
     (case mo_Command os (eject_argv device) m of
        (m1, Inl _) \<Rightarrow> isl (snd (mo_Command os (force_argv device) m1))
      | (_, Inr _) \<Rightarrow> False)"

lemma mac_laws:
  assumes "mac_documented os view"
  shows mkdir_fails: "\<And>m m1 e. mo_MkdirTemp os m = (m1, Inl e) \<Longrightarrow> view m1 = view m"
    and mkdir_new: "\<And>m m1 mp. mo_MkdirTemp os m = (m1, Inr mp) \<Longrightarrow>
      mp \<noteq> [] \<and> mp \<notin> mv_dirs (view m) \<and> view m1 = (view m)\<lparr>mv_dirs := insert mp (mv_dirs (view m))\<rparr>"
    and attach_fails: "\<And>m m1 e. mo_Command os attach_argv m = (m1, Inl e) \<Longrightarrow> view m1 = view m"
    and attach_empty: "\<And>m m1 out. mo_Command os attach_argv m = (m1, Inr out) \<Longrightarrow> Fields out = [] \<Longrightarrow> view m1 = view m"
    and attach_new: "\<And>m m1 out device fs. mo_Command os attach_argv m = (m1, Inr out) \<Longrightarrow> Fields out = device # fs \<Longrightarrow>
      device \<notin> mv_disks (view m) \<and> view m1 = (view m)\<lparr>mv_disks := insert device (mv_disks (view m))\<rparr>"
    and newfs_same: "\<And>m m1 device res. mo_Command os (newfs_argv device) m = (m1, res) \<Longrightarrow> view m1 = view m"
    and mount_fails: "\<And>m m1 mp device e. mo_Command os (mount_argv mp device) m = (m1, Inl e) \<Longrightarrow> view m1 = view m"
    and mount_new: "\<And>m m1 mp device out. mo_Command os (mount_argv mp device) m = (m1, Inr out) \<Longrightarrow>
      view m1 = (view m)\<lparr>mv_mounts := insert (mp, device) (mv_mounts (view m))\<rparr>"
    and eject_fails: "\<And>m m1 device e. mo_Command os (eject_argv device) m = (m1, Inl e) \<Longrightarrow> view m1 = view m"
    and force_fails: "\<And>m m1 device e. mo_Command os (force_argv device) m = (m1, Inl e) \<Longrightarrow> view m1 = view m"
    and eject_done: "\<And>m m1 device out. mo_Command os (eject_argv device) m = (m1, Inr out) \<Longrightarrow> view m1 = released device (view m)"
    and force_done: "\<And>m m1 device out. mo_Command os (force_argv device) m = (m1, Inr out) \<Longrightarrow> view m1 = released device (view m)"
    and remove_free: "\<And>m mp. mp \<notin> fst ` mv_mounts (view m) \<Longrightarrow>
      view (mo_Remove os mp m) = (view m)\<lparr>mv_dirs := mv_dirs (view m) - {mp}\<rparr>"
    and chmod_same: "\<And>m mp. view (mo_Chmod os mp m) = view m"
proof -
  note l = assms[unfolded mac_documented_def]
  show "\<And>m m1 e. mo_MkdirTemp os m = (m1, Inl e) \<Longrightarrow> view m1 = view m"
    by (rule l[THEN conjunct1, rule_format])
  show "\<And>m m1 mp. mo_MkdirTemp os m = (m1, Inr mp) \<Longrightarrow>
      mp \<noteq> [] \<and> mp \<notin> mv_dirs (view m) \<and> view m1 = (view m)\<lparr>mv_dirs := insert mp (mv_dirs (view m))\<rparr>"
    by (rule l[THEN conjunct2, THEN conjunct1, rule_format])
  show "\<And>m m1 e. mo_Command os attach_argv m = (m1, Inl e) \<Longrightarrow> view m1 = view m"
    by (rule l[THEN conjunct2, THEN conjunct2, THEN conjunct1, rule_format])
  show "\<And>m m1 out. mo_Command os attach_argv m = (m1, Inr out) \<Longrightarrow> Fields out = [] \<Longrightarrow> view m1 = view m"
    by (rule l[THEN conjunct2, THEN conjunct2, THEN conjunct2, THEN conjunct1, rule_format])
  show "\<And>m m1 out device fs. mo_Command os attach_argv m = (m1, Inr out) \<Longrightarrow> Fields out = device # fs \<Longrightarrow>
      device \<notin> mv_disks (view m) \<and> view m1 = (view m)\<lparr>mv_disks := insert device (mv_disks (view m))\<rparr>"
    by (rule l[THEN conjunct2, THEN conjunct2, THEN conjunct2, THEN conjunct2, THEN conjunct1, rule_format])
  show "\<And>m m1 device res. mo_Command os (newfs_argv device) m = (m1, res) \<Longrightarrow> view m1 = view m"
    by (rule l[THEN conjunct2, THEN conjunct2, THEN conjunct2, THEN conjunct2, THEN conjunct2, THEN conjunct1, rule_format])
  show "\<And>m m1 mp device e. mo_Command os (mount_argv mp device) m = (m1, Inl e) \<Longrightarrow> view m1 = view m"
    by (rule l[THEN conjunct2, THEN conjunct2, THEN conjunct2, THEN conjunct2, THEN conjunct2, THEN conjunct2, THEN conjunct1, rule_format])
  show "\<And>m m1 mp device out. mo_Command os (mount_argv mp device) m = (m1, Inr out) \<Longrightarrow>
      view m1 = (view m)\<lparr>mv_mounts := insert (mp, device) (mv_mounts (view m))\<rparr>"
    by (rule l[THEN conjunct2, THEN conjunct2, THEN conjunct2, THEN conjunct2, THEN conjunct2, THEN conjunct2, THEN conjunct2, THEN conjunct1, rule_format])
  show "\<And>m m1 device e. mo_Command os (eject_argv device) m = (m1, Inl e) \<Longrightarrow> view m1 = view m"
    by (rule l[THEN conjunct2, THEN conjunct2, THEN conjunct2, THEN conjunct2, THEN conjunct2, THEN conjunct2, THEN conjunct2, THEN conjunct2, THEN conjunct1, rule_format, rotated]) auto
  show "\<And>m m1 device e. mo_Command os (force_argv device) m = (m1, Inl e) \<Longrightarrow> view m1 = view m"
    by (rule l[THEN conjunct2, THEN conjunct2, THEN conjunct2, THEN conjunct2, THEN conjunct2, THEN conjunct2, THEN conjunct2, THEN conjunct2, THEN conjunct1, rule_format, rotated]) auto
  show "\<And>m m1 device out. mo_Command os (eject_argv device) m = (m1, Inr out) \<Longrightarrow> view m1 = released device (view m)"
    by (rule l[THEN conjunct2, THEN conjunct2, THEN conjunct2, THEN conjunct2, THEN conjunct2, THEN conjunct2, THEN conjunct2, THEN conjunct2, THEN conjunct2, THEN conjunct1, rule_format, rotated]) auto
  show "\<And>m m1 device out. mo_Command os (force_argv device) m = (m1, Inr out) \<Longrightarrow> view m1 = released device (view m)"
    by (rule l[THEN conjunct2, THEN conjunct2, THEN conjunct2, THEN conjunct2, THEN conjunct2, THEN conjunct2, THEN conjunct2, THEN conjunct2, THEN conjunct2, THEN conjunct1, rule_format, rotated]) auto
  show "\<And>m mp. mp \<notin> fst ` mv_mounts (view m) \<Longrightarrow>
      view (mo_Remove os mp m) = (view m)\<lparr>mv_dirs := mv_dirs (view m) - {mp}\<rparr>"
    using l[THEN conjunct2, THEN conjunct2, THEN conjunct2, THEN conjunct2, THEN conjunct2, THEN conjunct2, THEN conjunct2, THEN conjunct2, THEN conjunct2, THEN conjunct2, THEN conjunct1, rule_format] by simp
  show "\<And>m mp. view (mo_Chmod os mp m) = view m"
    by (rule l[THEN conjunct2, THEN conjunct2, THEN conjunct2, THEN conjunct2, THEN conjunct2, THEN conjunct2, THEN conjunct2, THEN conjunct2, THEN conjunct2, THEN conjunct2, THEN conjunct2, rule_format])
qed

lemma view_detach:
  assumes "mac_documented os view"
  shows "view (mac_detach os device m) = (if keeps_disk os device m then view m else released device (view m))"
proof (cases "mo_Command os (eject_argv device) m")
  case (Pair m1 r)
  obtain m2 r2 where f: "mo_Command os (force_argv device) m1 = (m2, r2)" by (metis surj_pair)
  show ?thesis
  proof (cases r)
    case (Inl e)
    then show ?thesis
      using Pair f eject_fails[OF assms, of device m m1] force_fails[OF assms, of device m1 m2] force_done[OF assms, of device m1 m2]
      by (cases r2) (simp_all add: mac_detach_def keeps_disk_def f)
  next
    case (Inr out)
    then show ?thesis
      using Pair eject_done[OF assms, of device m m1] by (simp add: mac_detach_def keeps_disk_def)
  qed
qed

lemma released_new:
  assumes "mac_ok v" "device \<notin> mv_disks v"
  shows "released device (v\<lparr>mv_dirs := ds, mv_disks := insert device (mv_disks v)\<rparr>) = v\<lparr>mv_dirs := ds\<rparr>"
    and "released device (v\<lparr>mv_dirs := ds, mv_disks := insert device (mv_disks v), mv_mounts := insert (mp, device) (mv_mounts v)\<rparr>) =
      v\<lparr>mv_dirs := ds\<rparr>"
proof -
  have "{x \<in> mv_mounts v. snd x \<noteq> device} = mv_mounts v" using assms by (auto simp: mac_ok_def)
  moreover have "{x \<in> insert (mp, device) (mv_mounts v). snd x \<noteq> device} = {x \<in> mv_mounts v. snd x \<noteq> device}" by auto
  moreover have "mv_disks v - {device} = mv_disks v" using assms(2) by simp
  ultimately show "released device (v\<lparr>mv_dirs := ds, mv_disks := insert device (mv_disks v)\<rparr>) = v\<lparr>mv_dirs := ds\<rparr>"
    and "released device (v\<lparr>mv_dirs := ds, mv_disks := insert device (mv_disks v), mv_mounts := insert (mp, device) (mv_mounts v)\<rparr>) =
      v\<lparr>mv_dirs := ds\<rparr>"
    by (simp_all add: released_def)
qed
lemma unmounted:
  "mac_ok (view m) \<Longrightarrow> mp \<notin> mv_dirs (view m) \<Longrightarrow> mp \<notin> fst ` mv_mounts (view m)"
  by (auto simp: mac_ok_def)

lemma remove_new:
  assumes "mac_documented os view" "mac_ok (view m)" "mp \<notin> mv_dirs (view m)"
    "view m1 = (view m)\<lparr>mv_dirs := insert mp (mv_dirs (view m)), mv_disks := ds\<rparr>"
  shows "view (mo_Remove os mp m1) = (view m)\<lparr>mv_disks := ds\<rparr>"
proof -
  have "mp \<notin> fst ` mv_mounts (view m1)" using unmounted[of view m mp] assms(2-4) by simp
  then show ?thesis using remove_free[OF assms(1)] assms(3,4) by simp
qed

lemma detach_unmounted:
  assumes "mac_documented os view" "mac_ok (view m)" "mp \<notin> mv_dirs (view m)" "device \<notin> mv_disks (view m)"
    "view m1 = (view m)\<lparr>mv_dirs := insert mp (mv_dirs (view m)), mv_disks := insert device (mv_disks (view m))\<rparr>"
  shows "view (mo_Remove os mp (mac_detach os device m1)) =
    (if keeps_disk os device m1 then (view m)\<lparr>mv_disks := insert device (mv_disks (view m))\<rparr> else view m)"
proof (cases "keeps_disk os device m1")
  case True
  then show ?thesis using remove_new[OF assms(1-3)] view_detach[OF assms(1), of device m1] assms(5) by simp
next
  case False
  then have "view (mac_detach os device m1) =
      (view m)\<lparr>mv_dirs := insert mp (mv_dirs (view m)), mv_disks := mv_disks (view m)\<rparr>"
    using view_detach[OF assms(1), of device m1] released_new(1)[OF assms(2,4)] assms(5) by simp
  then show ?thesis using remove_new[OF assms(1-3), of "mac_detach os device m1" "mv_disks (view m)"] False by simp
qed

lemma detach_mounted:
  assumes "mac_documented os view" "mac_ok (view m)" "mp \<notin> mv_dirs (view m)" "device \<notin> mv_disks (view m)"
    "view m1 = (view m)\<lparr>mv_dirs := insert mp (mv_dirs (view m)), mv_disks := insert device (mv_disks (view m)),
      mv_mounts := insert (mp, device) (mv_mounts (view m))\<rparr>" "\<not> keeps_disk os device m1"
  shows "view (mo_Remove os mp (mac_detach os device m1)) = view m"
proof -
  have "view (mac_detach os device m1) =
      (view m)\<lparr>mv_dirs := insert mp (mv_dirs (view m)), mv_disks := mv_disks (view m)\<rparr>"
    using view_detach[OF assms(1), of device m1] released_new(2)[OF assms(2,4)] assms(5,6) by simp
  then show ?thesis using remove_new[OF assms(1-3), of "mac_detach os device m1" "mv_disks (view m)"] by simp
qed


text \<open>A machine with one free directory name and one free device, whose \<open>diskutil eject\<close> fails.\<close>

definition demo_command :: "string list \<Rightarrow> mac_view \<Rightarrow> mac_view \<times> (string + string)" where
  "demo_command argv v =
     (if argv = attach_argv then
        (if ''/dev/disk4'' \<in> mv_disks v then (v, Inl ''no device'')
         else (v\<lparr>mv_disks := insert ''/dev/disk4'' (mv_disks v)\<rparr>, Inr ''/dev/disk4  ''))
      else if take 2 argv = [''diskutil'', ''mount''] then
        (v\<lparr>mv_mounts := insert (argv ! 3, last argv) (mv_mounts v)\<rparr>, Inr [])
      else if take 2 argv = [''diskutil'', ''eject''] then (v, Inl ''busy'')
      else if take 2 argv = [''hdiutil'', ''detach''] then (released (last argv) v, Inr [])
      else (v, Inr []))"

definition demo_mac :: "mac_view mac_os" where
  "demo_mac =
     \<lparr>mo_MkdirTemp = (\<lambda>v. if ''/t/parzival-1'' \<in> mv_dirs v then (v, Inl ''exists'')
          else (v\<lparr>mv_dirs := insert ''/t/parzival-1'' (mv_dirs v)\<rparr>, Inr ''/t/parzival-1'')),
      mo_Command = demo_command,
      mo_Remove = (\<lambda>mp v. if mp \<in> fst ` mv_mounts v then v else v\<lparr>mv_dirs := mv_dirs v - {mp}\<rparr>),
      mo_Chmod = (\<lambda>mp v. v)\<rparr>"

lemma demo_documented: "mac_documented demo_mac (\<lambda>v. v)"
proof -
  have f: "Fields ''/dev/disk4  '' = [''/dev/disk4'']" by code_simp
  show ?thesis
    by (auto simp: mac_documented_def demo_mac_def demo_command_def f attach_argv_def newfs_argv_def mount_argv_def
        eject_argv_def force_argv_def split: if_splits)
qed


subsection \<open>What is not there on other platforms\<close>

text \<open>
  \<open>peerUID\<close>: the errors of \<open>SyscallConn\<close>, of \<open>Control\<close> and of the socket option, looked at in this
  order. \<open>handleConn\<close> uses its result as the peer of the session's world.
\<close>

datatype peer_error = NoRawConn string | ControlFailed string | SockoptFailed string | NotSupported

definition peerUID :: "string option \<Rightarrow> string option \<Rightarrow> string + 32 word \<Rightarrow> peer_error + 32 word" where
  "peerUID raw ctrl ucred =
     (case raw of Some e \<Rightarrow> Inl (NoRawConn e)
      | None \<Rightarrow>
          (case ctrl of Some e \<Rightarrow> Inl (ControlFailed e)
           | None \<Rightarrow> (case ucred of Inl e \<Rightarrow> Inl (SockoptFailed e) | Inr uid \<Rightarrow> Inr uid)))"

definition peerUID_unsupported :: "peer_error + 32 word" where
  "peerUID_unsupported = Inl NotSupported"

definition peer_of :: "peer_error + 32 word \<Rightarrow> 32 word option" where
  "peer_of r = (case r of Inl _ \<Rightarrow> None | Inr uid \<Rightarrow> Some uid)"

lemma unsupported_serves_nobody:
  "wd_peer w = peer_of peerUID_unsupported \<Longrightarrow> handleConn sv lb w = []"
  by (simp add: handleConn_def peer_of_def peerUID_unsupported_def)

text \<open>A session that does anything knows the user id the kernel gave.\<close>

lemma session_has_kernel_uid:
  assumes "wd_peer w = peer_of (peerUID raw ctrl ucred)" "handleConn sv lb w \<noteq> []"
  shows "raw = None \<and> ctrl = None \<and> (\<exists>uid. ucred = Inr uid \<and> wd_peer w = Some uid)"
  using assms by (auto simp: handleConn_def peer_of_def peerUID_def split: option.splits sum.splits)

text \<open>\<open>mount.Serve\<close> on macOS.\<close>

definition Serve_darwin :: "string \<Rightarrow> string \<Rightarrow> string option" where
  "Serve_darwin mountpoint identity =
     Some ''parzival mount is not supported on macOS yet; use `parzival exec` (RAM-disk delivery) instead''"

end
