(* ===== verification/Exec_Signals.thy ===== *)
theory Exec_Signals
  imports Delivery
begin

text \<open>
  \<open>exec\<close> under signals. From the moment the RAM directory exists, \<open>runExec\<close> of
  \<open>cmd/parzival/main.go\<close> shares its \<open>Dir\<close> with the goroutine \<open>cleanupOnSignal\<close> starts, without a
  lock; the theory Delivery has the two in the one order of a quiet run, and here they
  interleave, with the child, at the system calls and at the reads and writes of \<open>d.path\<close>.
  A relative path is resolved in the working directory and stands for itself.
\<close>

subsection \<open>The goroutines\<close>

datatype clean_pc = CRead | CWalk | CTear | CClear

text \<open>
  Where \<open>runExec\<close> is. \<open>At_Stop\<close> is the deferred \<open>stop()\<close> and \<open>At_Deferred\<close> the deferred
  \<open>dir.Cleanup()\<close>; their flag is whether the credential was written.
\<close>

datatype exec_pc =
    At_New | At_Join | At_Contains string | At_Parent string | At_Open string | At_Write string | At_Close string
  | At_Start | At_Child | At_Clean clean_pc | At_Stop bool | At_Deferred bool clean_pc | At_Return

datatype handler_pc = No_Handler | Waiting | Handling clean_pc | Handled | Dismissed

datatype process_end = Alive | Exited | Killed

text \<open>
  What a run does not decide: the directory \<open>New\<close> made, the file name and the rendered body,
  whether the calls of \<open>WriteFile\<close> succeed, the order of \<open>WalkDir\<close>, whether the child starts,
  and what it may make of the files.
\<close>

record exec_plan =
  pn_dir :: string
  pn_name :: string
  pn_body :: string
  pn_calls :: "bool \<times> bool \<times> bool \<times> bool"
  pn_walk :: "estate \<Rightarrow> string \<Rightarrow> string list"
  pn_starts :: bool
  pn_acts :: "estate \<Rightarrow> estate \<Rightarrow> bool"

text \<open>
  \<open>xs_path\<close> is the field \<open>d.path\<close>, \<open>xs_pending\<close> the channel of capacity one, \<open>xs_done\<close> whether
  \<open>done\<close> is closed. The last two fields are for the statements: the file created, and
  where \<open>runExec\<close> was when each signal came.
\<close>

record exec_state =
  xs_main :: exec_pc
  xs_handler :: handler_pc
  xs_path :: string
  xs_fs :: estate
  xs_child :: bool
  xs_registered :: bool
  xs_pending :: bool
  xs_done :: bool
  xs_end :: process_end
  xs_wrote :: "string option"
  xs_when :: "exec_pc list"

text \<open>
  One step of \<open>Cleanup\<close>: the test of \<open>d.path\<close>, the walk that zeroes, the teardown, which has the
  path it was made with, and the assignment. \<open>None\<close> is its return.
\<close>

definition RemoveAll :: "string \<Rightarrow> estate \<Rightarrow> estate" where
  "RemoveAll dir fs = (\<lambda>q. if contains_path dir q then None else fs q)"

fun clean_next :: "exec_plan \<Rightarrow> clean_pc \<Rightarrow> exec_state \<Rightarrow> clean_pc option \<times> exec_state" where
  "clean_next pn CRead s = (if xs_path s = [] then None else Some CWalk, s)"
| "clean_next pn CWalk s =
     (Some CTear,
      s\<lparr>xs_fs := (if xs_path s = [] then xs_fs s
                 else snd (Cleanup (pn_walk pn (xs_fs s) (xs_path s)) (xs_fs s)))\<rparr>)"
| "clean_next pn CTear s = (Some CClear, s\<lparr>xs_fs := RemoveAll (pn_dir pn) (xs_fs s)\<rparr>)"
| "clean_next pn CClear s = (None, s\<lparr>xs_path := []\<rparr>)"

text \<open>One step of \<open>runExec\<close>; while the child runs, it waits.\<close>

fun main_next :: "exec_plan \<Rightarrow> exec_pc \<Rightarrow> exec_state \<Rightarrow> exec_state" where
  "main_next pn At_New s = s\<lparr>xs_main := At_Join, xs_handler := Waiting, xs_registered := True\<rparr>"
| "main_next pn At_Join s = s\<lparr>xs_main := At_Contains (Join [xs_path s, pn_name pn])\<rparr>"
| "main_next pn (At_Contains p) s =
     s\<lparr>xs_main := (if contains_path (xs_path s) p then At_Parent p else At_Stop False)\<rparr>"
| "main_next pn (At_Parent p) s =
     (let (parent, opens, writes, closes) = pn_calls pn in
      if Dir p = xs_path s then s\<lparr>xs_main := At_Open p\<rparr>
      else if \<not> parent then s\<lparr>xs_main := At_Stop False\<rparr>
      else s\<lparr>xs_main := At_Open p,
             xs_fs := (if xs_fs s (Dir p) = None then (xs_fs s)(Dir p \<mapsto> EDir) else xs_fs s)\<rparr>)"
| "main_next pn (At_Open p) s =
     (let (parent, opens, writes, closes) = pn_calls pn in
      if xs_fs s p \<noteq> None \<or> \<not> opens \<or> xs_fs s (Dir p) \<noteq> Some EDir then s\<lparr>xs_main := At_Stop False\<rparr>
      else s\<lparr>xs_main := At_Write p, xs_fs := (xs_fs s)(p \<mapsto> EFile []), xs_wrote := Some p\<rparr>)"
| "main_next pn (At_Write p) s =
     (let (parent, opens, writes, closes) = pn_calls pn in
      if \<not> writes then s\<lparr>xs_main := At_Stop False\<rparr>
      else s\<lparr>xs_main := At_Close p,
             xs_fs := (if xs_fs s p = None then xs_fs s else (xs_fs s)(p \<mapsto> EFile (pn_body pn)))\<rparr>)"
| "main_next pn (At_Close p) s =
     (let (parent, opens, writes, closes) = pn_calls pn in
      s\<lparr>xs_main := (if closes then At_Start else At_Stop False)\<rparr>)"
| "main_next pn At_Start s =
     (if pn_starts pn then s\<lparr>xs_main := At_Child, xs_child := True\<rparr> else s\<lparr>xs_main := At_Clean CRead\<rparr>)"
| "main_next pn At_Child s = s\<lparr>xs_main := (if xs_child s then At_Child else At_Clean CRead)\<rparr>"
| "main_next pn (At_Clean c) s =
     (case clean_next pn c s of
        (Some c', t) \<Rightarrow> t\<lparr>xs_main := At_Clean c'\<rparr> | (None, t) \<Rightarrow> t\<lparr>xs_main := At_Stop True\<rparr>)"
| "main_next pn (At_Stop ok) s = s\<lparr>xs_main := At_Deferred ok CRead, xs_registered := False, xs_done := True\<rparr>"
| "main_next pn (At_Deferred ok c) s =
     (case clean_next pn c s of
        (Some c', t) \<Rightarrow> t\<lparr>xs_main := At_Deferred ok c'\<rparr> | (None, t) \<Rightarrow> t\<lparr>xs_main := At_Return\<rparr>)"
| "main_next pn At_Return s = s\<lparr>xs_end := Exited\<rparr>"

definition handler_next :: "exec_plan \<Rightarrow> clean_pc \<Rightarrow> exec_state \<Rightarrow> exec_state" where
  "handler_next pn c s =
     (case clean_next pn c s of
        (Some c', t) \<Rightarrow> t\<lparr>xs_handler := Handling c'\<rparr> | (None, t) \<Rightarrow> t\<lparr>xs_handler := Handled\<rparr>)"

text \<open>
  The interleavings. A signal that nobody asked for kills the process, and one that comes while
  another is pending is dropped. When \<open>done\<close> is closed and a signal is pending, the \<open>select\<close> may
  take either. The child outlives the process.
\<close>

inductive exec_step :: "exec_plan \<Rightarrow> exec_state \<Rightarrow> exec_state \<Rightarrow> bool" for pn where
  main: "xs_end s = Alive \<Longrightarrow> exec_step pn s (main_next pn (xs_main s) s)"
| handle: "xs_end s = Alive \<Longrightarrow> xs_handler s = Handling c \<Longrightarrow> exec_step pn s (handler_next pn c s)"
| handled: "xs_end s = Alive \<Longrightarrow> xs_handler s = Handled \<Longrightarrow> exec_step pn s (s\<lparr>xs_end := Exited\<rparr>)"
| receive: "xs_end s = Alive \<Longrightarrow> xs_handler s = Waiting \<Longrightarrow> xs_pending s \<Longrightarrow>
    exec_step pn s (s\<lparr>xs_handler := Handling CRead, xs_pending := False\<rparr>)"
| dismiss: "xs_end s = Alive \<Longrightarrow> xs_handler s = Waiting \<Longrightarrow> xs_done s \<Longrightarrow>
    exec_step pn s (s\<lparr>xs_handler := Dismissed\<rparr>)"
| signal: "xs_end s = Alive \<Longrightarrow> xs_registered s \<Longrightarrow>
    exec_step pn s (s\<lparr>xs_pending := True, xs_when := xs_when s @ [xs_main s]\<rparr>)"
| kill: "xs_end s = Alive \<Longrightarrow> \<not> xs_registered s \<Longrightarrow>
    exec_step pn s (s\<lparr>xs_end := Killed, xs_when := xs_when s @ [xs_main s]\<rparr>)"
| child_acts: "xs_child s \<Longrightarrow> pn_acts pn (xs_fs s) fs \<Longrightarrow> exec_step pn s (s\<lparr>xs_fs := fs\<rparr>)"
| child_ends: "xs_child s \<Longrightarrow> exec_step pn s (s\<lparr>xs_child := False\<rparr>)"

definition exec_start :: "exec_plan \<Rightarrow> estate \<Rightarrow> exec_state" where
  "exec_start pn fs =
     \<lparr>xs_main = At_New, xs_handler = No_Handler, xs_path = pn_dir pn, xs_fs = fs, xs_child = False,
      xs_registered = False, xs_pending = False, xs_done = False, xs_end = Alive, xs_wrote = None, xs_when = []\<rparr>"

inductive exec_runs :: "exec_plan \<Rightarrow> estate \<Rightarrow> exec_state \<Rightarrow> bool" for pn fs where
  start: "exec_runs pn fs (exec_start pn fs)"
| step: "exec_runs pn fs s \<Longrightarrow> exec_step pn s t \<Longrightarrow> exec_runs pn fs t"

subsection \<open>The invariant\<close>

definition wiped :: "exec_plan \<Rightarrow> estate \<Rightarrow> bool" where
  "wiped pn fs \<longleftrightarrow> (\<forall>q. contains_path (pn_dir pn) q \<longrightarrow> fs q = None)"

definition bare :: "exec_plan \<Rightarrow> estate \<Rightarrow> bool" where
  "bare pn fs \<longleftrightarrow> (\<forall>q. contains_path (pn_dir pn) q \<and> q \<noteq> pn_dir pn \<longrightarrow> fs q = None)"

text \<open>A child that does not make the directory again once it is gone.\<close>

definition child_leaves :: "exec_plan \<Rightarrow> bool" where
  "child_leaves pn \<longleftrightarrow> (\<forall>fs fs'. pn_acts pn fs fs' \<and> wiped pn fs \<longrightarrow> wiped pn fs')"

text \<open>Where a signal does no harm: all but the writing of the file and the end of a failed one.\<close>

fun calm :: "exec_pc \<Rightarrow> bool" where
  "calm At_New = True"
| "calm At_Start = True"
| "calm At_Child = True"
| "calm (At_Clean c) = True"
| "calm (At_Stop ok) = ok"
| "calm (At_Deferred ok c) = ok"
| "calm At_Return = True"
| "calm pc = False"

text \<open>The goroutine is asleep and \<open>d.path\<close> is the directory.\<close>

definition asleep :: "exec_plan \<Rightarrow> exec_state \<Rightarrow> bool" where
  "asleep pn s \<longleftrightarrow> xs_handler s \<in> {No_Handler, Waiting, Dismissed} \<and> \<not> xs_pending s \<and> \<not> xs_child s \<and> xs_path s = pn_dir pn"

fun main_inv :: "exec_plan \<Rightarrow> exec_pc \<Rightarrow> exec_state \<Rightarrow> bool" where
  "main_inv pn At_New s = (asleep pn s \<and> \<not> xs_registered s \<and> bare pn (xs_fs s) \<and> xs_wrote s = None)"
| "main_inv pn At_Join s = (asleep pn s \<and> xs_registered s)"
| "main_inv pn (At_Contains p) s = (asleep pn s \<and> xs_registered s)"
| "main_inv pn (At_Parent p) s = (asleep pn s \<and> xs_registered s \<and> contains_path (pn_dir pn) p)"
| "main_inv pn (At_Open p) s = (asleep pn s \<and> xs_registered s \<and> contains_path (pn_dir pn) p)"
| "main_inv pn (At_Write p) s = (asleep pn s \<and> xs_registered s)"
| "main_inv pn (At_Close p) s = (asleep pn s \<and> xs_registered s)"
| "main_inv pn At_Start s = xs_registered s"
| "main_inv pn At_Child s = xs_registered s"
| "main_inv pn (At_Clean c) s = (xs_registered s \<and> (c = CClear \<longrightarrow> wiped pn (xs_fs s)))"
| "main_inv pn (At_Stop ok) s = (xs_registered s \<and> (if ok then wiped pn (xs_fs s) else asleep pn s))"
| "main_inv pn (At_Deferred ok c) s =
     (if ok then wiped pn (xs_fs s) else asleep pn s \<and> (c = CClear \<longrightarrow> wiped pn (xs_fs s)))"
| "main_inv pn At_Return s = wiped pn (xs_fs s)"

definition exec_inv :: "exec_plan \<Rightarrow> exec_state \<Rightarrow> bool" where
  "exec_inv pn s \<longleftrightarrow>
     main_inv pn (xs_main s) s \<and>
     (xs_path s = pn_dir pn \<or> wiped pn (xs_fs s)) \<and>
     (xs_handler s \<in> {Handling CClear, Handled} \<longrightarrow> wiped pn (xs_fs s)) \<and>
     (\<forall>p. xs_wrote s = Some p \<longrightarrow> contains_path (pn_dir pn) p) \<and>
     (xs_end s \<noteq> Alive \<longrightarrow> wiped pn (xs_fs s) \<or> bare pn (xs_fs s) \<and> \<not> xs_child s \<and> xs_wrote s = None)"
subsection \<open>Every step keeps it\<close>

lemma wiped_bare: "wiped pn fs \<Longrightarrow> bare pn fs"
  by (simp add: wiped_def bare_def)

lemma wiped_RemoveAll: "wiped pn (RemoveAll (pn_dir pn) fs)"
  by (simp add: wiped_def RemoveAll_def)

lemma wiped_zeroed: "wiped pn fs \<Longrightarrow> wiped pn (snd (Cleanup es fs))"
  unfolding wiped_def using zero_all_new by (fastforce simp: Cleanup_def Let_def)

lemma child_leaves: "child_leaves pn \<Longrightarrow> pn_acts pn fs fs' \<Longrightarrow> wiped pn fs \<Longrightarrow> wiped pn fs'"
  unfolding child_leaves_def by blast

text \<open>\<open>Cleanup\<close> touches the files and \<open>d.path\<close> only, and when it returns nothing is left.\<close>

lemma clean_next_keeps:
  assumes "clean_next pn c s = (r, t)"
  shows "xs_main t = xs_main s \<and> xs_handler t = xs_handler s \<and> xs_child t = xs_child s \<and>
    xs_registered t = xs_registered s \<and> xs_pending t = xs_pending s \<and> xs_done t = xs_done s \<and>
    xs_end t = xs_end s \<and> xs_wrote t = xs_wrote s \<and> xs_when t = xs_when s"
  using assms by (cases c) (auto split: if_splits)

lemma clean_next_wipes:
  assumes "clean_next pn c s = (r, t)" "pn_dir pn \<noteq> []" "xs_path s = pn_dir pn \<or> wiped pn (xs_fs s)"
    "c = CClear \<Longrightarrow> wiped pn (xs_fs s)"
  shows "(wiped pn (xs_fs s) \<longrightarrow> wiped pn (xs_fs t)) \<and> (r = None \<or> r = Some CClear \<longrightarrow> wiped pn (xs_fs t)) \<and>
    (xs_path t = pn_dir pn \<or> wiped pn (xs_fs t)) \<and> (c \<noteq> CClear \<longrightarrow> xs_path t = xs_path s)"
  using assms by (cases c) (auto intro: wiped_RemoveAll wiped_zeroed split: if_splits)
lemma inv_main_clean:
  assumes "exec_inv pn s" "xs_end s = Alive" "pn_dir pn \<noteq> []" "xs_main s = At_Clean c"
  shows "exec_inv pn (main_next pn (xs_main s) s)"
proof -
  obtain r t where n: "clean_next pn c s = (r, t)" by (metis surj_pair)
  show ?thesis
    using assms clean_next_keeps[OF n] clean_next_wipes[OF n assms(3)] n
    by (cases r) (auto simp: exec_inv_def)
qed

lemma inv_main_deferred:
  assumes "exec_inv pn s" "xs_end s = Alive" "pn_dir pn \<noteq> []" "xs_main s = At_Deferred ok c"
  shows "exec_inv pn (main_next pn (xs_main s) s)"
proof -
  obtain r t where n: "clean_next pn c s = (r, t)" by (metis surj_pair)
  have "\<not> ok \<Longrightarrow> r \<noteq> None \<Longrightarrow> c \<noteq> CClear" using n by (cases c) auto
  then show ?thesis
    using assms clean_next_keeps[OF n] clean_next_wipes[OF n assms(3)] n
    by (cases r) (auto simp: exec_inv_def asleep_def split: if_splits)
qed

lemma inv_main:
  assumes "exec_inv pn s" "xs_end s = Alive" "pn_dir pn \<noteq> []"
  shows "exec_inv pn (main_next pn (xs_main s) s)"
proof (cases "xs_main s")
  case (At_Clean c)
  then show ?thesis using inv_main_clean[OF assms] by blast
next
  case (At_Deferred ok c)
  then show ?thesis using inv_main_deferred[OF assms] by blast
qed (use assms in \<open>auto simp: exec_inv_def asleep_def Let_def split: prod.splits if_splits\<close>)

lemma inv_handler:
  assumes "exec_inv pn s" "xs_handler s = Handling c" "pn_dir pn \<noteq> []" "xs_end s = Alive"
  shows "exec_inv pn (handler_next pn c s)"
proof -
  obtain r t where n: "clean_next pn c s = (r, t)" by (metis surj_pair)
  let ?u = "handler_next pn c s"
  have t: "xs_fs ?u = xs_fs t" "xs_path ?u = xs_path t" "xs_main ?u = xs_main s" "xs_wrote ?u = xs_wrote s"
    "xs_end ?u = xs_end s" "xs_child ?u = xs_child s" "xs_registered ?u = xs_registered s"
    "xs_handler ?u = (case r of None \<Rightarrow> Handled | Some c' \<Rightarrow> Handling c')"
    using clean_next_keeps[OF n] n by (auto simp: handler_next_def split: option.splits)
  have w: "wiped pn (xs_fs s) \<Longrightarrow> wiped pn (xs_fs t)" "r = None \<or> r = Some CClear \<Longrightarrow> wiped pn (xs_fs t)"
    "xs_path t = pn_dir pn \<or> wiped pn (xs_fs t)"
    using clean_next_wipes[OF n assms(3)] assms(1,2) by (auto simp: exec_inv_def)
  have "main_inv pn (xs_main s) ?u"
    using assms(1,2) w(1) t by (cases "xs_main s") (auto simp: exec_inv_def asleep_def split: if_splits)
  then show ?thesis
    using assms(1,4) w t by (auto simp: exec_inv_def split: option.splits)
qed
lemma inv_child_acts:
  assumes "exec_inv pn s" "xs_child s" "pn_acts pn (xs_fs s) fs" "child_leaves pn"
  shows "exec_inv pn (s\<lparr>xs_fs := fs\<rparr>)"
proof -
  have w: "wiped pn (xs_fs s) \<Longrightarrow> wiped pn fs" by (rule child_leaves[OF assms(4,3)])
  have "main_inv pn (xs_main s) (s\<lparr>xs_fs := fs\<rparr>)"
    using assms(1,2) w by (cases "xs_main s") (auto simp: exec_inv_def asleep_def split: if_splits)
  then show ?thesis using assms(1,2) w by (auto simp: exec_inv_def)
qed

lemma inv_quiet:
  assumes "exec_inv pn s" "xs_fs t = xs_fs s" "xs_path t = xs_path s" "xs_main t = xs_main s" "xs_wrote t = xs_wrote s"
    "xs_end t = xs_end s" "xs_registered t = xs_registered s" "xs_child t \<longrightarrow> xs_child s"
    "asleep pn s \<longrightarrow> asleep pn t" "xs_handler t \<in> {Handling CClear, Handled} \<longrightarrow> xs_handler s = xs_handler t"
  shows "exec_inv pn t"
proof -
  have "main_inv pn (xs_main s) t"
    using assms(1-9) by (cases "xs_main s") (auto simp: exec_inv_def split: if_splits)
  then show ?thesis using assms by (auto simp: exec_inv_def)
qed

lemma inv_signal:
  assumes "exec_inv pn s" "xs_end s = Alive" "calm (xs_main s)"
  shows "if xs_registered s then exec_inv pn (s\<lparr>xs_pending := True, xs_when := ws\<rparr>)
    else exec_inv pn (s\<lparr>xs_end := Killed, xs_when := ws\<rparr>)"
  using assms by (cases "xs_main s") (auto simp: exec_inv_def asleep_def)

lemma inv_ends:
  assumes "exec_inv pn s" "xs_handler s = Handled"
  shows "exec_inv pn (s\<lparr>xs_end := Exited\<rparr>)"
proof -
  have "main_inv pn (xs_main s) (s\<lparr>xs_end := Exited\<rparr>)"
    using assms by (cases "xs_main s") (auto simp: exec_inv_def asleep_def split: if_splits)
  then show ?thesis using assms by (simp add: exec_inv_def)
qed

lemma inv_step:
  assumes "exec_step pn s t" "exec_inv pn s" "\<forall>pc\<in>set (xs_when t). calm pc" "pn_dir pn \<noteq> []" "child_leaves pn"
  shows "exec_inv pn t"
  using assms(1)
proof cases
  case main
  then show ?thesis using inv_main assms(2,4) by simp
next
  case (handle c)
  then show ?thesis using inv_handler assms(2,4) by simp
next
  case handled
  then show ?thesis using inv_ends assms(2) by simp
next
  case receive
  then show ?thesis using inv_quiet[OF assms(2), of t] by (simp add: asleep_def)
next
  case dismiss
  then show ?thesis using inv_quiet[OF assms(2), of t] by (simp add: asleep_def)
next
  case signal
  then show ?thesis using inv_signal[OF assms(2), of "xs_when s @ [xs_main s]"] assms(3) by simp
next
  case kill
  then show ?thesis using inv_signal[OF assms(2), of "xs_when s @ [xs_main s]"] assms(3) by simp
next
  case (child_acts fs)
  then show ?thesis using inv_child_acts assms(2,5) by simp
next
  case child_ends
  then show ?thesis using inv_quiet[OF assms(2), of t] by (simp add: asleep_def)
qed

lemma clean_next_when: "xs_when (snd (clean_next pn c s)) = xs_when s"
  by (cases c) simp_all

lemma main_next_when: "xs_when (main_next pn pc s) = xs_when s"
proof (cases pc)
  case (At_Clean c)
  then show ?thesis using clean_next_when[of pn c s] by (cases "clean_next pn c s"; cases "fst (clean_next pn c s)") auto
next
  case (At_Deferred ok c)
  then show ?thesis using clean_next_when[of pn c s] by (cases "clean_next pn c s"; cases "fst (clean_next pn c s)") auto
qed (simp_all add: Let_def split: prod.splits)

lemma handler_next_when: "xs_when (handler_next pn c s) = xs_when s"
  using clean_next_when[of pn c s]
  by (cases "clean_next pn c s"; cases "fst (clean_next pn c s)") (auto simp: handler_next_def)

lemma when_grows: "exec_step pn s t \<Longrightarrow> set (xs_when s) \<subseteq> set (xs_when t)"
  by (cases rule: exec_step.cases) (auto simp: main_next_when handler_next_when)

lemma exec_runs_inv:
  assumes "exec_runs pn fs s" "bare pn fs" "pn_dir pn \<noteq> []" "child_leaves pn" "\<forall>pc\<in>set (xs_when s). calm pc"
  shows "exec_inv pn s"
  using assms(1,5)
proof induction
  case start
  show ?case using assms(2) by (simp add: exec_start_def exec_inv_def asleep_def)
next
  case (step s t)
  then show ?case using inv_step[OF step.hyps(2)] when_grows[OF step.hyps(2)] assms(3,4) by blast
qed

subsection \<open>Properties\<close>

text \<open>A schedule: who takes the next turn. A turn that is not possible is \<open>None\<close>.\<close>

datatype turn = Main | Handler | Signal | Child_End

fun exec_turn :: "exec_plan \<Rightarrow> turn \<Rightarrow> exec_state \<Rightarrow> exec_state option" where
  "exec_turn pn Main s = (if xs_end s = Alive then Some (main_next pn (xs_main s) s) else None)"
| "exec_turn pn Handler s =
     (if xs_end s \<noteq> Alive then None
      else case xs_handler s of
        Handling c \<Rightarrow> Some (handler_next pn c s)
      | Handled \<Rightarrow> Some (s\<lparr>xs_end := Exited\<rparr>)
      | Waiting \<Rightarrow> if xs_pending s then Some (s\<lparr>xs_handler := Handling CRead, xs_pending := False\<rparr>) else None
      | _ \<Rightarrow> None)"
| "exec_turn pn Signal s =
     (if xs_end s \<noteq> Alive then None
      else if xs_registered s then Some (s\<lparr>xs_pending := True, xs_when := xs_when s @ [xs_main s]\<rparr>)
      else Some (s\<lparr>xs_end := Killed, xs_when := xs_when s @ [xs_main s]\<rparr>))"
| "exec_turn pn Child_End s = (if xs_child s then Some (s\<lparr>xs_child := False\<rparr>) else None)"

fun exec_schedule :: "exec_plan \<Rightarrow> turn list \<Rightarrow> exec_state \<Rightarrow> exec_state option" where
  "exec_schedule pn [] s = Some s"
| "exec_schedule pn (x # xs) s = Option.bind (exec_turn pn x s) (exec_schedule pn xs)"

lemma exec_turn_step: "exec_turn pn x s = Some t \<Longrightarrow> exec_step pn s t"
  by (cases x) (auto split: if_splits handler_pc.splits intro: exec_step.intros)

lemma exec_schedule_runs: "exec_runs pn fs s \<Longrightarrow> exec_schedule pn xs s = Some t \<Longrightarrow> exec_runs pn fs t"
proof (induction xs arbitrary: s)
  case (Cons x xs)
  then obtain u where u: "exec_turn pn x s = Some u" "exec_schedule pn xs u = Some t"
    by (cases "exec_turn pn x s") auto
  then show ?case using Cons.IH Cons.prems(1) exec_runs.step exec_turn_step by blast
qed simp

definition demo_plan :: "(estate \<Rightarrow> estate \<Rightarrow> bool) \<Rightarrow> string \<Rightarrow> exec_plan" where
  "demo_plan acts name =
     \<lparr>pn_dir = ''/run/u/run-1'', pn_name = name, pn_body = ''s3'', pn_calls = (True, True, True, True),
      pn_walk = (\<lambda>fs d. [''/run/u/run-1/credential'']), pn_starts = True, pn_acts = acts\<rparr>"

definition demo_files :: estate where
  "demo_files = (\<lambda>_. None)(''/run/u/run-1'' \<mapsto> EDir, ''.'' \<mapsto> EDir)"

definition while_child_runs :: "turn list" where
  "while_child_runs = replicate 8 Main @ [Signal] @ replicate 3 Handler @ [Child_End, Main, Main] @ replicate 3 Handler"

lemma while_child_runs_ends:
  "map_option (\<lambda>s. (xs_wrote s, xs_end s, xs_when s))
      (exec_schedule (demo_plan acts ''credential'') while_child_runs
        (exec_start (demo_plan acts ''credential'') demo_files)) =
    Some (Some ''/run/u/run-1/credential'', Exited, [At_Child])"
  by code_simp

text \<open>
  Two schedules in which a signal does harm. When the goroutine has wiped the directory and
  cleared \<open>d.path\<close> before \<open>WriteFile\<close> joins it with the file name, the credential is written into
  the working directory. When it wipes between the containment check and \<open>MkdirAll\<close>, a
  nested file name makes the directory again and the credential stays in it.
\<close>

definition wipe_then_join :: "turn list" where
  "wipe_then_join = [Main, Signal] @ replicate 5 Handler @ replicate 6 Main @ [Handler]"

definition wipe_then_mkdir :: "turn list" where
  "wipe_then_mkdir = [Main, Main, Main, Signal] @ replicate 4 Handler @ replicate 4 Main @ [Handler, Handler]"

theorem signal_race_leaves_credential:
  "map_option (\<lambda>s. (xs_end s, xs_fs s ''credential''))
     (exec_schedule (demo_plan acts ''credential'') wipe_then_join (exec_start (demo_plan acts ''credential'') demo_files)) =
     Some (Exited, Some (EFile ''s3'')) \<and>
   map_option (\<lambda>s. (xs_end s, xs_fs s ''/run/u/run-1/tea/config.yml''))
     (exec_schedule (demo_plan acts ''tea/config.yml'') wipe_then_mkdir
       (exec_start (demo_plan acts ''tea/config.yml'') demo_files)) =
     Some (Exited, Some (EFile ''s3''))"
  by (intro conjI; code_simp)

text \<open>
  Left alone, the steps of \<open>runExec\<close> are \<open>WriteFile\<close> as one call, with its result and the same files.
\<close>

lemma undisturbed_WriteFile:
  assumes "pn_calls pn = (parent, opens, writes, closes)" "xs_main s = At_Join"
    and "xs_fs s (Dir (Join [xs_path s, pn_name pn])) \<in> {None, Some EDir}" "xs_fs s (xs_path s) = Some EDir"
    and "WriteFile parent opens writes closes (xs_path s) (pn_name pn) (pn_body pn) (xs_fs s) = (fs, res)"
  shows "\<exists>n. xs_fs (((\<lambda>s. main_next pn (xs_main s) s) ^^ n) s) = fs \<and>
    xs_main (((\<lambda>s. main_next pn (xs_main s) s) ^^ n) s) = (if isl res then At_Stop False else At_Start)"
proof -
  define p where "p = Join [xs_path s, pn_name pn]"
  define F where "F = (if Dir p \<noteq> xs_path s \<and> xs_fs s (Dir p) = None then (xs_fs s)(Dir p \<mapsto> EDir) else xs_fs s)"
  let ?step = "\<lambda>s. main_next pn (xs_main s) s"
  note w = assms(5)[unfolded WriteFile_def Let_def, folded p_def, folded F_def]
  have three: "(?step ^^ 3) s = s\<lparr>xs_main := At_Open p, xs_fs := F\<rparr>"
    if "contains_path (xs_path s) p" "Dir p = xs_path s \<or> parent"
    using that assms(1,2) by (auto simp: numeral_3_eq_3 p_def[symmetric] F_def)
  consider (outside) "\<not> contains_path (xs_path s) p"
    | (mkdir) "contains_path (xs_path s) p" "Dir p \<noteq> xs_path s" "\<not> parent"
    | (create) "contains_path (xs_path s) p" "Dir p = xs_path s \<or> parent" "F p \<noteq> None \<or> \<not> opens"
    | (opened) "contains_path (xs_path s) p" "Dir p = xs_path s \<or> parent" "F p = None" "opens"
    by blast
  then show ?thesis
  proof cases
    case outside
    then show ?thesis using w assms(1,2) by (intro exI[of _ 2]) (auto simp: numeral_2_eq_2 p_def[symmetric])
  next
    case mkdir
    then show ?thesis using w assms(1,2) by (intro exI[of _ 3]) (auto simp: numeral_3_eq_3 p_def[symmetric])
  next
    case create
    have "(?step ^^ (1 + 3)) s = s\<lparr>xs_main := At_Stop False, xs_fs := F\<rparr>"
      unfolding funpow_add comp_apply three[OF create(1,2)] using create(3) assms(1) by auto
    then show ?thesis using w create by (intro exI[of _ "1 + 3"]) auto
  next
    case opened
    have "F (Dir p) = Some EDir" using assms(3,4) by (auto simp: F_def p_def)
    then have "(?step ^^ (1 + 3)) s = s\<lparr>xs_main := At_Write p, xs_fs := F(p \<mapsto> EFile []), xs_wrote := Some p\<rparr>"
      unfolding funpow_add comp_apply three[OF opened(1,2)] using opened(3,4) assms(1) by simp
    then have f: "(?step ^^ (k + (1 + 3))) s =
        (?step ^^ k) (s\<lparr>xs_main := At_Write p, xs_fs := F(p \<mapsto> EFile []), xs_wrote := Some p\<rparr>)" for k
      by (simp only: funpow_add comp_apply)
    show ?thesis
    proof (cases writes)
      case True
      then show ?thesis
        using w opened assms(1) f[of 2]
        by (intro exI[of _ "2 + (1 + 3)"]) (auto simp: numeral_2_eq_2 simp del: One_nat_def split: if_splits)
    next
      case False
      then show ?thesis using w opened assms(1) f[of 1] by (intro exI[of _ "1 + (1 + 3)"]) (auto split: if_splits)
    qed
  qed
qed

text \<open>
  A signal that finds the goroutine waiting ends the process, whatever \<open>runExec\<close> and the
  child do meanwhile: its own turns, at most six, are enough.
\<close>

lemma signal_is_obeyed:
  assumes "xs_end s = Alive" "xs_handler s = Waiting" "xs_pending s"
  shows "\<exists>n t. n \<le> 6 \<and> exec_schedule pn (replicate n Handler) s = Some t \<and> xs_end t = Exited \<and> xs_main t = xs_main s"
proof (cases "xs_path s = []")
  case True
  then show ?thesis using assms by (intro exI[of _ 3]) (auto simp: numeral_eq_Suc handler_next_def)
next
  case False
  then show ?thesis using assms by (intro exI[of _ 6]) (auto simp: numeral_eq_Suc handler_next_def)
qed

end
