(* ===== verification/Secret_Buffers.thy ===== *)
theory Secret_Buffers
  imports Delivery
begin

text \<open>
  The buffers of \<open>cmd/parzival\<close> and \<open>internal/mount\<close> that hold secret bytes: \<open>get\<close>, \<open>probe\<close>, \<open>exec\<close>
  and \<open>Open\<close> leave none of those they made behind un-zeroed, whatever the policy, the store, the
  template, the files and the child do. The locale \<open>buffered_loops\<close> is the part \<open>exec\<close> and the
  mount share.
\<close>

subsection \<open>Zeroing\<close>

lemma zero_secrets_Cons: "zero_secrets ((n, v) # m) w = zero_secrets m (zero_buf v w)"
  by (simp add: zero_secrets_def)

lemma mem_hold [simp]: "w_mem (hold b w) = b # w_mem w"
  by (simp add: hold_def)

lemma mem_emit [simp]: "w_mem (emit e w) = w_mem w"
  by (simp add: emit_def)

lemma mem_zero_buf: "mset (w_mem (zero_buf b w)) = mset (w_mem w) - {#b#}"
  by (simp add: zero_buf_def)

lemma mem_zero_secrets: "mset (w_mem (zero_secrets m w)) = mset (w_mem w) - mset (map snd m)"
proof (induction m arbitrary: w)
  case (Cons a m)
  obtain n v where a: "a = (n, v)" by (cases a)
  show ?case by (simp add: a zero_secrets_Cons Cons.IH mem_zero_buf)
qed (simp add: zero_secrets_def)

lemma mem_policy_authorize: "policy_authorize h r w = (w', e) \<Longrightarrow> w_mem w' = w_mem w"
  by (auto simp: policy_authorize_def split: prod.splits)

lemma mem_authorize: "authorize h ref identity mode w = (w', e) \<Longrightarrow> w_mem w' = w_mem w"
  unfolding authorize_def by (rule mem_policy_authorize)

lemma mem_retrieve:
  assumes "retrieve h ref w = (w', res)"
  shows "w_mem w' = (case res of Inl _ \<Rightarrow> w_mem w | Inr v \<Rightarrow> v # w_mem w)"
  using assms by (cases rule: retrieve_cases) (auto split: sum.splits)

subsection \<open>The two loops\<close>

locale buffered_loops =
  fixes check :: "string \<Rightarrow> world \<Rightarrow> world \<times> ('e + secret_ref)"
    and get :: "secret_ref \<Rightarrow> world \<Rightarrow> world \<times> ('e + string)"
  assumes check_mem: "check n w = (w', res) \<Longrightarrow> w_mem w' = w_mem w"
    and get_mem: "get r w = (w', got) \<Longrightarrow> w_mem w' = (case got of Inl _ \<Rightarrow> w_mem w | Inr v \<Rightarrow> v # w_mem w)"
begin

lemma each_check_mem: "each (\<lambda>_ w. w) check names w = (w', res) \<Longrightarrow> w_mem w' = w_mem w"
proof (induction names arbitrary: w w' res)
  case (Cons n ns)
  obtain w1 r1 where c: "check n w = (w1, r1)" by (metis surj_pair)
  obtain w2 r2 where e: "each (\<lambda>_ w. w) check ns w1 = (w2, r2)" by (metis surj_pair)
  show ?case
    using Cons.prems c e check_mem[OF c] Cons.IH[OF e] by (auto split: sum.splits)
qed simp

lemma each_get_mem:
  "each zero_buf (\<lambda>n. get (g n)) names w = (w', res) \<Longrightarrow>
   mset (w_mem w') = (case res of Inl _ \<Rightarrow> {#} | Inr m \<Rightarrow> mset (map snd m)) + mset (w_mem w)"
proof (induction names arbitrary: w w' res)
  case (Cons n ns)
  obtain w1 r1 where c: "get (g n) w = (w1, r1)" by (metis surj_pair)
  obtain w2 r2 where e: "each zero_buf (\<lambda>n. get (g n)) ns w1 = (w2, r2)" by (metis surj_pair)
  show ?case
    using Cons.prems c e get_mem[OF c] Cons.IH[OF e] by (auto simp: mem_zero_buf split: sum.splits)
qed simp

lemma loops_mem:
  assumes "both_loops check get names w = (w', res)"
  shows "mset (w_mem w') = (case res of Inl _ \<Rightarrow> {#} | Inr m \<Rightarrow> mset (map snd m)) + mset (w_mem w)"
proof -
  obtain w1 r1 where c: "each (\<lambda>_ w. w) check names w = (w1, r1)" by (metis surj_pair)
  show ?thesis
  proof (cases r1)
    case (Inl e)
    then show ?thesis using assms c each_check_mem[OF c] by (auto simp: both_loops_def)
  next
    case (Inr parsed)
    then have "each zero_buf (\<lambda>n. get (the (map_of parsed n))) names w1 = (w', res)"
      using assms c by (simp add: both_loops_def)
    from each_get_mem[OF this] show ?thesis using each_check_mem[OF c] by simp
  qed
qed

end

interpretation exb: buffered_loops "exec_check h profileName prof identity" "exec_get h"
  for h :: "'a host" and profileName prof identity
proof unfold_locales
  fix n w w' and res :: "cmd_error + secret_ref"
  assume "exec_check h profileName prof identity n w = (w', res)"
  then show "w_mem w' = w_mem w"
    by (auto simp: exec_check_def split: sum.splits prod.splits option.splits dest!: mem_authorize)
next
  fix r w w' and got :: "cmd_error + string"
  assume g: "exec_get h r w = (w', got)"
  obtain w1 x where t: "retrieve h r w = (w1, x)" by (metis surj_pair)
  show "w_mem w' = (case got of Inl _ \<Rightarrow> w_mem w | Inr v \<Rightarrow> v # w_mem w)"
    using g t mem_retrieve[OF t] by (auto simp: exec_get_def split: sum.splits)
qed

interpretation mnb: buffered_loops "mount_check h c prof now caller" "mount_get h"
  for h :: "'a host" and c prof now caller
proof unfold_locales
  fix n w w' and res :: "errno + secret_ref"
  assume "mount_check h c prof now caller n w = (w', res)"
  then show "w_mem w' = w_mem w"
    by (auto simp: mount_check_def split: sum.splits prod.splits option.splits dest!: mem_policy_authorize)
next
  fix r w w' and got :: "errno + string"
  assume g: "mount_get h r w = (w', got)"
  obtain w1 x where t: "retrieve h r w = (w1, x)" by (metis surj_pair)
  show "w_mem w' = (case got of Inl _ \<Rightarrow> w_mem w | Inr v \<Rightarrow> v # w_mem w)"
    using g t mem_retrieve[OF t] by (auto simp: mount_get_def split: sum.splits)
qed
subsection \<open>The commands\<close>

lemma get_mem: "w_mem (fst (runGet h parsed w)) = w_mem w"
proof -
  have f: "w_mem w' = (case x of Inl _ \<Rightarrow> w_mem w | Inr v \<Rightarrow> v # w_mem w)" if fe: "fetch h ref i ModeGet w = (w', x)"
    for ref i w' x
  proof -
    obtain w1 e where a: "authorize h ref i ModeGet w = (w1, e)" by (metis surj_pair)
    obtain w2 y where t: "retrieve h ref w1 = (w2, y)" by (metis surj_pair)
    show ?thesis
      using fe a t mem_authorize[OF a] mem_retrieve[OF t] by (auto simp: fetch_def split: option.splits sum.splits)
  qed
  have z: "w_mem (fst (case write_to h fd v w1 of (w2, res) \<Rightarrow> (zero_buf v w2, res))) = remove1 v (w_mem w1)" for fd v w1
    by (simp add: write_to_def zero_buf_def)
  show ?thesis using f by (auto simp: runGet_def z split: sum.splits option.splits prod.splits)
qed

lemma probe_verdict_mem: "w_mem (fst (probe_verdict h ref mode reason w)) = w_mem w"
proof (cases "Resolve (h_getenv h) (h_cfg h) ref")
  case (Inr b)
  obtain w1 x where g: "backend_Get h b ref w = (w1, x)" by (metis surj_pair)
  then have "w_mem w1 = (case x of Inl _ \<Rightarrow> w_mem w | Inr v \<Rightarrow> v # w_mem w)"
    by (cases rule: backend_Get_cases) (auto split: sum.splits)
  then show ?thesis
    using Inr g by (auto simp: probe_verdict_def printf_def zero_buf_def emit_def split: sum.splits)
qed (simp add: probe_verdict_def printf_def)

lemma println_mem: "w_mem (println s w) = w_mem w"
  by (simp add: println_def printf_def)

lemma prints_mem: "w_mem (fold (\<lambda>m. println (f m)) ms w) = w_mem w"
  by (induction ms arbitrary: w) (simp_all add: println_mem)

lemma logProbeDecision_mem: "logProbeDecision h r i m a t w = (w', e) \<Longrightarrow> w_mem w' = w_mem w"
  unfolding logProbeDecision_def by (rule mem_policy_authorize)

lemma probe_mem: "w_mem (fst (runProbe h parsed w)) = w_mem w"
proof -
  have l: "w_mem (fst (logProbeDecision h r i m a t w)) = w_mem w" for r i m a t w
    by (metis logProbeDecision_mem prod.collapse)
  show ?thesis
    by (auto simp: runProbe_def Let_def println_mem printf_def prints_mem l probe_verdict_mem
        dest!: logProbeDecision_mem split: sum.splits option.splits prod.splits)
qed

lemma deliver_mem: "w_mem (fst (deliver h ij cmd body w)) = w_mem w"
proof -
  have r: "w_mem (fst (run_child h ij cmd p dir w)) = w_mem w" for p dir w
    by (simp add: run_child_def Let_def wipe_def split: prod.splits)
  have n: "newDir h w = (w1, x) \<Longrightarrow> w_mem w1 = w_mem w" for w1 x
    by (auto simp: newDir_def Let_def split: option.splits if_splits)
  show ?thesis by (auto simp: deliver_def r wipe_def Let_def dest!: n split: prod.splits sum.splits)
qed

lemma exec_rendered_mem:
  assumes "exec_rendered h prof cmd secrets w = (w', res)" "\<forall>sig. res \<noteq> Some (Interrupted sig)"
  shows "mset (w_mem w') = mset (w_mem w) - mset (map snd secrets)"
  using assms(1)
proof (cases rule: exec_rendered_cases)
  case unrendered
  then show ?thesis by (simp add: mem_zero_secrets)
next
  case (delivered body w1)
  have "w_mem w1 = body # w_mem w" using deliver_mem[of h "pf_Inject prof" cmd body "hold body w"] delivered(2) by simp
  then show ?thesis using delivered(5) assms(2) by (simp add: mem_zero_secrets mem_zero_buf)
qed

lemma exec_mem:
  assumes "runExec h parse args w = (w', res)" "\<forall>sig. res \<noteq> Some (Interrupted sig)"
  shows "mset (w_mem w') = mset (w_mem w)"
  using assms(1)
proof (cases rule: exec_stages)
  case (loops pre cmd fl prof w1 r1)
  note m = exb.loops_mem[OF loops(4)]
  from loops(5) show ?thesis
  proof
    assume "\<exists>secrets. r1 = Inr secrets \<and> exec_rendered h prof cmd secrets w1 = (w', res)"
    then show ?thesis using m exec_rendered_mem[OF _ assms(2)] by fastforce
  qed (use m in \<open>auto split: sum.splits\<close>)
qed simp

lemma open_mem:
  assumes "Open h readlink fc c flags w = (w', res)"
  shows "mset (w_mem w') = (case res of Inl _ \<Rightarrow> {#} | Inr data \<Rightarrow> {#data#}) + mset (w_mem w)"
proof (cases "flags AND (O_WRONLY OR O_RDWR) \<noteq> 0 \<or> isl (h_profile h (cf_profileName c))")
  case True
  then show ?thesis using assms by (auto simp: Open_def materialize_def split: if_splits sum.splits)
next
  case False
  then obtain prof where p: "h_profile h (cf_profileName c) = Inr prof" "flags AND (O_WRONLY OR O_RDWR) = 0"
    by (cases "h_profile h (cf_profileName c)") auto
  obtain w1 r1 where b: "both_loops (mount_check h c prof (h_now h (w_loads w)) (callerString readlink fc)) (mount_get h)
      (sortedKeys (pf_Secrets prof)) w = (w1, r1)" by (metis surj_pair)
  show ?thesis
    using assms p b mnb.loops_mem[OF b] by (auto simp: Open_def materialize_def mem_zero_secrets split: sum.splits)
qed



end
