(* ===== verification/Mount_Server.thy ===== *)
theory Mount_Server
  imports Secret_Buffers
begin

text \<open>
  A mounted file system over its life (\<open>Serve\<close> of \<open>internal/mount/mount_linux.go\<close>): requests of
  the kernel on the nodes of Delivery, the goroutine that waits for one signal, and the end. A
  request is one turn: the nodes share nothing but the audit log, whose lines are appended
  whole. What \<open>go-fuse\<close> and the kernel do is in the turns: a handle is open until it is
  released, an unmount fails while one is open, and \<open>Wait\<close> returns once the file system is gone.
\<close>

subsection \<open>State and turns\<close>

datatype unmounter = Not_Started | Listening | Unmounting | Finished

datatype serve_end = Serving | Returned_nil | Killed_by_signal

text \<open>What a turn leaves on record: an open with the world it found, a read, a release.\<close>

datatype mount_event =
    Opened nat cred_file "fuse_caller option" "32 word" world string
  | Served nat nat "64 word" string
  | Released nat

record mount_state =
  ms_root :: root_node
  ms_world :: world
  ms_handles :: "(nat \<times> string) list"
  ms_next :: nat
  ms_mounted :: bool
  ms_unmounter :: unmounter
  ms_pending :: bool
  ms_end :: serve_end
  ms_log :: "mount_event list"

text \<open>
  The mount is up when \<open>fs.Mount\<close> returns; \<open>signal.Notify\<close> and the goroutine come after it.
\<close>

definition mount_start :: "getenv \<Rightarrow> string \<Rightarrow> world \<Rightarrow> mount_state" where
  "mount_start getenv identity w =
     \<lparr>ms_root = mount_root getenv identity, ms_world = w, ms_handles = [], ms_next = 0, ms_mounted = True,
      ms_unmounter = Not_Started, ms_pending = False, ms_end = Serving, ms_log = []\<rparr>"

datatype mount_turn =
    Notify | Open_File string "fuse_caller option" "32 word" | Read_File nat nat "64 word" | Release_File nat
  | Signalled_Turn | Receive | Unmount bool | Umount_Command | Wait_Returns

text \<open>
  A turn that is not possible is \<open>None\<close>. \<open>Unmount busy\<close> is \<open>server.Unmount\<close>, which fails when a
  handle is open or the mount is in use otherwise; its error is dropped and the goroutine ends
  either way. \<open>Umount_Command\<close> is somebody else's \<open>fusermount -u\<close>.
\<close>

fun serve_turn :: "'a host \<Rightarrow> (string \<Rightarrow> string) \<Rightarrow> mount_turn \<Rightarrow> mount_state \<Rightarrow> mount_state option" where
  "serve_turn h rl Notify s = (if ms_unmounter s = Not_Started then Some (s\<lparr>ms_unmounter := Listening\<rparr>) else None)"
| "serve_turn h rl (Open_File name fc flags) s =
     (if \<not> ms_mounted s then None
      else case Lookup h (ms_root s) name of
        Inl e \<Rightarrow> Some s
      | Inr c \<Rightarrow>
          (case Open h rl fc c flags (ms_world s) of
             (w, Inl e) \<Rightarrow> Some (s\<lparr>ms_world := w\<rparr>)
           | (w, Inr data) \<Rightarrow>
               Some (s\<lparr>ms_world := w, ms_handles := (ms_next s, data) # ms_handles s, ms_next := Suc (ms_next s),
                       ms_log := ms_log s @ [Opened (ms_next s) c fc flags (ms_world s) data]\<rparr>)))"
| "serve_turn h rl (Read_File i n off) s =
     (case map_of (ms_handles s) i of
        None \<Rightarrow> None
      | Some data \<Rightarrow>
          (case Read data n off of
             None \<Rightarrow> None
           | Some bytes \<Rightarrow> Some (s\<lparr>ms_log := ms_log s @ [Served i n off bytes]\<rparr>)))"
| "serve_turn h rl (Release_File i) s =
     (case map_of (ms_handles s) i of
        None \<Rightarrow> None
      | Some data \<Rightarrow>
          Some (s\<lparr>ms_world := zero_buf data (ms_world s), ms_handles := filter (\<lambda>(j, _). j \<noteq> i) (ms_handles s),
                  ms_log := ms_log s @ [Released i]\<rparr>))"
| "serve_turn h rl Signalled_Turn s =
     (if ms_unmounter s = Not_Started then Some (s\<lparr>ms_end := Killed_by_signal\<rparr>) else Some (s\<lparr>ms_pending := True\<rparr>))"
| "serve_turn h rl Receive s =
     (if ms_unmounter s = Listening \<and> ms_pending s then Some (s\<lparr>ms_unmounter := Unmounting, ms_pending := False\<rparr>) else None)"
| "serve_turn h rl (Unmount busy) s =
     (if ms_unmounter s \<noteq> Unmounting then None
      else Some (s\<lparr>ms_unmounter := Finished, ms_mounted := (ms_mounted s \<and> (busy \<or> ms_handles s \<noteq> []))\<rparr>))"
| "serve_turn h rl Umount_Command s =
     (if ms_mounted s \<and> ms_handles s = [] then Some (s\<lparr>ms_mounted := False\<rparr>) else None)"
| "serve_turn h rl Wait_Returns s =
     (if ms_unmounter s \<noteq> Not_Started \<and> \<not> ms_mounted s then Some (s\<lparr>ms_end := Returned_nil\<rparr>) else None)"

fun serve_run :: "'a host \<Rightarrow> (string \<Rightarrow> string) \<Rightarrow> mount_turn list \<Rightarrow> mount_state \<Rightarrow> mount_state option" where
  "serve_run h rl [] s = Some s"
| "serve_run h rl (x # xs) s =
     (if ms_end s \<noteq> Serving then None else Option.bind (serve_turn h rl x s) (serve_run h rl xs))"

subsection \<open>The invariant\<close>

text \<open>An open on record was one of \<open>Open\<close>, on a node of this mount.\<close>

definition open_ok :: "'a host \<Rightarrow> (string \<Rightarrow> string) \<Rightarrow> root_node \<Rightarrow> mount_event \<Rightarrow> bool" where
  "open_ok h rl root e =
     (case e of
        Opened i c fc flags w data \<Rightarrow>
          snd (Open h rl fc c flags w) = Inr data \<and> cf_identity c = rn_identity root \<and> cf_agent c = rn_agent root
      | _ \<Rightarrow> True)"

text \<open>A handle on record that no release follows is open with the bytes its open made.\<close>

definition handles_ok :: "mount_state \<Rightarrow> bool" where
  "handles_ok s \<longleftrightarrow>
     distinct (map fst (ms_handles s)) \<and> (\<forall>i\<in>fst ` set (ms_handles s). i < ms_next s) \<and>
     (\<forall>i data. (i, data) \<in> set (ms_handles s) \<longrightarrow>
        Released i \<notin> set (ms_log s) \<and> (\<exists>c fc flags w. Opened i c fc flags w data \<in> set (ms_log s))) \<and>
     (\<forall>i. Released i \<in> set (ms_log s) \<longrightarrow> i < ms_next s)"

definition served_ok :: "mount_event list \<Rightarrow> bool" where
  "served_ok log \<longleftrightarrow>
     (\<forall>before i n off bytes after. log = before @ Served i n off bytes # after \<longrightarrow>
        Released i \<notin> set before \<and>
        (\<exists>c fc flags w data. Opened i c fc flags w data \<in> set before \<and> Read data n off = Some bytes))"

definition serve_ok :: "'a host \<Rightarrow> (string \<Rightarrow> string) \<Rightarrow> root_node \<Rightarrow> world \<Rightarrow> mount_state \<Rightarrow> bool" where
  "serve_ok h rl root w s \<longleftrightarrow>
     ms_root s = root \<and> handles_ok s \<and> served_ok (ms_log s) \<and> list_all (open_ok h rl root) (ms_log s) \<and>
     mset (w_mem (ms_world s)) = mset (map snd (ms_handles s)) + mset (w_mem w) \<and>
     (\<not> ms_mounted s \<longrightarrow> ms_handles s = []) \<and> (ms_end s = Returned_nil \<longrightarrow> \<not> ms_mounted s)"

lemma served_ok_snoc:
  assumes "served_ok log"
    and "\<And>i n off bytes. e = Served i n off bytes \<Longrightarrow> Released i \<notin> set log \<and>
      (\<exists>c fc flags w data. Opened i c fc flags w data \<in> set log \<and> Read data n off = Some bytes)"
  shows "served_ok (log @ [e])"
  unfolding served_ok_def
proof (intro allI impI)
  fix before i n off bytes after
  assume l: "log @ [e] = before @ Served i n off bytes # after"
  show "Released i \<notin> set before \<and> (\<exists>c fc flags w data. Opened i c fc flags w data \<in> set before \<and> Read data n off = Some bytes)"
  proof (cases after rule: rev_cases)
    case Nil
    then show ?thesis using l assms(2) by simp
  next
    case (snoc as a)
    then have "log = before @ Served i n off bytes # as" using l by simp
    then show ?thesis using assms(1) unfolding served_ok_def by blast
  qed
qed

lemma mset_release:
  "distinct (map fst m) \<Longrightarrow> map_of m i = Some d \<Longrightarrow>
   mset (map snd (filter (\<lambda>(j, _). j \<noteq> i) m)) = mset (map snd m) - {#d#}"
proof (induction m)
  case (Cons a m)
  obtain j e where a: "a = (j, e)" by (cases a)
  show ?case
  proof (cases "j = i")
    case True
    then have "filter (\<lambda>(j, _). j \<noteq> i) m = m" using Cons.prems a by (force simp: filter_id_conv)
    then show ?thesis using True Cons.prems a by simp
  next
    case False
    then have "map_of m i = Some d" using Cons.prems a by simp
    moreover from this have "d \<in># mset (map snd m)" by (force dest: map_of_SomeD)
    ultimately show ?thesis using Cons False a by simp
  qed
qed simp
lemma serve_ok_open:
  assumes "serve_ok h rl root w s" "Lookup h (ms_root s) name = Inr c" "Open h rl fc c flags (ms_world s) = (w1, Inr data)"
    "ms_mounted s"
  shows "serve_ok h rl root w (s\<lparr>ms_world := w1, ms_handles := (ms_next s, data) # ms_handles s,
    ms_next := Suc (ms_next s), ms_log := ms_log s @ [Opened (ms_next s) c fc flags (ms_world s) data]\<rparr>)"
proof -
  have c: "cf_identity c = rn_identity root" "cf_agent c = rn_agent root"
    using assms(1,2) by (auto simp: serve_ok_def Lookup_def split: sum.splits)
  have m: "mset (w_mem w1) = {#data#} + mset (w_mem (ms_world s))" using open_mem[OF assms(3)] by simp
  have sv: "served_ok (ms_log s @ [Opened (ms_next s) c fc flags (ms_world s) data])"
    by (rule served_ok_snoc) (use assms(1) in \<open>auto simp: serve_ok_def\<close>)
  have n: "Released (ms_next s) \<notin> set (ms_log s)" "ms_next s \<notin> fst ` set (ms_handles s)"
    using assms(1) unfolding serve_ok_def handles_ok_def by blast+
  then show ?thesis
    using assms c m sv unfolding serve_ok_def handles_ok_def by (auto simp: open_ok_def less_Suc_eq)
qed

lemma serve_ok_read:
  assumes "serve_ok h rl root w s" "map_of (ms_handles s) i = Some data" "Read data n off = Some bytes"
  shows "serve_ok h rl root w (s\<lparr>ms_log := ms_log s @ [Served i n off bytes]\<rparr>)"
proof -
  have k: "(i, data) \<in> set (ms_handles s)" using assms(2) by (rule map_of_SomeD)
  have o: "Released i \<notin> set (ms_log s)" "\<exists>c fc flags w. Opened i c fc flags w data \<in> set (ms_log s)"
    using assms(1) k unfolding serve_ok_def handles_ok_def by blast+
  have "served_ok (ms_log s @ [Served i n off bytes])"
  proof (rule served_ok_snoc)
    show "served_ok (ms_log s)" using assms(1) by (simp add: serve_ok_def)
  qed (use assms(3) o in \<open>simp; blast\<close>)
  then show ?thesis using assms(1) by (auto simp: serve_ok_def handles_ok_def open_ok_def)
qed

lemma serve_ok_release:
  assumes "serve_ok h rl root w s" "map_of (ms_handles s) i = Some data"
  shows "serve_ok h rl root w (s\<lparr>ms_world := zero_buf data (ms_world s),
    ms_handles := filter (\<lambda>(j, _). j \<noteq> i) (ms_handles s), ms_log := ms_log s @ [Released i]\<rparr>)"
proof -
  have k: "(i, data) \<in> set (ms_handles s)" using assms(2) by (rule map_of_SomeD)
  have d: "distinct (map fst (ms_handles s))" using assms(1) by (simp add: serve_ok_def handles_ok_def)
  have m: "mset (map snd (filter (\<lambda>(j, _). j \<noteq> i) (ms_handles s))) = mset (map snd (ms_handles s)) - {#data#}"
    by (rule mset_release[OF d assms(2)])
  have "data \<in># mset (map snd (ms_handles s))" using k by force
  then have w: "mset (w_mem (zero_buf data (ms_world s))) =
      mset (map snd (filter (\<lambda>(j, _). j \<noteq> i) (ms_handles s))) + mset (w_mem w)"
    using assms(1) m by (simp add: mem_zero_buf serve_ok_def)
  have sv: "served_ok (ms_log s @ [Released i])"
    by (rule served_ok_snoc) (use assms(1) in \<open>auto simp: serve_ok_def\<close>)
  have "distinct (map fst (filter (\<lambda>(j, _). j \<noteq> i) (ms_handles s)))" using d by (rule distinct_map_filter)
  then have "handles_ok (s\<lparr>ms_world := zero_buf data (ms_world s),
      ms_handles := filter (\<lambda>(j, _). j \<noteq> i) (ms_handles s), ms_log := ms_log s @ [Released i]\<rparr>)"
    using assms(1) k unfolding serve_ok_def handles_ok_def by fastforce
  then show ?thesis using assms(1) w sv by (auto simp: serve_ok_def open_ok_def)
qed

lemma serve_ok_same:
  assumes "serve_ok h rl root w s" "ms_root t = ms_root s" "ms_world t = ms_world s" "ms_handles t = ms_handles s"
    "ms_next t = ms_next s" "ms_log t = ms_log s" "ms_mounted s \<and> \<not> ms_mounted t \<longrightarrow> ms_handles s = []"
    "ms_end t = Returned_nil \<longrightarrow> \<not> ms_mounted t"
  shows "serve_ok h rl root w t"
  using assms by (auto simp: serve_ok_def handles_ok_def)

lemma serve_ok_turn:
  assumes "serve_ok h rl root w s" "serve_turn h rl x s = Some t" "ms_end s = Serving"
  shows "serve_ok h rl root w t"
proof (cases x)
  case (Open_File name fc flags)
  define w1 r where "w1 = (\<lambda>c. fst (Open h rl fc c flags (ms_world s)))" and "r = (\<lambda>c. snd (Open h rl fc c flags (ms_world s)))"
  then have o: "Open h rl fc c flags (ms_world s) = (w1 c, r c)" for c by simp
  show ?thesis
  proof (cases "Lookup h (ms_root s) name")
    case (Inr c)
    show ?thesis
    proof (cases "r c")
      case (Inl e)
      then have "t = s\<lparr>ms_world := w1 c\<rparr>" using assms(2) Open_File Inr o[of c] by (simp split: if_splits)
      then show ?thesis using assms(1) open_mem[OF o[of c]] Inl by (simp add: serve_ok_def handles_ok_def)
    next
      case (Inr data)
      then show ?thesis
        using serve_ok_open[OF assms(1) \<open>Lookup _ _ _ = Inr c\<close>, of fc flags "w1 c" data] o[of c] assms(2) Open_File
          \<open>Lookup _ _ _ = Inr c\<close>
        by (simp split: if_splits)
    qed
  qed (use assms Open_File in \<open>auto split: if_splits\<close>)
next
  case (Read_File i n off)
  then show ?thesis using assms(2) serve_ok_read[OF assms(1)] by (auto split: option.splits)
next
  case (Release_File i)
  then show ?thesis using assms(2) serve_ok_release[OF assms(1)] by (auto split: option.splits)
next
  case (Unmount busy)
  then show ?thesis using assms(2,3) by (intro serve_ok_same[OF assms(1)]) (auto split: if_splits)
qed (use assms(2,3) in \<open>(intro serve_ok_same[OF assms(1)]; auto split: if_splits)+\<close>)

lemma serve_ok_run:
  "serve_ok h rl root w s \<Longrightarrow> serve_run h rl xs s = Some t \<Longrightarrow> serve_ok h rl root w t"
proof (induction xs arbitrary: s)
  case (Cons x xs)
  then obtain u where "ms_end s = Serving" "serve_turn h rl x s = Some u" "serve_run h rl xs u = Some t"
    by (cases "serve_turn h rl x s") (auto split: if_splits)
  then show ?case using Cons.IH serve_ok_turn[OF Cons.prems(1)] by blast
qed simp

lemma serve_ok_start: "serve_ok h rl (mount_root getenv identity) w (mount_start getenv identity w)"
  by (simp add: serve_ok_def handles_ok_def served_ok_def mount_start_def)

subsection \<open>Properties\<close>


definition serve_once :: "mount_turn list" where
  "serve_once = [Notify, Open_File ''tea'' None 0, Read_File 0 1 1, Signalled_Turn, Receive, Release_File 0, Unmount False,
     Wait_Returns]"


text \<open>
  After an unmount that failed, the goroutine is gone while the signals stay registered: no
  signal ends \<open>Serve\<close> any more, only somebody else's unmount does.
\<close>

lemma unmounter_finished:
  assumes "serve_run h rl turns s = Some t" "ms_unmounter s = Finished" "ms_mounted s" "ms_end s = Serving"
    "Umount_Command \<notin> set turns"
  shows "ms_end t = Serving \<and> ms_mounted t"
  using assms
proof (induction turns arbitrary: s)
  case (Cons x xs)
  then obtain u where u: "serve_turn h rl x s = Some u" "serve_run h rl xs u = Some t"
    by (cases "serve_turn h rl x s") (auto split: if_splits)
  then have "ms_unmounter u = Finished \<and> ms_mounted u \<and> ms_end u = Serving"
    using Cons.prems by (cases x) (auto split: if_splits sum.splits prod.splits option.splits)
  then show ?case using Cons.IH[OF u(2)] Cons.prems(5) by simp
qed simp

definition busy_mount :: "mount_turn list" where
  "busy_mount =
     [Notify, Open_File ''tea'' None 0, Signalled_Turn, Receive, Unmount False, Release_File 0, Signalled_Turn]"

theorem signal_is_lost_after_failed_unmount:
  "\<exists>s. serve_run (demo_host no_env ''s3'') (\<lambda>_. []) busy_mount (mount_start no_env ''ci'' start_world) = Some s \<and>
     ms_pending s \<and> ms_handles s = [] \<and>
     (\<forall>turns t. serve_run (demo_host no_env ''s3'') (\<lambda>_. []) turns s = Some t \<and> Umount_Command \<notin> set turns \<longrightarrow>
        ms_end t = Serving)"
proof -
  have "map_option (\<lambda>s. (ms_end s, ms_unmounter s, ms_mounted s, ms_pending s, ms_handles s))
      (serve_run (demo_host no_env ''s3'') (\<lambda>_. []) busy_mount (mount_start no_env ''ci'' start_world)) =
    Some (Serving, Finished, True, True, [])"
    by code_simp
  then obtain s where s: "serve_run (demo_host no_env ''s3'') (\<lambda>_. []) busy_mount (mount_start no_env ''ci'' start_world) = Some s"
    and e: "ms_end s = Serving" "ms_unmounter s = Finished" "ms_mounted s" "ms_pending s" "ms_handles s = []"
    by auto
  have "ms_end t = Serving"
    if "serve_run (demo_host no_env ''s3'') (\<lambda>_. []) turns s = Some t \<and> Umount_Command \<notin> set turns" for turns t
    using unmounter_finished[OF conjunct1[OF that] e(2,3,1) conjunct2[OF that]] by (rule conjunct1)
  then show ?thesis using s e(4,5) by (intro exI[of _ s] conjI allI impI) simp_all
qed

end
