(* ===== verification/Commands.thy ===== *)
theory Commands
  imports Transaction Paths
begin

text \<open>
  The \<open>policy\<close> subcommands (\<open>cmd/parzival/policy.go\<close>, and \<open>runPolicyGrant\<close>, \<open>runPolicyApply\<close> and
  \<open>gatherInteractively\<close> of \<open>cmd/parzival/grant.go\<close>). A report command gives the text it prints on
  standard output and its error; \<open>grant\<close> and \<open>apply\<close> give the states of the file system, as the
  transaction they end in does. The parsed flags, or the error of parsing them, are arguments.
\<close>

datatype policy_cmd_error =
    PcFlags string
  | PcUsage string
  | PcLoad load_error
  | PcNoSuchFile string
  | PcDoesNotLoad
  | PcBypassable nat
  | PcErrors nat string
  | PcExit int
  | PcMonthday string
  | PcGather string
  | PcBuild grant_error
  | PcPlace place_error
  | PcInsert insert_error
  | PcTransaction tx_error

definition policy_exit :: "policy_cmd_error option \<Rightarrow> int" where
  "policy_exit e = (case e of None \<Rightarrow> 0 | Some (PcExit c) \<Rightarrow> c | Some _ \<Rightarrow> 1)"

subsection \<open>Rendering\<close>

definition patterns :: "string list \<Rightarrow> string" where
  "patterns ps = (if length ps = 0 then ''<any>'' else ''['' @ join_with '' '' ps @ '']'')"

definition exampleLabel :: "string list \<Rightarrow> string" where
  "exampleLabel ids = (if length ids = 0 then ''<anything>'' else ids ! 0)"

definition line_of :: "string \<Rightarrow> string \<Rightarrow> string list \<Rightarrow> string" where
  "line_of pad label vals =
     (if length vals = 0 then [] else pad @ label @ '': '' @ patterns vals @ newline)"

definition bool_word :: "bool \<Rightarrow> string" where
  "bool_word b = (if b then ''true'' else ''false'')"

definition unrestricted :: "rule \<Rightarrow> string list" where
  "unrestricted r =
     (if length (r_Secrets r) = 0 then [''any ref''] else []) @
     (if length (r_Identities r) = 0 then [''any identity''] else []) @
     (if length (r_Modes r) = 0 then
        (if r_Allow r then [''any mode, including get''] else [''any mode''])
      else [])"

definition indentRule :: "rule \<Rightarrow> string \<Rightarrow> string" where
  "indentRule r pad =
     pad @ ''allow: '' @ bool_word (r_Allow r) @ newline @
     (if r_Description r \<noteq> [] then pad @ ''description: '' @ r_Description r @ newline else []) @
     line_of pad ''secrets'' (r_Secrets r) @
     line_of pad ''identities'' (r_Identities r) @
     line_of pad ''modes'' (r_Modes r) @
     line_of pad ''weekdays'' (r_Weekdays r) @
     (if length (r_Monthdays r) > 0 then
        pad @ ''monthdays: ['' @ join_with '' '' (map itoa (r_Monthdays r)) @ '']'' @ newline
      else []) @
     (if r_Hours r \<noteq> [] then pad @ ''hours: '' @ r_Hours r @ newline else []) @
     (if r_DenyAgents r then pad @ ''deny_agents: true (refused to a detected AI agent context)'' @ newline else []) @
     (if length (unrestricted r) > 0 then
        pad @ ''(unrestricted: '' @ join_with '', '' (unrestricted r) @ '')'' @ newline
      else [])"

definition displayIdentity :: "string \<Rightarrow> string" where
  "displayIdentity i =
     (if i = [] then ''(no --as)'' else if i = uncoveredLabel then i @ '' *'' else i)"

definition ruleWord :: "nat list \<Rightarrow> string" where
  "ruleWord idx =
     (if length idx = 0 then ''no rule''
      else if length idx = 1 then ''rule '' @ itoa (int (idx ! 0))
      else ''rules '' @ join_with '', '' (map (\<lambda>n. itoa (int n)) idx))"

definition isAre :: "nat \<Rightarrow> string" where
  "isAre n = (if n = 1 then ''is'' else ''are'')"

subsection \<open>\<open>policy check\<close> and \<open>policy validate\<close>\<close>

definition loadPolicyFile ::
  "decoder \<Rightarrow> bool \<Rightarrow> env \<Rightarrow> fsys \<Rightarrow> string \<Rightarrow> string \<times> (load_error + policy option)" where
  "loadPolicyFile decode readable e fs f =
     (let path = (if f = [] then policy_Path e else f) in (path, LoadFile decode readable fs path))"

definition get_line :: "get_open \<Rightarrow> string" where
  "get_line g =
     ''  rule '' @ itoa (int (g_Rule g)) @ ''  secrets='' @ patterns (g_Secrets g) @ ''  identities='' @
     patterns (g_Identities g) @ (if g_Conditional g then '' [time-limited]'' else []) @ newline"

definition weakened_lines :: "weakened \<Rightarrow> string" where
  "weakened_lines w =
     ''  rule '' @ itoa (int (w_RestrictedRule w)) @ '' restricts identities='' @ patterns (w_RestrictedIDs w) @
     '' to brokered delivery on '' @ patterns (w_Secrets w) @ '','' @ newline @
     ''    but rule '' @ itoa (int (w_OpenRule w)) @ '' permits `get` on an overlapping ref for identities='' @
     patterns (w_OpenIDs w) @ ''.'' @ newline @
     ''    A caller passes --as '' @ exampleLabel (w_OpenIDs w) @ '' and reads the raw value.'' @ newline"

definition rules_header :: "string \<Rightarrow> policy \<Rightarrow> string" where
  "rules_header path p = ''policy: '' @ path @ '' ('' @ itoa (int (length (p_Rules p))) @ '' rules)'' @ newline"

definition no_policy_text :: "string \<Rightarrow> string" where
  "no_policy_text path =
     ''no policy at '' @ path @ '' '' @ emdash @ '' every fetch is denied (strict deny-by-default)'' @ newline"

record file_flags =
  ff_file :: string
  ff_args :: "string list"

definition runPolicyCheck ::
  "decoder \<Rightarrow> bool \<Rightarrow> env \<Rightarrow> fsys \<Rightarrow> string + file_flags \<Rightarrow> string \<times> policy_cmd_error option" where
  "runPolicyCheck decode readable e fs parsed =
     (case parsed of
        Inl err \<Rightarrow> ([], Some (PcFlags err))
      | Inr fl \<Rightarrow>
          if length (ff_args fl) \<noteq> 0 then ([], Some (PcUsage ''policy check takes no positional arguments''))
          else case loadPolicyFile decode readable e fs (ff_file fl) of
            (path, Inl err) \<Rightarrow> ([], Some (PcLoad err))
          | (path, Inr None) \<Rightarrow> (no_policy_text path, None)
          | (path, Inr (Some p)) \<Rightarrow>
              (let rep = Check p;
                   gets = rules_header path p @ newline @
                     ''Rules permitting `get` '' @ emdash @ '' the raw value goes to a stream the caller controls:'' @
                     newline @
                     (if length (rep_GetOpen rep) = 0
                      then ''  (none '' @ emdash @ '' no ref in this policy can be read as a raw value)'' @ newline
                      else []) @
                     concat (map get_line (rep_GetOpen rep))
               in if report_OK rep then
                    (gets @ newline @ ''No mode restriction is bypassable. OK.'' @ newline @ newline @
                     ''This command checks mode bypasses only. For unreachable rules, shadowing'' @ newline @
                     ''and redundancy, run `parzival policy validate`.'' @ newline,
                     None)
                  else
                    (gets @ newline @ ''BYPASSABLE mode restrictions '' @ emdash @
                     '' identity labels are self-asserted, so these'' @ newline @
                     ''restrictions do not hold. Restrict the ref, not the identity:'' @ newline @
                     concat (map weakened_lines (rep_Weakened rep)) @ newline @
                     ''Fix: add \"modes\" (without \"get\") to EVERY allow-rule matching those refs.'' @ newline,
                     Some (PcBypassable (length (rep_Weakened rep))))))"

definition finding_line :: "finding \<Rightarrow> string" where
  "finding_line f = ''  ['' @ f_Kind f @ ''] '' @ f_Message f @ newline"

text \<open>The file a \<open>validate\<close> is about: the flag or the one positional argument, not both.\<close>

definition validate_file :: "file_flags \<Rightarrow> string + string" where
  "validate_file fl =
     (if length (ff_args fl) = 1 \<and> ff_file fl = [] then Inr (ff_args fl ! 0)
      else if length (ff_args fl) > 1 then Inl ''policy validate takes at most one file''
      else if length (ff_args fl) = 1 then
        Inl ''give the file either as --file or as a positional argument, not both''
      else Inr (ff_file fl))"

text \<open>\<open>err_text\<close> is the \<open>%v\<close> of the error of loading.\<close>

definition runPolicyValidate ::
  "decoder \<Rightarrow> bool \<Rightarrow> (load_error \<Rightarrow> string) \<Rightarrow> env \<Rightarrow> fsys \<Rightarrow> string + file_flags \<Rightarrow>
   string \<times> policy_cmd_error option" where
  "runPolicyValidate decode readable err_text e fs parsed =
     (case parsed of
        Inl err \<Rightarrow> ([], Some (PcFlags err))
      | Inr fl \<Rightarrow>
          (case validate_file fl of
             Inl msg \<Rightarrow> ([], Some (PcUsage msg))
           | Inr f \<Rightarrow>
               (case loadPolicyFile decode readable e fs f of
                  (path, Inl err) \<Rightarrow>
                    (''policy: '' @ path @ newline @ newline @ ''INVALID'' @ newline @ newline @ ''  '' @
                     err_text err @ newline, Some PcDoesNotLoad)
                | (path, Inr None) \<Rightarrow>
                    if f \<noteq> [] then ([], Some (PcNoSuchFile path)) else (no_policy_text path, None)
                | (path, Inr (Some p)) \<Rightarrow>
                    (let a = Analyze p; errs = Errors a; warns = Warnings a;
                         found = rules_header path p @ newline @
                           ''Parses, and every field and value is one this parzival understands.'' @ newline @
                           (if length errs > 0 then
                              newline @ ''ERRORS '' @ emdash @
                              '' the policy's text and its effect disagree. Fix these before'' @ newline @
                              ''relying on any rule involved:'' @ newline @ concat (map finding_line errs)
                            else []) @
                           (if length warns > 0 then
                              newline @ ''Warnings '' @ emdash @
                              '' the policy means what it says, but these are worth seeing:'' @ newline @
                              concat (map finding_line warns)
                            else [])
                     in if length errs = 0 \<and> length warns = 0 then
                          (found @ ''No ordering problems, no rules permitting raw `get`. OK.'' @ newline, None)
                        else if length errs = 0 then
                          (found @ newline @ itoa (int (length warns)) @ '' warning(s), no errors. OK.'' @ newline, None)
                        else (found, Some (PcErrors (length errs) path))))))"

subsection \<open>\<open>policy what-if\<close>\<close>

definition whatIfAgentMarker :: string where "whatIfAgentMarker = ''(what-if --agent)''"

definition near_lines :: "policy \<Rightarrow> request \<Rightarrow> mismatch \<Rightarrow> string" where
  "near_lines p req m =
     ''  rule '' @ itoa (int (mm_Rule m)) @ '' '' @ emdash @ '' '' @ r_Description (p_Rules p ! mm_Rule m) @ newline @
     concat (map (\<lambda>why. ''      '' @ why @ newline) (explain_mismatch m (p_Rules p ! mm_Rule m) req))"

text \<open>\<open>shown\<close> is the formatted time of the evaluation.\<close>

definition writeWhatIf :: "policy \<Rightarrow> request \<Rightarrow> bool \<Rightarrow> int \<Rightarrow> string \<Rightarrow> string" where
  "writeWhatIf p req allow idx shown =
     (let identity = (if q_Identity req = [] then ''(none '' @ emdash @ '' caller passed no --as)'' else q_Identity req);
          i = itoa idx; r = p_Rules p ! nat idx
      in newline @ (if allow then ''ALLOW'' else ''DENY'') @ newline @ newline @
         (if idx \<ge> 0 then ''Matched rule: '' @ i @ newline
          else ''Matched rule: none '' @ emdash @ '' no rule matches, so the default deny applies'' @ newline) @
         ''Identity:     '' @ identity @ newline @
         ''Mode:         '' @ q_Mode req @ newline @
         (if q_Agent req \<noteq> [] then ''Context:      AI agent (simulated)'' @ newline
          else ''Context:      no AI agent detected'' @ newline) @
         ''Secret:       '' @ q_Ref req @ newline @
         ''Evaluated at: '' @ shown @ newline @
         (if idx \<ge> 0 then newline @ ''Rule '' @ i @ '':'' @ newline @ indentRule r ''  '' else []) @
         (if \<not> allow \<and> idx \<ge> 0 \<and> r_Allow r \<and> r_DenyAgents r then
            newline @ ''Rule '' @ i @ '' allows this request, but it sets deny_agents and the request comes'' @ newline @
            ''from an AI agent context, so it is denied. The rule still matched, so no rule'' @ newline @
            ''below it was consulted '' @ emdash @ '' no later, broader rule can grant this to an agent.'' @ newline
          else if \<not> allow \<and> idx \<ge> 0 then
            newline @ ''Rule '' @ i @ '' matches this request before any rule below it. If you expected a'' @ newline @
            ''later rule to allow this, that rule is unreachable for this request:'' @ newline @
            ''narrow rule '' @ i @ '', or place the allowing rule above it.'' @ newline
          else []) @
         (if \<not> allow \<and> idx < 0 then
            newline @ ''No rule in this policy matches. Nothing is denying this request specifically '' @ emdash @ newline @
            ''there is simply no allow-rule covering it, and the policy denies by default.'' @ newline @
            (let near = NearMisses p req in
             if length near > 0 then
               newline @ ''Rules covering this ref that did not match:'' @ newline @ concat (map (near_lines p req) near)
             else [])
          else []) @
         (if allow \<and> int (length (p_Rules p)) > idx + 1 then
            newline @ ''Rules below '' @ i @ '' were not consulted: the first match decides.'' @ newline
          else []))"

record whatif_flags =
  wf_file :: string
  wf_as :: string
  wf_mode :: string
  wf_ref :: string
  wf_at :: string
  wf_agent :: bool
  wf_args :: "string list"

text \<open>\<open>parse_at\<close> is \<open>ParseInLocation\<close> and \<open>show\<close> the format of a time.\<close>

definition runPolicyWhatIf ::
  "decoder \<Rightarrow> bool \<Rightarrow> env \<Rightarrow> fsys \<Rightarrow> gotime \<Rightarrow> (string \<Rightarrow> gotime option) \<Rightarrow> (gotime \<Rightarrow> string) \<Rightarrow>
   string + whatif_flags \<Rightarrow> string \<times> policy_cmd_error option" where
  "runPolicyWhatIf decode readable e fs now parse_at show parsed =
     (case parsed of
        Inl err \<Rightarrow> ([], Some (PcFlags err))
      | Inr fl \<Rightarrow>
          if length (wf_args fl) \<noteq> 0 then ([], Some (PcUsage ''policy what-if takes no positional arguments''))
          else if wf_ref fl = [] then ([], Some (PcUsage ''policy what-if requires --ref''))
          else if wf_mode fl = [] then ([], Some (PcUsage ''policy what-if requires --mode (get, exec or mount)''))
          else if wf_mode fl \<noteq> ModeGet \<and> wf_mode fl \<noteq> ModeExec \<and> wf_mode fl \<noteq> ModeMount then
            ([], Some (PcUsage ''unknown mode''))
          else case (if wf_at fl \<noteq> [] then parse_at (wf_at fl) else Some now) of
            None \<Rightarrow> ([], Some (PcUsage ''bad --at: want YYYY-MM-DDTHH:MM''))
          | Some at \<Rightarrow>
              (case loadPolicyFile decode readable e fs (wf_file fl) of
                 (path, Inl err) \<Rightarrow> ([], Some (PcLoad err))
               | (path, Inr po) \<Rightarrow>
                   let req = \<lparr>q_Ref = wf_ref fl, q_Identity = wf_as fl, q_Mode = wf_mode fl, q_Time = at,
                              q_Caller = [], q_Agent = (if wf_agent fl then whatIfAgentMarker else [])\<rparr>
                   in case po of
                        None \<Rightarrow>
                          (''policy: '' @ path @ newline @ newline @ ''DENY'' @ newline @ newline @
                           ''There is no policy file, so every fetch is denied (strict deny-by-default).'' @ newline,
                           Some (PcExit 1))
                      | Some p \<Rightarrow>
                          (case Explain p req of
                             (allow, idx) \<Rightarrow>
                               (rules_header path p @ writeWhatIf p req allow idx (show at),
                                if allow then None else Some (PcExit 1)))))"


subsection \<open>Gathering a grant interactively\<close>

text \<open>
  The lines of the input that \<open>ReadString\<close> still returns; at the end it is an error that
  names the prompt. Each question maps the lines to an error or an answer and the lines left.
\<close>

definition ask :: "string \<Rightarrow> string \<Rightarrow> string list \<Rightarrow> string + string \<times> string list" where
  "ask prompt deflt lines =
     (case lines of
        [] \<Rightarrow> Inl (''reading '' @ prompt)
      | l # ls \<Rightarrow>
          if l = [] then Inl (''reading '' @ prompt)
          else if trim_space l = [] then Inr (deflt, ls) else Inr (trim_space l, ls))"

definition askList :: "string \<Rightarrow> string list \<Rightarrow> string list \<Rightarrow> string + string list \<times> string list" where
  "askList prompt deflt lines =
     (case ask (prompt @ '' (space-separated)'') (join_with '' '' deflt) lines of
        Inl e \<Rightarrow> Inl e
      | Inr (got, ls) \<Rightarrow> Inr (Fields got, ls))"

definition and_then :: "'e + 'a \<times> 's \<Rightarrow> ('a \<Rightarrow> 's \<Rightarrow> 'e + 'b) \<Rightarrow> 'e + 'b" where
  "and_then r k = (case r of Inl e \<Rightarrow> Inl e | Inr (a, s) \<Rightarrow> k a s)"

definition gatherInteractively :: "string list \<Rightarrow> grant_request \<Rightarrow> string + grant_request" where
  "gatherInteractively lines req =
     and_then (ask ''Tool or consumer needing access'' (gr_Tool req) lines) (\<lambda>tool ls1.
     and_then (ask ''What it needs to accomplish'' (gr_Goal req) ls1) (\<lambda>goal ls2.
     and_then (askList ''Secret reference(s)'' (gr_Secrets req) ls2) (\<lambda>secrets ls3.
     and_then (askList ''Identity label(s)'' (gr_Identities req) ls3) (\<lambda>identities ls4.
     and_then (askList ''Modes'' (if length (gr_Modes req) = 0 then DefaultModes else gr_Modes req) ls4) (\<lambda>modes ls5.
     and_then (askList ''Weekdays'' (gr_Weekdays req) ls5) (\<lambda>weekdays ls6.
     and_then (ask ''Days of the month (comma-separated)'' (joinInts (gr_Monthdays req)) ls6) (\<lambda>mdText ls7.
       (case parseMonthdays mdText of
          Inl p \<Rightarrow> Inl (''bad month day '' @ p)
        | Inr monthdays \<Rightarrow>
            and_then (ask ''Hours window HH:MM-HH:MM'' (gr_Hours req) ls7) (\<lambda>hours ls8.
              Inr \<lparr>gr_Tool = tool, gr_Goal = goal, gr_Secrets = secrets, gr_Identities = identities, gr_Modes = modes,
                   gr_Weekdays = weekdays, gr_Monthdays = monthdays, gr_Hours = hours\<rparr>)))))))))"

subsection \<open>\<open>policy grant\<close> and \<open>policy apply\<close>\<close>

record grant_flags =
  gr_secrets :: "string list"
  gr_identities :: "string list"
  gr_tool :: string
  gr_goal :: string
  gr_modes :: string
  gr_weekdays :: string
  gr_monthdays :: string
  gr_hours :: string
  gr_at :: int
  gr_interactive :: bool
  gr_apply :: bool
  gr_yes :: bool
  gr_file :: string
  gr_args :: "string list"

text \<open>From the flags, and the answers on standard input when they are asked for, to the request.\<close>

definition grant_request_of :: "string list \<Rightarrow> grant_flags \<Rightarrow> policy_cmd_error + grant_request" where
  "grant_request_of stdin fl =
     (case parseMonthdays (gr_monthdays fl) of
        Inl p \<Rightarrow> Inl (PcMonthday p)
      | Inr monthdays \<Rightarrow>
          let req = \<lparr>gr_Tool = gr_tool fl, gr_Goal = gr_goal fl, gr_Secrets = gr_secrets fl,
                     gr_Identities = gr_identities fl, gr_Modes = splitCommas (gr_modes fl),
                     gr_Weekdays = splitCommas (gr_weekdays fl), gr_Monthdays = monthdays, gr_Hours = gr_hours fl\<rparr>
          in if gr_interactive fl
             then (case gatherInteractively stdin req of Inl e \<Rightarrow> Inl (PcGather e) | Inr r \<Rightarrow> Inr r)
             else Inr req)"

definition empty_policy :: policy where
  "empty_policy = \<lparr>p_Schema = SchemaVersion, p_Rules = []\<rparr>"

text \<open>The index the rule goes to: the one given by \<open>--at\<close>, or the computed one unless it was refused.\<close>

definition grant_index :: "policy \<Rightarrow> rule \<Rightarrow> int \<Rightarrow> place_error + int" where
  "grant_index live rule at =
     (let pl = AnalyzeRuleInsertion live rule in
      if at \<ge> 0 then Inr at
      else case pl_Err pl of Some e \<Rightarrow> Inl e | None \<Rightarrow> Inr (int (pl_Index pl)))"

definition runPolicyGrant ::
  "encoder \<Rightarrow> decoder \<Rightarrow> bool \<Rightarrow> tenv \<Rightarrow> env \<Rightarrow> string list \<Rightarrow> string + grant_flags \<Rightarrow> fsys \<Rightarrow>
   fsys list \<times> policy_cmd_error option" where
  "runPolicyGrant marshal decode readable te e stdin parsed fs =
     (case parsed of
        Inl err \<Rightarrow> ([fs], Some (PcFlags err))
      | Inr fl \<Rightarrow>
          if length (gr_args fl) \<noteq> 0 then ([fs], Some (PcUsage ''policy grant takes no positional arguments''))
          else case grant_request_of stdin fl of
            Inl err \<Rightarrow> ([fs], Some err)
          | Inr req \<Rightarrow>
              (case BuildGrantRule req of
                 Inl err \<Rightarrow> ([fs], Some (PcBuild err))
               | Inr rule \<Rightarrow>
                   (case loadPolicyFile decode readable e fs (gr_file fl) of
                      (path, Inl err) \<Rightarrow> ([fs], Some (PcLoad err))
                    | (path, Inr po) \<Rightarrow>
                        (let live = (case po of None \<Rightarrow> empty_policy | Some p \<Rightarrow> p) in
                         case grant_index live rule (gr_at fl) of
                           Inl err \<Rightarrow> ([fs], Some (PcPlace err))
                         | Inr index \<Rightarrow>
                             (case InsertRule live rule index of
                                Inl err \<Rightarrow> ([fs], Some (PcInsert err))
                              | Inr candidate \<Rightarrow>
                                  (case runTransaction marshal decode te
                                      \<lparr>tx_livePath = path, tx_live = live, tx_liveOnDisk = (po \<noteq> None),
                                       tx_candidate = candidate, tx_expected = Some (RuleProbes rule),
                                       tx_apply = gr_apply fl, tx_assumeYes = gr_yes fl\<rparr> fs of
                                     (states, err) \<Rightarrow> (states, map_option PcTransaction err)))))))"

record apply_flags =
  ap_apply :: bool
  ap_yes :: bool
  ap_file :: string
  ap_args :: "string list"

text \<open>\<open>readable\<close> tells for the candidate and for the live policy whether reading works.\<close>

definition runPolicyApply ::
  "encoder \<Rightarrow> decoder \<Rightarrow> bool \<times> bool \<Rightarrow> tenv \<Rightarrow> env \<Rightarrow> string + apply_flags \<Rightarrow> fsys \<Rightarrow>
   fsys list \<times> policy_cmd_error option" where
  "runPolicyApply marshal decode readable te e parsed fs =
     (case parsed of
        Inl err \<Rightarrow> ([fs], Some (PcFlags err))
      | Inr fl \<Rightarrow>
          if length (ap_args fl) \<noteq> 1 then ([fs], Some (PcUsage ''usage: parzival policy apply''))
          else case loadPolicyFile decode (fst readable) e fs (ap_args fl ! 0) of
            (_, Inl err) \<Rightarrow> ([fs], Some (PcLoad err))
          | (_, Inr None) \<Rightarrow> ([fs], Some (PcNoSuchFile (ap_args fl ! 0)))
          | (_, Inr (Some candidate)) \<Rightarrow>
              (case loadPolicyFile decode (snd readable) e fs (ap_file fl) of
                 (path, Inl err) \<Rightarrow> ([fs], Some (PcLoad err))
               | (path, Inr po) \<Rightarrow>
                   (case runTransaction marshal decode te
                       \<lparr>tx_livePath = path, tx_live = (case po of None \<Rightarrow> empty_policy | Some p \<Rightarrow> p),
                        tx_liveOnDisk = (po \<noteq> None), tx_candidate = candidate, tx_expected = None,
                        tx_apply = ap_apply fl, tx_assumeYes = ap_yes fl\<rparr> fs of
                      (states, err) \<Rightarrow> (states, map_option PcTransaction err))))"

datatype policy_cmd = CmdCheck | CmdValidate | CmdWhatIf | CmdGrant | CmdApply

text \<open>The dispatch of \<open>runPolicy\<close>; \<open>None\<close> is the usage error.\<close>

definition runPolicy :: "string list \<Rightarrow> (policy_cmd \<times> string list) option" where
  "runPolicy args =
     (case args of
        [] \<Rightarrow> None
      | c # rest \<Rightarrow>
          if c = ''check'' then Some (CmdCheck, rest)
          else if c = ''validate'' then Some (CmdValidate, rest)
          else if c = ''what-if'' \<or> c = ''whatif'' then Some (CmdWhatIf, rest)
          else if c = ''grant'' then Some (CmdGrant, rest)
          else if c = ''apply'' then Some (CmdApply, rest)
          else None)"


subsection \<open>Lemmas\<close>

lemma first_line_prefix: "writeWhatIf p req allow idx shown =
    newline @ (if allow then ''ALLOW'' else ''DENY'') @ newline @ newline @
    (if idx \<ge> 0 then ''Matched rule: '' @ itoa idx @ newline
     else ''Matched rule: none '' @ emdash @ '' no rule matches, so the default deny applies'' @ newline) @
    drop (length (newline @ (if allow then ''ALLOW'' else ''DENY'') @ newline @ newline @
      (if idx \<ge> 0 then ''Matched rule: '' @ itoa idx @ newline
       else ''Matched rule: none '' @ emdash @ '' no rule matches, so the default deny applies'' @ newline)))
      (writeWhatIf p req allow idx shown)"
  unfolding writeWhatIf_def Let_def by simp

text \<open>What a grant does to the files is what the transaction it ends in does.\<close>

lemma grant_states:
  assumes "s \<in> set (fst (runPolicyGrant marshal decode readable te e stdin (Inr fl) fs))" "s \<noteq> fs"
  obtains req rule po index candidate where
    "grant_request_of stdin fl = Inr req" "BuildGrantRule req = Inr rule"
    "loadPolicyFile decode readable e fs (gr_file fl) = (fst (loadPolicyFile decode readable e fs (gr_file fl)), Inr po)"
    "grant_index (case po of None \<Rightarrow> empty_policy | Some p \<Rightarrow> p) rule (gr_at fl) = Inr index"
    "InsertRule (case po of None \<Rightarrow> empty_policy | Some p \<Rightarrow> p) rule index = Inr candidate"
    "s \<in> set (fst (runTransaction marshal decode te
       \<lparr>tx_livePath = fst (loadPolicyFile decode readable e fs (gr_file fl)),
        tx_live = (case po of None \<Rightarrow> empty_policy | Some p \<Rightarrow> p), tx_liveOnDisk = (po \<noteq> None),
        tx_candidate = candidate, tx_expected = Some (RuleProbes rule),
        tx_apply = gr_apply fl, tx_assumeYes = gr_yes fl\<rparr> fs))"
proof -
  let ?l = "loadPolicyFile decode readable e fs (gr_file fl)"
  have args: "length (gr_args fl) = 0" using assms by (auto simp: runPolicyGrant_def split: if_splits)
  then obtain req where req: "grant_request_of stdin fl = Inr req"
    using assms by (cases "grant_request_of stdin fl") (auto simp: runPolicyGrant_def)
  then obtain rule where rule: "BuildGrantRule req = Inr rule"
    using assms args by (cases "BuildGrantRule req") (auto simp: runPolicyGrant_def)
  then obtain path po where l: "?l = (path, Inr po)"
    using assms args req by (cases ?l; cases "snd ?l") (auto simp: runPolicyGrant_def)
  let ?live = "case po of None \<Rightarrow> empty_policy | Some p \<Rightarrow> p"
  obtain index where ix: "grant_index ?live rule (gr_at fl) = Inr index"
    using assms args req rule l by (cases "grant_index ?live rule (gr_at fl)") (auto simp: runPolicyGrant_def Let_def)
  obtain candidate where c: "InsertRule ?live rule index = Inr candidate"
    using assms args req rule l ix by (cases "InsertRule ?live rule index") (auto simp: runPolicyGrant_def Let_def)
  have "fst (runPolicyGrant marshal decode readable te e stdin (Inr fl) fs) =
      fst (runTransaction marshal decode te
       \<lparr>tx_livePath = path, tx_live = ?live, tx_liveOnDisk = (po \<noteq> None),
        tx_candidate = candidate, tx_expected = Some (RuleProbes rule),
        tx_apply = gr_apply fl, tx_assumeYes = gr_yes fl\<rparr> fs)"
    using args req rule l ix c by (simp add: runPolicyGrant_def Let_def split: prod.splits)
  then show thesis using that[OF req rule _ ix c] assms(1) l by simp
qed

subsection \<open>Properties\<close>

text \<open>
  (C37) \<open>what-if\<close> answers as the enforcement does. For a request it can be asked about, its
  exit status is 0 exactly when \<open>Authorize\<close> would let the same request through, whatever the
  audit log; and its report opens with that verdict and with the number of the first matching
  rule, or with none when there is no such rule.
\<close>

theorem what_if_is_enforcement:
  assumes "wf_args fl = []" "wf_ref fl \<noteq> []" "knownMode (wf_mode fl)"
    "(if wf_at fl \<noteq> [] then parse_at (wf_at fl) else Some now) = Some at"
    "loadPolicyFile decode readable e fs (wf_file fl) = (path, Inr (Some p))"
    "r = \<lparr>q_Ref = wf_ref fl, q_Identity = wf_as fl, q_Mode = wf_mode fl, q_Time = at, q_Caller = [],
          q_Agent = (if wf_agent fl then whatIfAgentMarker else [])\<rparr>"
  shows "policy_exit (snd (runPolicyWhatIf decode readable e fs now parse_at show' (Inr fl))) =
      (if snd (Authorize (Inr (Some p)) log r) = None then 0 else 1) \<and>
    (\<exists>rest. fst (runPolicyWhatIf decode readable e fs now parse_at show' (Inr fl)) =
       rules_header path p @ newline @ (if snd (Authorize (Inr (Some p)) log r) = None then ''ALLOW'' else ''DENY'') @
       newline @ newline @
       (case first_index (\<lambda>rule. rule_matches rule r) (p_Rules p) of
          Some i \<Rightarrow> ''Matched rule: '' @ itoa (int i) @ newline
        | None \<Rightarrow> ''Matched rule: none '' @ emdash @ '' no rule matches, so the default deny applies'' @ newline) @ rest)"
proof -
  obtain allow idx where ex: "Explain p r = (allow, idx)" by (cases "Explain p r")
  have allow: "allow = policy_allows (p_Rules p) r" using ex decide_allows[of p r] by (simp add: Explain_def)
  have idx: "idx = (case first_index (\<lambda>rule. rule_matches rule r) (p_Rules p) of None \<Rightarrow> -1 | Some i \<Rightarrow> int i)"
    using ex decide_rule[of p r] by (simp add: Explain_def pol.decider_first)
  have auth: "(snd (Authorize (Inr (Some p)) log r) = None) = allow"
    unfolding Authorize_ok_iff allow by simp
  have m: "\<not> (wf_mode fl \<noteq> ModeGet \<and> wf_mode fl \<noteq> ModeExec \<and> wf_mode fl \<noteq> ModeMount)" "wf_mode fl \<noteq> []"
    using assms(3) by (auto simp: knownMode_def ModeGet_def ModeExec_def ModeMount_def)
  have run: "runPolicyWhatIf decode readable e fs now parse_at show' (Inr fl) =
      (rules_header path p @ writeWhatIf p r allow idx (show' at), if allow then None else Some (PcExit 1))"
    unfolding runPolicyWhatIf_def using assms(1,2,4,5) m ex unfolding assms(6) by simp
  obtain rest where "writeWhatIf p r allow idx (show' at) =
      newline @ (if allow then ''ALLOW'' else ''DENY'') @ newline @ newline @
      (if idx \<ge> 0 then ''Matched rule: '' @ itoa idx @ newline
       else ''Matched rule: none '' @ emdash @ '' no rule matches, so the default deny applies'' @ newline) @ rest"
    using first_line_prefix by blast
  moreover have "(if idx \<ge> 0 then ''Matched rule: '' @ itoa idx @ newline
       else ''Matched rule: none '' @ emdash @ '' no rule matches, so the default deny applies'' @ newline) =
      (case first_index (\<lambda>rule. rule_matches rule r) (p_Rules p) of
          Some i \<Rightarrow> ''Matched rule: '' @ itoa (int i) @ newline
        | None \<Rightarrow> ''Matched rule: none '' @ emdash @ '' no rule matches, so the default deny applies'' @ newline)"
    using idx by (auto split: option.splits)
  ultimately show ?thesis unfolding run auth by (auto simp: policy_exit_def)
qed


definition whatif_fs :: fsys where
  "whatif_fs = (\<lambda>_. None)(''/p.json'' \<mapsto> \<lparr>fl_data = ''1'', fl_mode = FileMode, fl_synced = True\<rparr>)"

definition whatif_env :: env where
  "whatif_env = \<lparr>env_PARZIVAL_CONFIG_HOME = ''/etc/p'', env_XDG_CONFIG_HOME = [], env_XDG_STATE_HOME = [],
     env_XDG_RUNTIME_DIR = [], env_home = []\<rparr>"

definition whatif_ask :: "string \<Rightarrow> whatif_flags" where
  "whatif_ask ref =
     \<lparr>wf_file = ''/p.json'', wf_as = ''ci'', wf_mode = ''exec'', wf_ref = ref, wf_at = [], wf_agent = False, wf_args = []\<rparr>"

theorem what_if_is_enforcement_witness:
  "policy_exit (snd (runPolicyWhatIf toy_decode True whatif_env whatif_fs example_day (\<lambda>_. None) (\<lambda>_. [])
     (Inr (whatif_ask ''bao:a'')))) = 0"
proof -
  let ?p = "\<lparr>p_Schema = 1, p_Rules = [allow_rule [''bao:a''] [''ci''] [''exec'']]\<rparr>"
  let ?r = "\<lparr>q_Ref = ''bao:a'', q_Identity = ''ci'', q_Mode = ''exec'', q_Time = example_day, q_Caller = [], q_Agent = []\<rparr>"
  have l: "loadPolicyFile toy_decode True whatif_env whatif_fs ''/p.json'' = (''/p.json'', Inr (Some ?p))"
    by code_simp
  have a: "snd (Authorize (Inr (Some ?p)) None ?r) = None" by code_simp
  show ?thesis
    using what_if_is_enforcement[of "whatif_ask ''bao:a''" "\<lambda>_. None" example_day example_day toy_decode True
        whatif_env whatif_fs "''/p.json''" ?p ?r "\<lambda>_. []" None] l a
    by (simp add: whatif_ask_def knownMode_def ModeExec_def)
qed

text \<open>
  (C11) A grant changes the live policy only as it was asked to. Whenever in some state of the
  command, so at any crash point too, the live file is not what it was, then the request built a
  valid allow-rule, which was placed without an unresolved conflict or where the operator said,
  installing was asked for and confirmed, and what is installed is what the rule inserted into
  the live policy reads back as, with no analysis error and no authorization change outside
  what the rule asks for.
\<close>

theorem grant_changes_only_as_asked:
  assumes "s \<in> set (fst (runPolicyGrant marshal decode readable te e stdin (Inr fl) fs))"
    and "path = fst (loadPolicyFile decode readable e fs (gr_file fl))" "s path \<noteq> fs path"
    and "we_temp (te_cand te) \<noteq> Some path" "we_temp (te_install te) \<noteq> Some path" "we_temp (te_restore te) \<noteq> Some path"
  shows "\<exists>req rule live index candidate data reread before.
    grant_request_of stdin fl = Inr req \<and> BuildGrantRule req = Inr rule \<and> gr_apply fl \<and>
    (gr_yes fl \<or> confirm (te_line te)) \<and> (before = Some live \<or> before = None \<and> live = empty_policy) \<and>
    LoadFile decode readable fs path = Inr before \<and>
    (gr_at fl \<ge> 0 \<and> index = gr_at fl \<or>
     pl_Err (AnalyzeRuleInsertion live rule) = None \<and> index = int (pl_Index (AnalyzeRuleInsertion live rule))) \<and>
    InsertRule live rule index = Inr candidate \<and> marshal candidate = Inr data \<and> Parse decode data = Inr reread \<and>
    analysis_OK (Analyze reread) \<and>
    Unexpected (DiffAuthorization before (Some reread) (ProbeSet [Some live, Some reread] (RuleProbes rule)) (te_now te))
      (RuleProbes rule) = []"
proof -
  have ne: "s \<noteq> fs" using assms(3) by auto
  from grant_states[OF assms(1) ne] obtain req rule po index candidate where g:
    "grant_request_of stdin fl = Inr req" "BuildGrantRule req = Inr rule"
    "loadPolicyFile decode readable e fs (gr_file fl) = (path, Inr po)"
    "grant_index (case po of None \<Rightarrow> empty_policy | Some p \<Rightarrow> p) rule (gr_at fl) = Inr index"
    "InsertRule (case po of None \<Rightarrow> empty_policy | Some p \<Rightarrow> p) rule index = Inr candidate"
    "s \<in> set (fst (runTransaction marshal decode te
       \<lparr>tx_livePath = path, tx_live = (case po of None \<Rightarrow> empty_policy | Some p \<Rightarrow> p), tx_liveOnDisk = (po \<noteq> None),
        tx_candidate = candidate, tx_expected = Some (RuleProbes rule),
        tx_apply = gr_apply fl, tx_assumeYes = gr_yes fl\<rparr> fs))"
    unfolding assms(2)[symmetric] by blast
  define live where "live = (case po of None \<Rightarrow> empty_policy | Some p \<Rightarrow> p)"
  let ?t = "\<lparr>tx_livePath = path, tx_live = live, tx_liveOnDisk = (po \<noteq> None), tx_candidate = candidate,
    tx_expected = Some (RuleProbes rule), tx_apply = gr_apply fl, tx_assumeYes = gr_yes fl\<rparr>"
  obtain reread where r: "tx_ready marshal decode te ?t reread"
    using transaction_states[of te ?t s marshal decode fs] assms(3-6) g(6) by (auto simp: live_def)
  then obtain data where d: "marshal candidate = Inr data" "Parse decode data = Inr reread"
    by (auto simp: tx_ready_def)
  have b: "po = Some live \<or> po = None \<and> live = empty_policy"
    by (auto simp: live_def split: option.splits)
  have load: "LoadFile decode readable fs path = Inr po" using g(3) by (auto simp: loadPolicyFile_def Let_def)
  have ix: "gr_at fl \<ge> 0 \<and> index = gr_at fl \<or>
     pl_Err (AnalyzeRuleInsertion live rule) = None \<and> index = int (pl_Index (AnalyzeRuleInsertion live rule))"
    using g(4) by (auto simp: grant_index_def Let_def live_def[symmetric] split: if_splits option.splits)
  have u: "gr_apply fl" "gr_yes fl \<or> confirm (te_line te)" "analysis_OK (Analyze reread)"
    "Unexpected (DiffAuthorization po (Some reread) (ProbeSet [Some live, Some reread] (RuleProbes rule)) (te_now te))
      (RuleProbes rule) = []"
    using r by (cases po; simp add: tx_ready_def live_def)+
  show ?thesis
    by (intro exI[of _ req] exI[of _ rule] exI[of _ live] exI[of _ index] exI[of _ candidate] exI[of _ data]
        exI[of _ reread] exI[of _ po] conjI g(1,2) u d b load ix g(5)[folded live_def])
qed

definition grant_demo :: grant_flags where
  "grant_demo =
     \<lparr>gr_secrets = [''bao:a''], gr_identities = [''ci''], gr_tool = ''deploy'', gr_goal = [], gr_modes = ''exec'',
      gr_weekdays = [], gr_monthdays = [], gr_hours = [], gr_at = -1, gr_interactive = False, gr_apply = True,
      gr_yes = True, gr_file = ''p'', gr_args = []\<rparr>"

theorem grant_changes_only_as_asked_witness:
  "\<exists>req rule. grant_request_of [] grant_demo = Inr req \<and> BuildGrantRule req = Inr rule"
proof -
  let ?r = "runPolicyGrant toy_marshal toy_decode True example_tenv whatif_env [] (Inr grant_demo) example_fs"
  let ?s = "last (fst ?r)"
  have m: "?s \<in> set (fst ?r)" by (rule last_in_set) code_simp
  have p: "''p'' = fst (loadPolicyFile toy_decode True whatif_env example_fs (gr_file grant_demo))"
    by (simp add: loadPolicyFile_def Let_def grant_demo_def)
  have "map_option fl_data (?s ''p'') = Some ''1''" by code_simp
  then have n: "?s ''p'' \<noteq> example_fs ''p''" by (auto simp: example_fs_def)
  show ?thesis
    using grant_changes_only_as_asked[OF m p n] by (auto simp: example_tenv_def good_wenv_def)
qed

text \<open>
  Accepting a shown default does not keep it: an identity or a reference with a space,
  which the flags are taken one by one to allow, is offered joined by spaces and split again, so
  pressing Enter at every question turns one label into two.
\<close>

theorem interactive_splits_defaults:
  "map_sum id gr_Identities (gatherInteractively (replicate 8 newline)
     \<lparr>gr_Tool = ''deploy'', gr_Goal = [], gr_Secrets = [''bao:a''], gr_Identities = [''build agent''], gr_Modes = [],
      gr_Weekdays = [], gr_Monthdays = [], gr_Hours = []\<rparr>) =
   Inr [''build'', ''agent'']"
  by code_simp

end
