(* ===== verification/Diff.thy ===== *)
theory Diff
  imports Prelude "HOL-Library.Sublist"
begin

text \<open>
  The file diff an operator approves a policy change from (\<open>cmd/parzival/diff.go\<close>): the table of
  longest common subsequences, the edit script read off it, the hunks, their headers and the
  rendered text.
\<close>

subsection \<open>The edit script\<close>

datatype op_kind = OpEqual | OpDelete | OpInsert

record diff_op =
  df_kind :: op_kind
  df_text :: string
  df_aLine :: nat
  df_bLine :: nat

definition diff_op :: "op_kind \<Rightarrow> string \<Rightarrow> nat \<Rightarrow> nat \<Rightarrow> diff_op" where
  "diff_op k s i j = \<lparr>df_kind = k, df_text = s, df_aLine = i, df_bLine = j\<rparr>"

text \<open>
  Row \<open>i\<close> of the table from row \<open>i + 1\<close>, filled from the right; the table itself is filled from
  the last row up.
\<close>

fun lcs_row :: "string \<Rightarrow> string list \<Rightarrow> nat list \<Rightarrow> nat list" where
  "lcs_row x [] next_row = [0]"
| "lcs_row x (y # ys) next_row =
     (let row = lcs_row x ys (tl next_row)
      in (if x = y then hd (tl next_row) + 1 else max (hd next_row) (hd row)) # row)"

fun lcs_table :: "string list \<Rightarrow> string list \<Rightarrow> nat list list" where
  "lcs_table [] b = [replicate (length b + 1) 0]"
| "lcs_table (x # xs) b = (let rows = lcs_table xs b in lcs_row x b (hd rows) # rows)"

function diff_walk :: "string list \<Rightarrow> string list \<Rightarrow> nat list list \<Rightarrow> nat \<Rightarrow> nat \<Rightarrow> diff_op list" where
  "diff_walk a b lcs i j =
     (if i < length a \<and> j < length b then
        if a ! i = b ! j then diff_op OpEqual (a ! i) (i + 1) (j + 1) # diff_walk a b lcs (i + 1) (j + 1)
        else if lcs ! (i + 1) ! j \<ge> lcs ! i ! (j + 1)
        then diff_op OpDelete (a ! i) (i + 1) 0 # diff_walk a b lcs (i + 1) j
        else diff_op OpInsert (b ! j) 0 (j + 1) # diff_walk a b lcs i (j + 1)
      else map (\<lambda>k. diff_op OpDelete (a ! k) (k + 1) 0) [i..<length a] @
           map (\<lambda>k. diff_op OpInsert (b ! k) 0 (k + 1)) [j..<length b])"
  by pat_completeness auto
termination by (relation "measure (\<lambda>(a, b, lcs, i, j). (length a - i) + (length b - j))") auto

declare diff_walk.simps [simp del]

definition diffOps :: "string list \<Rightarrow> string list \<Rightarrow> diff_op list" where
  "diffOps a b = diff_walk a b (lcs_table a b) 0 0"

definition hasChange :: "diff_op list \<Rightarrow> bool" where
  "hasChange ops = list_ex (\<lambda>op. df_kind op \<noteq> OpEqual) ops"

subsection \<open>Hunks\<close>

text \<open>The gap: how many equal lines follow.\<close>

definition gap_at :: "diff_op list \<Rightarrow> nat \<Rightarrow> nat" where
  "gap_at ops k = length (takeWhile (\<lambda>op. df_kind op = OpEqual) (drop k ops))"

lemma gap_at_pos: "k < length ops \<Longrightarrow> df_kind (ops ! k) = OpEqual \<Longrightarrow> 0 < gap_at ops k"
  by (simp add: gap_at_def Cons_nth_drop_Suc[symmetric])

text \<open>The inner loop: forward from a change, over every gap that two contexts would bridge.\<close>

function run_end :: "diff_op list \<Rightarrow> nat \<Rightarrow> nat \<Rightarrow> nat" where
  "run_end ops ctx k =
     (if k < length ops then
        if df_kind (ops ! k) \<noteq> OpEqual then run_end ops ctx (k + 1)
        else if k + gap_at ops k \<ge> length ops \<or> gap_at ops k > ctx * 2 then k
        else run_end ops ctx (k + gap_at ops k)
      else k)"
  by pat_completeness auto

termination
proof (relation "measure (\<lambda>(ops, ctx, k). length ops - k)", goal_cases)
  case (3 ops ctx k)
  then show ?case using gap_at_pos[of k ops] by auto
qed auto

declare run_end.simps [simp del]

lemma run_end_ge: "k \<le> run_end ops ctx k"
  by (induction ops ctx k rule: run_end.induct) (subst run_end.simps, auto)

lemma run_end_le: "k \<le> length ops \<Longrightarrow> run_end ops ctx k \<le> length ops"
  by (induction ops ctx k rule: run_end.induct) (subst run_end.simps, auto)

lemma run_end_gt: "k < length ops \<Longrightarrow> df_kind (ops ! k) \<noteq> OpEqual \<Longrightarrow> k < run_end ops ctx k"
  using run_end_ge[of "k + 1" ops ctx] by (subst run_end.simps) simp

type_synonym span = "nat \<times> nat"

function hunks_loop :: "diff_op list \<Rightarrow> nat \<Rightarrow> nat \<Rightarrow> span list \<Rightarrow> span list" where
  "hunks_loop ops ctx i out =
     (if i < length ops then
        if df_kind (ops ! i) = OpEqual then hunks_loop ops ctx (i + 1) out
        else
          let from' = i - ctx;
              to' = min (run_end ops ctx i + ctx) (length ops)
          in if out \<noteq> [] \<and> from' \<le> snd (last out)
             then hunks_loop ops ctx to' (butlast out @ [(fst (last out), to')])
             else hunks_loop ops ctx to' (out @ [(from', to')])
      else out)"
  by pat_completeness auto
termination
proof (relation "measure (\<lambda>(ops, ctx, i, out). length ops - i)", goal_cases)
  case (3 ops ctx i out from' to')
  then show ?case using run_end_gt[of i ops ctx] by auto
next
  case (4 ops ctx i out from' to')
  then show ?case using run_end_gt[of i ops ctx] by auto
qed auto

declare hunks_loop.simps [simp del]

definition hunks :: "diff_op list \<Rightarrow> nat \<Rightarrow> span list" where
  "hunks ops ctx = hunks_loop ops ctx 0 []"

text \<open>\<open>hunkRange\<close>: the first line and the number of lines on each side.\<close>

definition side_start :: "(diff_op \<Rightarrow> nat) \<Rightarrow> diff_op list \<Rightarrow> nat" where
  "side_start line ops = (case find (\<lambda>op. line op > 0) ops of None \<Rightarrow> 0 | Some op \<Rightarrow> line op)"

definition side_len :: "(diff_op \<Rightarrow> nat) \<Rightarrow> diff_op list \<Rightarrow> nat" where
  "side_len line ops = length (filter (\<lambda>op. line op > 0) ops)"

definition hunkRange :: "diff_op list \<Rightarrow> nat \<times> nat \<times> nat \<times> nat" where
  "hunkRange ops =
     (let a = side_start df_aLine ops; b = side_start df_bLine ops
      in (if a = 0 then df_bLine (hd ops) else a, side_len df_aLine ops,
          if b = 0 then df_aLine (hd ops) else b, side_len df_bLine ops))"

subsection \<open>Rendering\<close>

definition render_op :: "diff_op \<Rightarrow> string" where
  "render_op op =
     (case df_kind op of OpEqual \<Rightarrow> '' '' | OpDelete \<Rightarrow> ''-'' | OpInsert \<Rightarrow> ''+'') @ df_text op @ newline"

definition render_hunk :: "diff_op list \<Rightarrow> span \<Rightarrow> string" where
  "render_hunk ops h =
     (let part = take (snd h - fst h) (drop (fst h) ops); (aStart, aLen, bStart, bLen) = hunkRange part
      in ''@@ -'' @ itoa (int aStart) @ '','' @ itoa (int aLen) @ '' +'' @ itoa (int bStart) @ '','' @ itoa (int bLen) @
         '' @@'' @ newline @ concat (map render_op part))"

definition unifiedDiff :: "string list \<Rightarrow> string list \<Rightarrow> string \<Rightarrow> string \<Rightarrow> nat \<Rightarrow> string" where
  "unifiedDiff a b aName bName ctx =
     (let ops = diffOps a b in
      if \<not> hasChange ops then []
      else ''--- '' @ aName @ newline @ ''+++ '' @ bName @ newline @ concat (map (render_hunk ops) (hunks ops ctx)))"

definition splitLines :: "string \<Rightarrow> string list" where
  "splitLines s0 =
     (let s = (if has_suffix s0 newline then take (length s0 - 1) s0 else s0)
      in if s = [] then [] else split_on CHR 0x0A s)"

subsection \<open>The longest common subsequence\<close>

fun lcs_len :: "string list \<Rightarrow> string list \<Rightarrow> nat" where
  "lcs_len [] b = 0"
| "lcs_len (x # xs) [] = 0"
| "lcs_len (x # xs) (y # ys) =
     (if x = y then lcs_len xs ys + 1 else max (lcs_len xs (y # ys)) (lcs_len (x # xs) ys))"

lemma lcs_len_Nil2 [simp]: "lcs_len a [] = 0"
  by (cases a) auto

lemma lcs_len_upper: "subseq cs a \<Longrightarrow> subseq cs b \<Longrightarrow> length cs \<le> lcs_len a b"
proof (induction a b arbitrary: cs rule: lcs_len.induct)
  case (3 x xs y ys)
  show ?case
  proof (cases cs)
    case (Cons c cs')
    show ?thesis
    proof (cases "x = y")
      case True
      show ?thesis
      proof (cases "c = x")
        case c: True
        then have "subseq cs' xs" "subseq cs' ys" using "3.prems" Cons True by auto
        then show ?thesis using "3.IH"(1)[OF True, of cs'] Cons True by simp
      next
        case False
        then have "subseq cs xs" "subseq cs ys" using "3.prems" Cons True by auto
        then show ?thesis using "3.IH"(1)[OF True, of cs] True by simp
      qed
    next
      case False
      show ?thesis
      proof (cases "c = x")
        case True
        then have "subseq cs ys" using "3.prems" Cons False by auto
        then show ?thesis using "3.IH"(3)[OF False, of cs] "3.prems" False by simp
      next
        case c: False
        then have "subseq cs xs" using "3.prems" Cons by auto
        then show ?thesis using "3.IH"(2)[OF False, of cs] "3.prems" False by simp
      qed
    qed
  qed simp
qed auto

lemma lcs_row_correct:
  "next_row = map (\<lambda>j. lcs_len xs (drop j b)) [0..<Suc (length b)] \<Longrightarrow>
   lcs_row x b next_row = map (\<lambda>j. lcs_len (x # xs) (drop j b)) [0..<Suc (length b)]"
proof (induction b arbitrary: next_row)
  case (Cons y ys)
  have t: "tl next_row = map (\<lambda>j. lcs_len xs (drop j ys)) [0..<Suc (length ys)]"
    using Cons.prems by (simp add: map_upt_Suc del: upt_Suc)
  have h: "hd next_row = lcs_len xs (y # ys)" using Cons.prems by (simp add: map_upt_Suc del: upt_Suc)
  have r: "lcs_row x ys (tl next_row) = map (\<lambda>j. lcs_len (x # xs) (drop j ys)) [0..<Suc (length ys)]"
    by (rule Cons.IH[OF t])
  have "hd (tl next_row) = lcs_len xs ys" "hd (lcs_row x ys (tl next_row)) = lcs_len (x # xs) ys"
    unfolding r unfolding t by (simp_all add: map_upt_Suc del: upt_Suc)
  then show ?case using h r by (simp add: Let_def map_upt_Suc del: upt_Suc)
qed simp

lemma lcs_table_not_Nil: "lcs_table a b \<noteq> []"
  by (cases a) (auto simp: Let_def)

lemma lcs_table_row:
  "i \<le> length a \<Longrightarrow> lcs_table a b ! i = map (\<lambda>j. lcs_len (drop i a) (drop j b)) [0..<Suc (length b)]"
proof (induction a arbitrary: i)
  case Nil
  then show ?case by (simp add: map_replicate_const del: upt_Suc replicate_Suc)
next
  case (Cons x xs)
  have hd: "hd (lcs_table xs b) = map (\<lambda>j. lcs_len xs (drop j b)) [0..<Suc (length b)]"
    using Cons.IH[of 0] lcs_table_not_Nil[of xs b] by (simp add: hd_conv_nth del: upt_Suc)
  show ?case
  proof (cases i)
    case 0
    then show ?thesis using lcs_row_correct[OF hd, of x] by (simp add: Let_def del: upt_Suc)
  next
    case (Suc k)
    then show ?thesis using Cons by (simp add: Let_def del: upt_Suc)
  qed
qed

lemma lcs_table_nth:
  "i \<le> length a \<Longrightarrow> j \<le> length b \<Longrightarrow> lcs_table a b ! i ! j = lcs_len (drop i a) (drop j b)"
  by (simp add: lcs_table_row del: upt_Suc)

subsection \<open>What the script means\<close>

definition old_side :: "diff_op list \<Rightarrow> diff_op list" where
  "old_side ops = filter (\<lambda>op. df_kind op \<noteq> OpInsert) ops"

definition new_side :: "diff_op list \<Rightarrow> diff_op list" where
  "new_side ops = filter (\<lambda>op. df_kind op \<noteq> OpDelete) ops"

definition equal_lines :: "diff_op list \<Rightarrow> nat" where
  "equal_lines ops = length (filter (\<lambda>op. df_kind op = OpEqual) ops)"

lemma diff_op_simps [simp]:
  "df_kind (diff_op k s i j) = k" "df_text (diff_op k s i j) = s" "df_aLine (diff_op k s i j) = i"
  "df_bLine (diff_op k s i j) = j"
  by (simp_all add: diff_op_def)

lemma sides_Nil [simp]: "old_side [] = []" "new_side [] = []" "equal_lines [] = 0"
  by (simp_all add: old_side_def new_side_def equal_lines_def)

lemma sides_Cons [simp]:
  "old_side (op # ops) = (if df_kind op \<noteq> OpInsert then op # old_side ops else old_side ops)"
  "new_side (op # ops) = (if df_kind op \<noteq> OpDelete then op # new_side ops else new_side ops)"
  "equal_lines (op # ops) = (if df_kind op = OpEqual then 1 else 0) + equal_lines ops"
  by (simp_all add: old_side_def new_side_def equal_lines_def)

lemma sides_tail:
  "old_side (map (\<lambda>k. diff_op OpDelete (f k) (Suc k) 0) xs @ map (\<lambda>k. diff_op OpInsert (g k) 0 (Suc k)) ys) =
     map (\<lambda>k. diff_op OpDelete (f k) (Suc k) 0) xs"
  "new_side (map (\<lambda>k. diff_op OpDelete (f k) (Suc k) 0) xs @ map (\<lambda>k. diff_op OpInsert (g k) 0 (Suc k)) ys) =
     map (\<lambda>k. diff_op OpInsert (g k) 0 (Suc k)) ys"
  "equal_lines (map (\<lambda>k. diff_op OpDelete (f k) (Suc k) 0) xs @ map (\<lambda>k. diff_op OpInsert (g k) 0 (Suc k)) ys) = 0"
  by (simp_all add: old_side_def new_side_def equal_lines_def filter_map comp_def)

lemma diff_walk_correct:
  assumes "\<forall>i\<le>length a. \<forall>j\<le>length b. lcs ! i ! j = lcs_len (drop i a) (drop j b)" "i \<le> length a" "j \<le> length b"
  shows "map (\<lambda>op. (df_text op, df_aLine op)) (old_side (diff_walk a b lcs i j)) = map (\<lambda>k. (a ! k, k + 1)) [i..<length a] \<and>
    map (\<lambda>op. (df_text op, df_bLine op)) (new_side (diff_walk a b lcs i j)) = map (\<lambda>k. (b ! k, k + 1)) [j..<length b] \<and>
    equal_lines (diff_walk a b lcs i j) = lcs_len (drop i a) (drop j b)"
  using assms
proof (induction a b lcs i j rule: diff_walk.induct)
  case (1 a b lcs i j)
  show ?case
  proof (cases "i < length a \<and> j < length b")
    case False
    then have "drop i a = [] \<or> drop j b = []" by auto
    then have l: "lcs_len (drop i a) (drop j b) = 0" by auto
    have "diff_walk a b lcs i j = map (\<lambda>k. diff_op OpDelete (a ! k) (k + 1) 0) [i..<length a] @
        map (\<lambda>k. diff_op OpInsert (b ! k) 0 (k + 1)) [j..<length b]"
      using False by (subst diff_walk.simps) auto
    then show ?thesis using l by (simp add: sides_tail comp_def)
  next
    case True
    have da: "drop i a = a ! i # drop (Suc i) a" "drop j b = b ! j # drop (Suc j) b"
      "[i..<length a] = i # [Suc i..<length a]" "[j..<length b] = j # [Suc j..<length b]"
      using True by (simp_all add: Cons_nth_drop_Suc upt_conv_Cons)
    have t: "lcs ! (i + 1) ! j = lcs_len (drop (Suc i) a) (drop j b)" "lcs ! i ! (j + 1) = lcs_len (drop i a) (drop (Suc j) b)"
      using "1.prems"(1) True by auto
    consider (eq) "a ! i = b ! j" | (del) "a ! i \<noteq> b ! j" "lcs ! i ! (j + 1) \<le> lcs ! (i + 1) ! j"
      | (ins) "a ! i \<noteq> b ! j" "\<not> lcs ! i ! (j + 1) \<le> lcs ! (i + 1) ! j" by blast
    then show ?thesis
    proof cases
      case eq
      then have "diff_walk a b lcs i j = diff_op OpEqual (a ! i) (i + 1) (j + 1) # diff_walk a b lcs (i + 1) (j + 1)"
        using True by (subst diff_walk.simps) simp
      then show ?thesis using "1.IH"(1)[OF True eq "1.prems"(1)] True eq da by simp
    next
      case del
      then have "diff_walk a b lcs i j = diff_op OpDelete (a ! i) (i + 1) 0 # diff_walk a b lcs (i + 1) j"
        using True by (subst diff_walk.simps) simp
      then show ?thesis using "1.IH"(2)[OF True del "1.prems"(1)] True del t da by (simp add: max_def)
    next
      case ins
      then have "diff_walk a b lcs i j = diff_op OpInsert (b ! j) 0 (j + 1) # diff_walk a b lcs i (j + 1)"
        using True by (subst diff_walk.simps) simp
      then show ?thesis using "1.IH"(3)[OF True ins "1.prems"(1)] True ins t da by (simp add: max_def)
    qed
  qed
qed

lemma diffOps_correct:
  "map (\<lambda>op. (df_text op, df_aLine op)) (old_side (diffOps a b)) = map (\<lambda>k. (a ! k, k + 1)) [0..<length a]"
  "map (\<lambda>op. (df_text op, df_bLine op)) (new_side (diffOps a b)) = map (\<lambda>k. (b ! k, k + 1)) [0..<length b]"
  "equal_lines (diffOps a b) = lcs_len a b"
  using diff_walk_correct[of a b "lcs_table a b" 0 0] lcs_table_nth by (auto simp: diffOps_def)

lemma map_fst_nth: "map fst (map (\<lambda>k. (a ! k, k + 1)) [0..<length a]) = a"
  by (simp add: comp_def map_nth)

lemma diffOps_texts: "map df_text (old_side (diffOps a b)) = a" "map df_text (new_side (diffOps a b)) = b"
proof -
  have "map df_text ops = map fst (map (\<lambda>op. (df_text op, line op)) ops)" for ops and line :: "diff_op \<Rightarrow> nat"
    by (simp add: comp_def)
  then show "map df_text (old_side (diffOps a b)) = a" "map df_text (new_side (diffOps a b)) = b"
    using diffOps_correct map_fst_nth by metis+
qed

lemma hasChange_iff: "hasChange (diffOps a b) \<longleftrightarrow> a \<noteq> b"
proof
  assume "a \<noteq> b"
  moreover have "old_side ops = ops" "new_side ops = ops" if "\<not> hasChange ops" for ops
    using that by (auto simp: hasChange_def old_side_def new_side_def list_ex_iff filter_id_conv)
  ultimately show "hasChange (diffOps a b)" using diffOps_texts[of a b] by metis
next
  assume c: "hasChange (diffOps a b)"
  show "a \<noteq> b"
  proof
    assume e: "a = b"
    have "length a \<le> lcs_len a b" using lcs_len_upper[of a a b] e by simp
    then have "length (old_side (diffOps a b)) \<le> equal_lines (diffOps a b)"
      "length (new_side (diffOps a b)) \<le> equal_lines (diffOps a b)"
      using diffOps_texts[of a b] diffOps_correct(3)[of a b] e by (metis length_map)+
    moreover have "equal_lines ops < length (old_side ops) \<or> equal_lines ops < length (new_side ops)" if "hasChange ops" for ops
      using that
    proof (induction ops)
      case (Cons op ops)
      have "equal_lines ops \<le> length (old_side ops)" "equal_lines ops \<le> length (new_side ops)"
        by (induction ops) auto
      then show ?case using Cons by (cases "df_kind op") (auto simp: hasChange_def)
    qed (simp add: hasChange_def)
    ultimately show False using c leD by blast
  qed
qed

subsection \<open>What the hunks cover\<close>

definition changed :: "diff_op list \<Rightarrow> nat \<Rightarrow> bool" where
  "changed ops k \<longleftrightarrow> k < length ops \<and> df_kind (ops ! k) \<noteq> OpEqual"

lemma gap_equal:
  assumes "k \<le> j" "j < k + gap_at ops k"
  shows "\<not> changed ops j"
proof -
  let ?t = "takeWhile (\<lambda>op. df_kind op = OpEqual) (drop k ops)"
  have j: "j - k < length ?t" using assms by (simp add: gap_at_def)
  then have "df_kind (?t ! (j - k)) = OpEqual" by (metis (mono_tags, lifting) nth_mem set_takeWhileD)
  moreover have "?t ! (j - k) = drop k ops ! (j - k)" using j by (rule takeWhile_nth)
  moreover have "k \<le> length ops" using j length_takeWhile_le[of _ "drop k ops"] by (metis drop_all length_drop less_nat_zero_code list.size(3) nat_le_linear takeWhile.simps(1))
  ultimately show ?thesis using assms(1) by (simp add: changed_def)
qed

text \<open>The run that starts at a change ends where no change follows within both contexts.\<close>

lemma run_end_free:
  "changed ops j \<Longrightarrow> run_end ops ctx k \<le> j \<Longrightarrow> run_end ops ctx k + ctx * 2 < j"
proof (induction ops ctx k rule: run_end.induct)
  case (1 ops ctx k)
  show ?case
  proof (cases "k < length ops")
    case False
    then have "run_end ops ctx k = k" by (subst run_end.simps) simp
    then show ?thesis using "1.prems" False by (simp add: changed_def)
  next
    case True
    show ?thesis
    proof (cases "df_kind (ops ! k) \<noteq> OpEqual")
      case c: True
      then have "run_end ops ctx k = run_end ops ctx (k + 1)" using True by (subst run_end.simps) simp
      then show ?thesis using "1.IH"(1)[OF True c] "1.prems" by simp
    next
      case eq: False
      show ?thesis
      proof (cases "k + gap_at ops k \<ge> length ops \<or> gap_at ops k > ctx * 2")
        case stop: True
        then have r: "run_end ops ctx k = k" using True eq by (subst run_end.simps) simp
        have "\<not> j < k + gap_at ops k" using gap_equal[of k j ops] "1.prems" r by auto
        then show ?thesis using stop r "1.prems"(1) by (auto simp: changed_def)
      next
        case go: False
        then have "run_end ops ctx k = run_end ops ctx (k + gap_at ops k)" using True eq by (subst run_end.simps) simp
        then show ?thesis using "1.IH"(2)[OF True eq go] "1.prems" by simp
      qed
    qed
  qed
qed

text \<open>
  The state of the outer loop: the hunks so far are in order and apart, hold every change before
  \<open>i\<close> with its context, and the next change is further than a context from the last of them.
\<close>

definition shown :: "diff_op list \<Rightarrow> nat \<Rightarrow> span list \<Rightarrow> nat \<Rightarrow> bool" where
  "shown ops ctx hs k \<longleftrightarrow> (\<exists>h\<in>set hs. fst h \<le> k - ctx \<and> min (k + ctx + 1) (length ops) \<le> snd h)"

definition hunks_inv :: "diff_op list \<Rightarrow> nat \<Rightarrow> nat \<Rightarrow> span list \<Rightarrow> bool" where
  "hunks_inv ops ctx i out \<longleftrightarrow>
     sorted_wrt (\<lambda>g h. snd g < fst h) out \<and> (\<forall>h\<in>set out. fst h < snd h \<and> snd h \<le> length ops) \<and>
     (\<forall>k<i. changed ops k \<longrightarrow> shown ops ctx out k) \<and>
     (\<forall>h\<in>set out. \<forall>k\<ge>i. changed ops k \<longrightarrow> snd h < k - ctx)"

lemma hunks_inv_step:
  assumes inv: "hunks_inv ops ctx i out" and c: "changed ops i"
    and to': "to' = min (run_end ops ctx i + ctx) (length ops)"
  shows "hunks_inv ops ctx to' (out @ [(i - ctx, to')])"
proof -
  have gt: "i < run_end ops ctx i" using c run_end_gt[of i ops ctx] by (auto simp: changed_def)
  have le: "run_end ops ctx i \<le> length ops" using c run_end_le[of i ops ctx] by (simp add: changed_def)
  have it: "i < to'" using gt le c by (auto simp: to' changed_def)
  have sep: "snd h < i - ctx" if "h \<in> set out" for h using inv that c by (auto simp: hunks_inv_def)
  have new: "shown ops ctx (out @ [(i - ctx, to')]) k" if k: "k < to'" "changed ops k" for k
  proof (cases "k < i")
    case True
    then show ?thesis using inv k by (auto simp: hunks_inv_def shown_def)
  next
    case False
    have "k < run_end ops ctx i"
    proof (rule ccontr)
      assume "\<not> k < run_end ops ctx i"
      then have "run_end ops ctx i + ctx * 2 < k" using run_end_free[OF k(2)] by simp
      then show False using k(1) by (simp add: to')
    qed
    then have "min (k + ctx + 1) (length ops) \<le> to'" by (auto simp: to')
    then show ?thesis using False by (auto simp: shown_def)
  qed
  have far: "to' < k - ctx" if k: "k \<ge> to'" "changed ops k" for k
  proof -
    have "run_end ops ctx i \<le> k" using k le by (auto simp: to' changed_def)
    then have "run_end ops ctx i + ctx * 2 < k" using run_end_free[OF k(2)] by simp
    then show ?thesis by (simp add: to')
  qed
  have old: "snd h < k - ctx" if "h \<in> set out" "k \<ge> to'" "changed ops k" for h k
    using inv that it by (auto simp: hunks_inv_def)
  show ?thesis
    unfolding hunks_inv_def
  proof (intro conjI)
    show "sorted_wrt (\<lambda>g h. snd g < fst h) (out @ [(i - ctx, to')])"
      using inv sep by (auto simp: hunks_inv_def sorted_wrt_append)
    show "\<forall>h\<in>set (out @ [(i - ctx, to')]). fst h < snd h \<and> snd h \<le> length ops"
      using inv it by (auto simp: hunks_inv_def to')
    show "\<forall>k<to'. changed ops k \<longrightarrow> shown ops ctx (out @ [(i - ctx, to')]) k" using new by blast
    show "\<forall>h\<in>set (out @ [(i - ctx, to')]). \<forall>k\<ge>to'. changed ops k \<longrightarrow> snd h < k - ctx" using far old by auto
  qed
qed

text \<open>So the branch that merges two hunks is never taken.\<close>

lemma hunks_loop_inv: "hunks_inv ops ctx i out \<Longrightarrow> hunks_inv ops ctx (length ops) (hunks_loop ops ctx i out)"
proof (induction ops ctx i out rule: hunks_loop.induct)
  case (1 ops ctx i out)
  show ?case
  proof (cases "i < length ops")
    case False
    then have "hunks_loop ops ctx i out = out" by (subst hunks_loop.simps) simp
    then show ?thesis using "1.prems" False by (auto simp: hunks_inv_def changed_def)
  next
    case True
    show ?thesis
    proof (cases "df_kind (ops ! i) = OpEqual")
      case eq: True
      then have "hunks_loop ops ctx i out = hunks_loop ops ctx (i + 1) out" using True by (subst hunks_loop.simps) simp
      moreover have "hunks_inv ops ctx (i + 1) out"
        using "1.prems" eq by (auto simp: hunks_inv_def changed_def less_Suc_eq)
      ultimately show ?thesis using "1.IH"(1)[OF True eq] by simp
    next
      case False
      then have c: "changed ops i" using True by (simp add: changed_def)
      have "\<forall>h\<in>set out. snd h < i - ctx" using "1.prems" c by (auto simp: hunks_inv_def)
      then have "\<not> (out \<noteq> [] \<and> i - ctx \<le> snd (last out))" by (metis last_in_set not_le)
      then show ?thesis
        using "1.IH"(3)[OF True False refl refl] hunks_inv_step[OF "1.prems" c refl] True False
        by (subst hunks_loop.simps) (auto simp: Let_def)
    qed
  qed
qed

lemma hunks_inv_final: "hunks_inv ops ctx (length ops) (hunks ops ctx)"
  unfolding hunks_def by (rule hunks_loop_inv) (simp add: hunks_inv_def)

subsection \<open>Properties\<close>

text \<open>
  (C15) The script is a smallest one and turns the one file into the other: its lines that are not
  insertions are the old file in order with their line numbers, those that are not deletions the
  new file, and it keeps as many lines as a longest common subsequence has. It has no change, and
  the rendered diff is empty, exactly when the two are equal.
\<close>

theorem diffOps_minimal:
  "map df_text (old_side (diffOps a b)) = a \<and> map df_aLine (old_side (diffOps a b)) = [1..<Suc (length a)] \<and>
   map df_text (new_side (diffOps a b)) = b \<and> map df_bLine (new_side (diffOps a b)) = [1..<Suc (length b)] \<and>
   (\<forall>cs. subseq cs a \<and> subseq cs b \<longrightarrow> length cs \<le> equal_lines (diffOps a b)) \<and>
   (unifiedDiff a b aName bName ctx = [] \<longleftrightarrow> a = b)"
proof -
  have lines: "map line ops = map snd (map (\<lambda>op. (df_text op, line op)) ops)" for line :: "diff_op \<Rightarrow> nat" and ops
    by (simp add: comp_def)
  have "map df_aLine (old_side (diffOps a b)) = [1..<Suc (length a)]"
    unfolding lines[of df_aLine] diffOps_correct by (simp add: comp_def map_Suc_upt del: upt_Suc)
  moreover have "map df_bLine (new_side (diffOps a b)) = [1..<Suc (length b)]"
    unfolding lines[of df_bLine] diffOps_correct by (simp add: comp_def map_Suc_upt del: upt_Suc)
  moreover have "unifiedDiff a b aName bName ctx = [] \<longleftrightarrow> a = b"
    using hasChange_iff[of a b] by (simp add: unifiedDiff_def Let_def)
  moreover have "\<forall>cs. subseq cs a \<and> subseq cs b \<longrightarrow> length cs \<le> equal_lines (diffOps a b)"
    unfolding diffOps_correct(3) using lcs_len_upper by blast
  ultimately show ?thesis using diffOps_texts[of a b] by blast
qed

theorem diffOps_minimal_witness:
  "3 \<le> equal_lines (diffOps [''a'', ''b'', ''c'', ''d''] [''b'', ''x'', ''c'', ''d''])"
proof -
  have "subseq [''b'', ''c'', ''d''] [''a'', ''b'', ''c'', ''d'']" "subseq [''b'', ''c'', ''d''] [''b'', ''x'', ''c'', ''d'']"
    by simp_all
  then have "length [''b'', ''c'', ''d''] \<le> equal_lines (diffOps [''a'', ''b'', ''c'', ''d''] [''b'', ''x'', ''c'', ''d''])"
    using diffOps_minimal[of "[''a'', ''b'', ''c'', ''d'']" "[''b'', ''x'', ''c'', ''d'']"] by blast
  then show ?thesis by simp
qed

text \<open>
  The operator sees every change. The hunks are in order, non-empty and apart from each
  other, and each changed line is in one of them together with its context on both sides, as far
  as the script goes. The code's merging of two hunks is never needed.
\<close>

theorem hunks_show_changes:
  "sorted_wrt (\<lambda>g h. snd g < fst h) (hunks ops ctx) \<and>
   (\<forall>h\<in>set (hunks ops ctx). fst h < snd h \<and> snd h \<le> length ops) \<and>
   (\<forall>k<length ops. df_kind (ops ! k) \<noteq> OpEqual \<longrightarrow>
      (\<exists>h\<in>set (hunks ops ctx). fst h \<le> k - ctx \<and> min (k + ctx + 1) (length ops) \<le> snd h))"
  using hunks_inv_final[of ops ctx] by (auto simp: hunks_inv_def shown_def changed_def)

theorem hunks_show_changes_witness:
  "\<exists>h\<in>set (hunks (diffOps [''a''] [''a'', ''b'']) 3). fst h \<le> 0 \<and> 2 \<le> snd h"
proof -
  have d: "diffOps [''a''] [''a'', ''b''] = [diff_op OpEqual ''a'' 1 1, diff_op OpInsert ''b'' 0 2]"
    by (simp add: diffOps_def diff_walk.simps)
  then have "1 < length (diffOps [''a''] [''a'', ''b''])" "df_kind (diffOps [''a''] [''a'', ''b''] ! 1) \<noteq> OpEqual" by simp_all
  then have "\<exists>h\<in>set (hunks (diffOps [''a''] [''a'', ''b'']) 3). fst h \<le> 1 - 3 \<and>
      min (1 + 3 + 1) (length (diffOps [''a''] [''a'', ''b''])) \<le> snd h"
    using hunks_show_changes[of "diffOps [''a''] [''a'', ''b'']" 3] by blast
  then show ?thesis using d by (simp add: numeral_2_eq_2)
qed

text \<open>
  The header of a first install is not that of a unified diff. The lines of a file that has
  none yet come after its line 0, and the code writes line 1: with no live policy the hunk is
  \<open>-1,0\<close>, as if a first line were there.
\<close>

theorem first_install_header:
  "hunkRange (diffOps [] (y # ys)) = (1, 0, 1, Suc (length ys))"
proof -
  have d: "diffOps [] (y # ys) = map (\<lambda>k. diff_op OpInsert ((y # ys) ! k) 0 (Suc k)) [0..<Suc (length ys)]"
    by (simp add: diffOps_def diff_walk.simps del: upt_Suc)
  let ?f = "\<lambda>k. diff_op OpInsert ((y # ys) ! k) 0 (Suc k)"
  have a: "side_start df_aLine (map ?f xs) = 0" "side_len df_aLine (map ?f xs) = 0" for xs
    by (induction xs) (simp_all add: side_start_def side_len_def)
  have b: "side_len df_bLine (map ?f xs) = length xs" for xs
    by (induction xs) (simp_all add: side_len_def)
  have "side_start df_bLine (map ?f [0..<Suc (length ys)]) = 1" "df_bLine (hd (map ?f [0..<Suc (length ys)])) = 1"
    by (simp_all add: side_start_def upt_conv_Cons del: upt_Suc)
  then show ?thesis unfolding d hunkRange_def Let_def a b by (simp del: upt_Suc)
qed

end
