(* ===== verification/Reports.thy ===== *)
theory Reports
  imports Commands Diff
begin

text \<open>
  What an operator is shown: the text \<open>runTransaction\<close> and \<open>runPolicyGrant\<close> of
  \<open>cmd/parzival/grant.go\<close> write to standard output, and that an install is never made of anything
  else than what was shown. \<open>fmt\<close> is the format of a time.
\<close>

subsection \<open>The report of a transaction\<close>

definition untouched_text :: "transaction \<Rightarrow> string" where
  "untouched_text t = newline @ ''The live policy at '' @ tx_livePath t @ '' is untouched.'' @ newline"

definition errors_text :: "transaction \<Rightarrow> finding list \<Rightarrow> string" where
  "errors_text t errs =
     newline @ ''ERRORS in the candidate '' @ emdash @ '' its text and its effect disagree:'' @ newline @
     concat (map finding_line errs) @ untouched_text t"

definition warnings_text :: "finding list \<Rightarrow> string" where
  "warnings_text warns =
     (if length warns > 0 then newline @ ''Warnings in the candidate:'' @ newline @ concat (map finding_line warns) else [])"

text \<open>A row of the table of expected decisions.\<close>

definition expected_row :: "policy \<Rightarrow> gotime \<Rightarrow> probe \<Rightarrow> string" where
  "expected_row reread now pr =
     (case Explain reread \<lparr>q_Ref = pr_Ref pr, q_Identity = pr_Identity pr, q_Mode = pr_Mode pr, q_Time = now,
        q_Caller = [], q_Agent = []\<rparr> of
        (allow, idx) \<Rightarrow>
          ''  '' @ pad_right 24 (displayIdentity (pr_Identity pr)) @ '' '' @ pad_right 6 (pr_Mode pr) @ '' '' @
          pad_right 44 (pr_Ref pr) @ '' '' @ (if allow then ''ALLOW'' else ''DENY '') @
          (if idx \<ge> 0 then ''  (rule '' @ itoa idx @ '')'' else []) @ newline)"

definition expected_text :: "policy \<Rightarrow> gotime \<Rightarrow> rule option \<Rightarrow> string" where
  "expected_text reread now newRule =
     (case newRule of
        None \<Rightarrow> []
      | Some r \<Rightarrow>
          newline @ ''Expected authorization (evaluated against the candidate):'' @ newline @
          concat (map (expected_row reread now) (representativeProbes r)))"

definition change_line :: "change \<Rightarrow> string" where
  "change_line c = ''  '' @ change_Describe c @ newline"

definition delta_text :: "(gotime \<Rightarrow> string) \<Rightarrow> delta \<Rightarrow> string" where
  "delta_text fmt d =
     newline @ ''Authorization delta ('' @ itoa (int (dl_Probed d)) @ '' requests probed at '' @ fmt (dl_At d) @ ''):'' @ newline @
     (if delta_Empty d then ''  none '' @ emdash @ '' no probed request changes decision'' @ newline else []) @
     concat (map change_line (dl_Changes d)) @
     (if length (dl_TimeConditional d) > 0 then
        newline @ ''  Note: '' @ ruleWord (dl_TimeConditional d) @ '' in the candidate '' @
        isAre (length (dl_TimeConditional d)) @ '' limited by weekday, month day or hours.'' @ newline @
        ''  The delta above is a snapshot at one instant, not a schedule.'' @ newline
      else [])"

definition unexpected_text :: "transaction \<Rightarrow> change list \<Rightarrow> string" where
  "unexpected_text t unexpected =
     newline @ ''UNEXPECTED authorization changes '' @ emdash @ '' these are outside what was requested:'' @ newline @
     concat (map change_line unexpected) @ untouched_text t @
     ''Narrow the grant so it changes only what you intended, or re-run with'' @ newline @
     ''--at <index> if the placement is what produced these.'' @ newline"

definition diff_text :: "string \<Rightarrow> string \<Rightarrow> string \<Rightarrow> string \<Rightarrow> string" where
  "diff_text liveBytes candBytes livePath candPath =
     (let d = unifiedDiff (splitLines liveBytes) (splitLines candBytes) livePath candPath 3
      in newline @ ''File diff:'' @ newline @
         (if d = [] then ''  (none '' @ emdash @ '' the rendered policy is byte-identical)'' @ newline else d))"

text \<open>Everything printed from the candidate to the diff, or up to the first refusal.\<close>

definition tx_report ::
  "encoder \<Rightarrow> (gotime \<Rightarrow> string) \<Rightarrow> tenv \<Rightarrow> transaction \<Rightarrow> rule option \<Rightarrow> string \<Rightarrow> policy \<Rightarrow> string" where
  "tx_report marshal fmt env t newRule candPath reread =
     (let a = Analyze reread; errs = Errors a;
          before = (if tx_liveOnDisk t then Some (tx_live t) else None);
          expected = (case tx_expected t of None \<Rightarrow> [] | Some w \<Rightarrow> w);
          d = DiffAuthorization before (Some reread) (ProbeSet [Some (tx_live t), Some reread] expected) (te_now env);
          unexpected = (case tx_expected t of None \<Rightarrow> [] | Some w \<Rightarrow> Unexpected d w)
      in newline @ ''Candidate: '' @ candPath @ newline @
         ''Parses, and every field and value is one this parzival understands.'' @ newline @
         (if length errs > 0 then errors_text t errs
          else
            warnings_text (Warnings a) @ expected_text reread (te_now env) newRule @ delta_text fmt d @
            (if length unexpected > 0 then unexpected_text t unexpected
             else
               (if tx_expected t \<noteq> None then newline @ ''Unexpected authorization changes: none'' @ newline else []) @
               (case (if tx_liveOnDisk t then marshal (tx_live t) else Inr []) of
                  Inl _ \<Rightarrow> []
                | Inr liveBytes \<Rightarrow>
                    (case marshal reread of
                       Inl _ \<Rightarrow> []
                     | Inr candBytes \<Rightarrow> diff_text liveBytes candBytes (tx_livePath t) candPath)))))"

definition not_installed_text :: "transaction \<Rightarrow> string \<Rightarrow> string" where
  "not_installed_text t candPath =
     newline @ ''Nothing was installed. The live policy at '' @ tx_livePath t @ '' is unchanged.'' @ newline @
     newline @ ''To install this candidate:'' @ newline @
     ''  parzival policy apply --apply '' @ candPath @ newline"

definition prompt_text :: "transaction \<Rightarrow> string" where
  "prompt_text t = newline @ ''Install this policy over '' @ tx_livePath t @ ''? [y/N]: ''"

definition cancelled_text :: "transaction \<Rightarrow> string \<Rightarrow> string" where
  "cancelled_text t candPath =
     ''Not installed. The live policy at '' @ tx_livePath t @ '' is unchanged.'' @ newline @
     ''The candidate is still at '' @ candPath @ '' if you want it.'' @ newline @
     ''(Pass --yes alongside --apply to install without this prompt.)'' @ newline"

definition commit_text ::
  "encoder \<Rightarrow> decoder \<Rightarrow> tenv \<Rightarrow> transaction \<Rightarrow> string \<Rightarrow> policy \<Rightarrow> fsys \<Rightarrow> string" where
  "commit_text marshal decode env t candPath reread fs =
     (case snd (Backup (te_backup env) (te_stamp env) (tx_livePath t) fs) of
        Inl _ \<Rightarrow> []
      | Inr backup \<Rightarrow>
          (if backup \<noteq> [] then newline @ ''Backup: '' @ backup @ newline else []) @
          (if snd (tx_commit marshal decode env t candPath reread fs) = None then
             newline @ ''Installed '' @ tx_livePath t @ '' ('' @ itoa (int (length (p_Rules reread))) @
             '' rules, mode 0600) and verified.'' @ newline @
             ''Re-run `parzival policy check` and `parzival policy validate` if you want'' @ newline @
             ''the full reports against the installed file.'' @ newline
           else []))"

text \<open>The standard output of \<open>runTransaction\<close>.\<close>

definition transaction_output ::
  "encoder \<Rightarrow> decoder \<Rightarrow> (gotime \<Rightarrow> string) \<Rightarrow> tenv \<Rightarrow> transaction \<Rightarrow> rule option \<Rightarrow> fsys \<Rightarrow> string" where
  "transaction_output marshal decode fmt env t newRule fs =
     (case WriteCandidate marshal decode (te_cand env) (tx_candidate t) fs of
        (tr0, Inl _) \<Rightarrow> []
      | (tr0, Inr candPath) \<Rightarrow>
          (case LoadFile decode (te_candReadable env) (last tr0) candPath of
             Inr (Some reread) \<Rightarrow>
               tx_report marshal fmt env t newRule candPath reread @
               (if tx_check marshal env t reread \<noteq> None then []
                else if \<not> tx_apply t then not_installed_text t candPath
                else if tx_assumeYes t then commit_text marshal decode env t candPath reread (last tr0)
                else prompt_text t @
                  (if \<not> confirm (te_line env) then cancelled_text t candPath
                   else commit_text marshal decode env t candPath reread (last tr0)))
           | _ \<Rightarrow> []))"

subsection \<open>The report of a grant\<close>

definition raw_get_warning :: string where
  "raw_get_warning =
     newline @ ''WARNING: this rule permits the caller to retrieve the raw secret value.'' @ newline @ newline @
     ''  Brokered exec or mount access may be sufficient and exposes less secret'' @ newline @
     ''  material to the caller: with exec or mount the value is placed in a 0600'' @ newline @
     ''  RAM-backed file the consumer opens, and never enters a stream the caller'' @ newline @
     ''  controls. With get it goes to the caller's stdout, which may be a log, a'' @ newline @
     ''  terminal, CI output, or an AI agent's transcript.'' @ newline"

text \<open>The placement; without an index the command stops after the empty line.\<close>

definition placement_text :: "placement \<Rightarrow> int \<Rightarrow> policy \<Rightarrow> string" where
  "placement_text pl at live =
     (if at \<ge> 0 then
        newline @ ''Placement: rule '' @ itoa at @ '', as given by --at.'' @ newline @
        (if pl_Err pl \<noteq> None then
           ''  (the computed placement was refused; --at overrides it '' @ emdash @ '' check the'' @ newline @
           ''   authorization delta below especially carefully)'' @ newline
         else [])
      else if pl_Err pl \<noteq> None then newline
      else
        newline @ ''Placement: rule '' @ itoa (int (pl_Index pl)) @
        (if pl_Index pl = 0 \<and> length (p_Rules live) > 0 then '' (at the top)''
         else if pl_Index pl \<ge> length (p_Rules live) then '' (at the end)'' else []) @ newline @
        (if length (pl_BlockedBy pl) > 0 then
           ''  above '' @ ruleWord (pl_BlockedBy pl) @ '', which would otherwise decide these requests first'' @ newline
         else []) @
        (if length (pl_WouldBlock pl) > 0 then
           ''  below '' @ ruleWord (pl_WouldBlock pl) @ '', which it would otherwise leave unreachable'' @ newline
         else []))"

definition redundant_text :: "placement \<Rightarrow> string" where
  "redundant_text pl =
     (if placement_Redundant pl then
        newline @ ''NOTE: rule '' @ itoa (pl_CoveredBy pl) @ '' already reaches the same outcome for everything this rule'' @ newline @
        ''covers. Adding it changes no authorization '' @ emdash @ '' consider whether you meant'' @ newline @
        ''something narrower, or whether the existing rule is broader than intended.'' @ newline
      else [])"

definition grant_output ::
  "encoder \<Rightarrow> decoder \<Rightarrow> bool \<Rightarrow> (gotime \<Rightarrow> string) \<Rightarrow> tenv \<Rightarrow> env \<Rightarrow> string list \<Rightarrow> grant_flags \<Rightarrow> fsys \<Rightarrow> string" where
  "grant_output marshal decode readable fmt te e stdin fl fs =
     (case grant_request_of stdin fl of
        Inl _ \<Rightarrow> []
      | Inr req \<Rightarrow>
          (if GrantsRawGet req then raw_get_warning else []) @
          (case BuildGrantRule req of
             Inl _ \<Rightarrow> []
           | Inr rule \<Rightarrow>
               (case loadPolicyFile decode readable e fs (gr_file fl) of
                  (path, Inl _) \<Rightarrow> []
                | (path, Inr po) \<Rightarrow>
                    (let live = (case po of None \<Rightarrow> empty_policy | Some p \<Rightarrow> p); pl = AnalyzeRuleInsertion live rule in
                     (if po = None then ''no policy at '' @ path @ '' '' @ emdash @ '' this grant creates it'' @ newline else []) @
                     placement_text pl (gr_at fl) live @
                     (case grant_index live rule (gr_at fl) of
                        Inl _ \<Rightarrow> []
                      | Inr index \<Rightarrow>
                          redundant_text pl @
                          (case InsertRule live rule index of
                             Inl _ \<Rightarrow> []
                           | Inr candidate \<Rightarrow>
                               newline @ ''Proposed rule:'' @ newline @ indentRule rule ''  '' @
                               transaction_output marshal decode fmt te
                                 \<lparr>tx_livePath = path, tx_live = live, tx_liveOnDisk = (po \<noteq> None),
                                  tx_candidate = candidate, tx_expected = Some (RuleProbes rule),
                                  tx_apply = gr_apply fl, tx_assumeYes = gr_yes fl\<rparr> (Some rule) fs))))))"

subsection \<open>Properties\<close>

lemma tx_check_shown:
  assumes "tx_check marshal env t reread = None"
  shows "Errors (Analyze reread) = [] \<and>
    (\<exists>liveBytes data. (if tx_liveOnDisk t then marshal (tx_live t) else Inr []) = Inr liveBytes \<and> marshal reread = Inr data \<and>
      (\<exists>before between. tx_report marshal fmt env t newRule candPath reread =
         before @ delta_text fmt (DiffAuthorization (if tx_liveOnDisk t then Some (tx_live t) else None) (Some reread)
           (ProbeSet [Some (tx_live t), Some reread] (case tx_expected t of None \<Rightarrow> [] | Some w \<Rightarrow> w)) (te_now env)) @
         between @ diff_text liveBytes data (tx_livePath t) candPath))"
proof -
  obtain liveBytes data where m: "(if tx_liveOnDisk t then marshal (tx_live t) else Inr []) = Inr liveBytes" "marshal reread = Inr data"
    using assms by (auto simp: tx_check_def Let_def split: if_splits sum.splits)
  have e: "Errors (Analyze reread) = []"
    using assms by (auto simp: tx_check_def Let_def split: if_splits)
  have u: "(case tx_expected t of None \<Rightarrow> [] | Some w \<Rightarrow>
      Unexpected (DiffAuthorization (if tx_liveOnDisk t then Some (tx_live t) else None) (Some reread)
        (ProbeSet [Some (tx_live t), Some reread] (case tx_expected t of None \<Rightarrow> [] | Some w \<Rightarrow> w)) (te_now env)) w) = []"
    using assms by (auto simp: tx_check_def Let_def split: if_splits)
  let ?d = "delta_text fmt (DiffAuthorization (if tx_liveOnDisk t then Some (tx_live t) else None) (Some reread)
      (ProbeSet [Some (tx_live t), Some reread] (case tx_expected t of None \<Rightarrow> [] | Some w \<Rightarrow> w)) (te_now env))"
  let ?b = "newline @ ''Candidate: '' @ candPath @ newline @
      ''Parses, and every field and value is one this parzival understands.'' @ newline @
      warnings_text (Warnings (Analyze reread)) @ expected_text reread (te_now env) newRule"
  let ?m = "if tx_expected t \<noteq> None then newline @ ''Unexpected authorization changes: none'' @ newline else []"
  have "tx_report marshal fmt env t newRule candPath reread = ?b @ ?d @ ?m @ diff_text liveBytes data (tx_livePath t) candPath"
    unfolding tx_report_def Let_def u e m by simp
  then show ?thesis using e m by blast
qed

lemma change_shown: "c \<in> set (dl_Changes d) \<Longrightarrow> \<exists>a b. delta_text fmt d = a @ change_line c @ b"
proof -
  assume "c \<in> set (dl_Changes d)"
  then obtain xs ys where x: "dl_Changes d = xs @ c # ys" by (meson split_list)
  let ?a = "newline @ ''Authorization delta ('' @ itoa (int (dl_Probed d)) @ '' requests probed at '' @ fmt (dl_At d) @ ''):'' @ newline @
     (if delta_Empty d then ''  none '' @ emdash @ '' no probed request changes decision'' @ newline else []) @
     concat (map change_line xs)"
  have "delta_text fmt d = ?a @ change_line c @ (concat (map change_line ys) @
     (if length (dl_TimeConditional d) > 0 then
        newline @ ''  Note: '' @ ruleWord (dl_TimeConditional d) @ '' in the candidate '' @
        isAre (length (dl_TimeConditional d)) @ '' limited by weekday, month day or hours.'' @ newline @
        ''  The delta above is a snapshot at one instant, not a schedule.'' @ newline
      else []))"
    unfolding delta_text_def x by simp
  then show ?thesis by blast
qed

text \<open>
  (C14) Nothing is installed that was not shown. If in any state of a transaction the live file
  differs from what it was, then the output has, before the question that was answered with yes,
  a line for every probed request whose decision changes, and then the diff from the rendered live
  policy to the rendered candidate; and what the live file holds is that rendered candidate, or after
  a rollback the old policy.
\<close>

theorem install_was_shown:
  assumes "we_temp (te_cand env) \<noteq> Some (tx_livePath t)" "we_temp (te_install env) \<noteq> Some (tx_livePath t)"
    "we_temp (te_restore env) \<noteq> Some (tx_livePath t)"
    and "s \<in> set (fst (runTransaction marshal decode env t fs))" "s (tx_livePath t) \<noteq> fs (tx_livePath t)"
  shows "\<exists>candPath reread liveBytes data d before between after f.
    transaction_output marshal decode fmt env t newRule fs =
      before @ delta_text fmt d @ between @ diff_text liveBytes data (tx_livePath t) candPath @
      (if tx_assumeYes t then [] else prompt_text t) @ after \<and>
    (tx_assumeYes t \<or> confirm (te_line env)) \<and>
    d = DiffAuthorization (if tx_liveOnDisk t then Some (tx_live t) else None) (Some reread)
          (ProbeSet [Some (tx_live t), Some reread] (case tx_expected t of None \<Rightarrow> [] | Some w \<Rightarrow> w)) (te_now env) \<and>
    (\<forall>c\<in>set (dl_Changes d). \<exists>a b. delta_text fmt d = a @ change_line c @ b) \<and>
    (if tx_liveOnDisk t then marshal (tx_live t) else Inr []) = Inr liveBytes \<and> marshal reread = Inr data \<and>
    s (tx_livePath t) = Some f \<and>
    (fl_data f = data \<or>
     (\<exists>f0 p. fs (tx_livePath t) = Some f0 \<and> Parse decode (fl_data f0) = Inr p \<and> marshal p = Inr (fl_data f)))"
proof -
  from transaction_committed[OF assms] obtain tr0 candPath reread backup where c:
    "WriteCandidate marshal decode (te_cand env) (tx_candidate t) fs = (tr0, Inr candPath)"
    "LoadFile decode (te_candReadable env) (last tr0) candPath = Inr (Some reread)"
    "tx_check marshal env t reread = None" "tx_ready marshal decode env t reread"
    "commit_safe marshal decode (tx_livePath t) reread fs backup s" by blast
  from tx_check_shown[OF c(3), of fmt newRule candPath] obtain liveBytes data before between where r:
    "(if tx_liveOnDisk t then marshal (tx_live t) else Inr []) = Inr liveBytes" "marshal reread = Inr data"
    "tx_report marshal fmt env t newRule candPath reread =
       before @ delta_text fmt (DiffAuthorization (if tx_liveOnDisk t then Some (tx_live t) else None) (Some reread)
         (ProbeSet [Some (tx_live t), Some reread] (case tx_expected t of None \<Rightarrow> [] | Some w \<Rightarrow> w)) (te_now env)) @
       between @ diff_text liveBytes data (tx_livePath t) candPath" by blast
  have ask: "tx_apply t" "tx_assumeYes t \<or> confirm (te_line env)" using c(4) by (auto simp: tx_ready_def)
  obtain after where o: "transaction_output marshal decode fmt env t newRule fs =
      tx_report marshal fmt env t newRule candPath reread @ (if tx_assumeYes t then [] else prompt_text t) @ after"
    using c(1-3) ask by (auto simp: transaction_output_def)
  define d where "d = DiffAuthorization (if tx_liveOnDisk t then Some (tx_live t) else None) (Some reread)
      (ProbeSet [Some (tx_live t), Some reread] (case tx_expected t of None \<Rightarrow> [] | Some w \<Rightarrow> w)) (te_now env)"
  have out: "transaction_output marshal decode fmt env t newRule fs =
      before @ delta_text fmt d @ between @ diff_text liveBytes data (tx_livePath t) candPath @
      (if tx_assumeYes t then [] else prompt_text t) @ after"
    unfolding o r(3) d_def by simp
  have lines: "\<forall>c\<in>set (dl_Changes d). \<exists>a b. delta_text fmt d = a @ change_line c @ b" using change_shown by blast
  obtain f where f: "s (tx_livePath t) = Some f" "fl_data f = data \<or>
     (\<exists>f0 p. fs (tx_livePath t) = Some f0 \<and> Parse decode (fl_data f0) = Inr p \<and> marshal p = Inr (fl_data f))"
    using c(5) assms(5) r(2) by (auto simp: commit_safe_def installable_def)
  show ?thesis using out ask(2) d_def lines r(1,2) f by blast
qed

theorem install_was_shown_witness:
  "\<exists>before between after liveBytes data candPath d.
     transaction_output toy_marshal toy_decode (\<lambda>_. ''now'') example_tenv example_tx None example_fs =
       before @ delta_text (\<lambda>_. ''now'') d @ between @ diff_text liveBytes data ''p'' candPath @
       prompt_text example_tx @ after"
proof -
  let ?r = "runTransaction toy_marshal toy_decode example_tenv example_tx example_fs"
  let ?s = "last (fst ?r)"
  have m: "?s \<in> set (fst ?r)" by (rule last_in_set) code_simp
  have "map_option fl_data (?s ''p'') = Some ''1''" by code_simp
  then have ne: "?s (tx_livePath example_tx) \<noteq> example_fs (tx_livePath example_tx)"
    by (auto simp: example_fs_def example_tx_def)
  have t: "we_temp (te_cand example_tenv) \<noteq> Some (tx_livePath example_tx)"
    "we_temp (te_install example_tenv) \<noteq> Some (tx_livePath example_tx)"
    "we_temp (te_restore example_tenv) \<noteq> Some (tx_livePath example_tx)"
    by (simp_all add: example_tenv_def example_tx_def good_wenv_def)
  have p: "\<not> tx_assumeYes example_tx" "tx_livePath example_tx = ''p''" by (simp_all add: example_tx_def)
  show ?thesis
    using install_was_shown[OF t m ne, of "\<lambda>_. ''now''" None] p by fastforce
qed

end
